(* ===== verification/Silk_Prelude.thy ===== *)
theory Silk_Prelude
  imports Main "HOL-Library.Word" "HOL-Library.Sublist" "HOL-Library.Multiset"
begin

text \<open>
  Shared vocabulary of the development: Go's error values and result types, the decimal
  and hexadecimal renderings of \<^verbatim>\<open>fmt.Sprintf\<close> and \<^verbatim>\<open>strconv\<close>, and the generic lemmas on
  strings and lists that the component theories use.

  Conventions.  A Go \<^verbatim>\<open>error\<close> is \<open>go_error option\<close> (\<open>None\<close> is \<^verbatim>\<open>nil\<close>); a Go pair
  \<^verbatim>\<open>(T, error)\<close> is \<open>'a result\<close>; a method that talks to a service threads the service's
  state: \<open>'s \<Rightarrow> 'a result \<times> 's\<close>.  A Go \<^verbatim>\<open>string\<close> is a list of bytes, which is what
  HOL's \<open>string\<close> (a \<open>char list\<close>) is.  Log calls have no effect on the values and are
  not represented.
\<close>

unbundle bit_operations_syntax

named_theorems go_text \<open>rewriting of rendered and parsed texts\<close>

section \<open>Errors and results\<close>

text \<open>
  The dynamic types an \<^verbatim>\<open>error\<close> has in the program.  \<open>ErrorString\<close> is what
  \<^verbatim>\<open>errors.New\<close> and \<^verbatim>\<open>fmt.Errorf\<close> build; the others are the types and sentinels that the
  program tells apart by a type assertion or by \<^verbatim>\<open>==\<close>.
\<close>

datatype go_error =
    ErrorString string
  | NonRetriableError string
  | FatalError string
  | RecordNotAffectedError
  | ErrNoRows
  | HttpResponseCodeError int string

type_synonym 'a result = "go_error + 'a"

fun isNonRetriable :: "go_error \<Rightarrow> bool" where
  "isNonRetriable (NonRetriableError _) = True"
| "isNonRetriable _ = False"

fun isFatalError :: "go_error \<Rightarrow> bool" where
  "isFatalError (FatalError _) = True"
| "isFatalError _ = False"

section \<open>Decimal and hexadecimal texts\<close>

abbreviation hexDigits :: string where
  "hexDigits \<equiv> ''0123456789abcdef''"

text \<open>\<open>itoa n\<close> is \<^verbatim>\<open>%d\<close> of a non-negative number, \<open>sprintf_d\<close> that of any Go \<^verbatim>\<open>int\<close>.\<close>

fun itoa :: "nat \<Rightarrow> string" where
  "itoa n = (if n < 10 then [hexDigits ! n] else itoa (n div 10) @ [hexDigits ! (n mod 10)])"

declare itoa.simps [simp del]

definition sprintf_d :: "int \<Rightarrow> string" where
  "sprintf_d i = (if i < 0 then CHR ''-'' # itoa (nat (- i)) else itoa (nat i))"

text \<open>\<open>sprintf_03d\<close> is \<^verbatim>\<open>%03d\<close> and \<open>sprintf_02x\<close> is \<^verbatim>\<open>%02x\<close>, both on one byte.\<close>

definition sprintf_03d :: "8 word \<Rightarrow> string" where
  "sprintf_03d b = (let t = itoa (unat b) in replicate (3 - length t) CHR ''0'' @ t)"

definition sprintf_02x :: "8 word \<Rightarrow> string" where
  "sprintf_02x b = [hexDigits ! (unat b div 16), hexDigits ! (unat b mod 16)]"

definition digit_val :: "char \<Rightarrow> nat" where
  "digit_val c = of_char c - 48"

definition is_digit :: "char \<Rightarrow> bool" where
  "is_digit c \<longleftrightarrow> 48 \<le> (of_char c :: nat) \<and> (of_char c :: nat) \<le> 57"

fun Error :: "go_error \<Rightarrow> string" where
  "Error (ErrorString s) = s"
| "Error (NonRetriableError s) = s"
| "Error (FatalError s) = ''fatal: '' @ s"
| "Error RecordNotAffectedError = ''record not affected''"
| "Error ErrNoRows = ''sql: no rows in result set''"
| "Error (HttpResponseCodeError code msg) = ''http status '' @ sprintf_d code @ '': '' @ msg"

text \<open>The value a digit string denotes.\<close>

definition digits_val :: "string \<Rightarrow> nat \<Rightarrow> nat" where
  "digits_val s acc = foldl (\<lambda>n c. n * 10 + digit_val c) acc s"

text \<open>
  A Go map used as a set (\<^verbatim>\<open>map[string]struct{}\<close>) is the list of its keys; storing a key
  that is present changes nothing.
\<close>

definition key_insert :: "'a \<Rightarrow> 'a list \<Rightarrow> 'a list" where
  "key_insert k m = (if k \<in> set m then m else m @ [k])"

section \<open>Lemmas on digits\<close>

lemma less_10_cases:
  assumes "(d::nat) < 10"
  obtains "d = 0" | "d = 1" | "d = 2" | "d = 3" | "d = 4"
        | "d = 5" | "d = 6" | "d = 7" | "d = 8" | "d = 9"
  using assms by atomize_elim arith

lemma digit_table [go_text]:
  assumes "d < 10"
  shows "is_digit (hexDigits ! d)" and "digit_val (hexDigits ! d) = d"
  using assms by (cases d rule: less_10_cases; simp add: is_digit_def digit_val_def)+

lemma digit_char_eq:
  assumes "is_digit c"
  shows "c = hexDigits ! digit_val c" and "digit_val c < 10"
proof -
  have v: "digit_val c < 10" using assms by (auto simp: is_digit_def digit_val_def)
  have "of_char c = 48 + digit_val c" using assms by (simp add: is_digit_def digit_val_def)
  then have c: "c = char_of (48 + digit_val c)" by (metis char_of_char)
  have "char_of (48 + d) = hexDigits ! d" if "d < 10" for d :: nat
    using that by (cases d rule: less_10_cases) (simp; code_simp)+
  with v c show "c = hexDigits ! digit_val c" by metis
  show "digit_val c < 10" by (rule v)
qed

lemma not_digit [go_text]:
  "\<not> is_digit CHR ''.''" "\<not> is_digit CHR ''/''" "\<not> is_digit CHR '':''" "\<not> is_digit CHR ''-''"
  "\<not> is_digit CHR '' ''"
  by (simp_all add: is_digit_def)

lemma itoa_small [go_text]: "n < 10 \<Longrightarrow> itoa n = [hexDigits ! n]"
  by (subst itoa.simps) simp

lemma itoa_step: "10 \<le> n \<Longrightarrow> itoa n = itoa (n div 10) @ [hexDigits ! (n mod 10)]"
  by (subst itoa.simps) simp

lemma itoa_not_Nil [simp]: "itoa n \<noteq> []"
  by (subst itoa.simps) simp

lemma itoa_digits: "c \<in> set (itoa n) \<Longrightarrow> is_digit c"
proof (induction n rule: itoa.induct)
  case (1 n)
  then show ?case
    by (cases "n < 10") (auto simp: itoa_small itoa_step digit_table)
qed

lemma digits_val_simps [simp]:
  "digits_val [] acc = acc"
  "digits_val (c # s) acc = digits_val s (acc * 10 + digit_val c)"
  "digits_val (s @ t) acc = digits_val t (digits_val s acc)"
  by (simp_all add: digits_val_def)

lemma digits_val_mono: "acc \<le> digits_val s acc"
proof (induction s arbitrary: acc)
  case (Cons c s)
  have "acc \<le> acc * 10 + digit_val c" by simp
  also have "\<dots> \<le> digits_val (c # s) acc" using Cons by simp
  finally show ?case .
qed simp

lemma digits_val_itoa [go_text]: "digits_val (itoa n) 0 = n"
proof (induction n rule: itoa.induct)
  case (1 n)
  then show ?case
    by (cases "n < 10") (auto simp: itoa_small itoa_step digit_table)
qed

lemma itoa_inj [simp]: "itoa m = itoa n \<longleftrightarrow> m = n"
  by (metis digits_val_itoa)

lemma itoa_hd: "n \<noteq> 0 \<Longrightarrow> hd (itoa n) \<noteq> CHR ''0''"
proof (induction n rule: itoa.induct)
  case (1 n)
  show ?case
  proof (cases "n < 10")
    case True
    then show ?thesis using "1.prems"
      by (cases n rule: less_10_cases) (auto simp: itoa_small)
  next
    case False
    then have "n div 10 \<noteq> 0" by simp
    with 1 False have "hd (itoa (n div 10)) \<noteq> CHR ''0''" by blast
    with False show ?thesis by (simp add: itoa_step)
  qed
qed

text \<open>
  Decimal numerals without a superfluous leading zero are exactly the renderings: this is
  why an address that Go accepts is already in the form Go prints.
\<close>

lemma itoa_digits_val:
  assumes "s \<noteq> []" "\<forall>c \<in> set s. is_digit c" "length s = 1 \<or> hd s \<noteq> CHR ''0''"
  shows "itoa (digits_val s 0) = s"
  using assms
proof (induction s rule: rev_induct)
  case (snoc c s)
  have c: "is_digit c" using snoc.prems by simp
  note cv = digit_char_eq [OF c]
  show ?case
  proof (cases "s = []")
    case True
    then show ?thesis using cv by (simp add: itoa_small)
  next
    case False
    then have hd: "hd s \<noteq> CHR ''0''" using snoc.prems by simp
    then have IH: "itoa (digits_val s 0) = s" using snoc False by simp
    have "digits_val s 0 \<noteq> 0"
    proof
      assume "digits_val s 0 = 0"
      with IH have "s = ''0''" by (simp add: itoa_small)
      with hd show False by simp
    qed
    then have "10 \<le> digits_val s 0 * 10 + digit_val c" by simp
    then have "itoa (digits_val s 0 * 10 + digit_val c)
        = itoa (digits_val s 0) @ [hexDigits ! digit_val c]"
      using cv(2) by (subst itoa_step) auto
    then show ?thesis using IH cv(1) by simp
  qed
qed simp

lemma itoa_length_le: "n < 10 ^ k \<Longrightarrow> 0 < k \<Longrightarrow> length (itoa n) \<le> k"
proof (induction k arbitrary: n)
  case (Suc k)
  show ?case
  proof (cases "n < 10")
    case False
    then have "0 < k" using Suc.prems by (cases k) auto
    moreover have "n div 10 < 10 ^ k" using Suc.prems by (simp add: less_mult_imp_div_less)
    ultimately show ?thesis using Suc.IH False by (simp add: itoa_step)
  qed (simp add: itoa_small)
qed simp

lemma itoa_byte_length: "length (itoa (unat (b :: 8 word))) \<le> 3"
proof -
  have "unat b < 256" using unsigned_less [of b, where 'a = nat] by simp
  then have "unat b < 10 ^ 3" by simp
  then show ?thesis by (rule itoa_length_le) simp
qed

section \<open>Lemmas on lists\<close>

lemma takeWhile_dropWhile_append:
  assumes "\<forall>c \<in> set xs. P c" "ys = [] \<or> \<not> P (hd ys)"
  shows "takeWhile P (xs @ ys) = xs" and "dropWhile P (xs @ ys) = ys"
  using assms by (cases ys; simp add: takeWhile_append dropWhile_append)+

lemma length_4E:
  assumes "length xs = 4"
  obtains a b c d where "xs = [a, b, c, d]"
  using assms by (auto simp: numeral_eq_Suc length_Suc_conv)

lemma set_key_insert [simp]: "set (key_insert k m) = insert k (set m)"
  by (auto simp: key_insert_def)

lemma distinct_key_insert [simp]: "distinct (key_insert k m) = distinct m"
  by (simp add: key_insert_def)

lemma key_insert_fresh: "k \<notin> set m \<Longrightarrow> key_insert k m = m @ [k]"
  by (simp add: key_insert_def)

lemma filter_all_True: "(\<And>x. x \<in> set xs \<Longrightarrow> P x) \<Longrightarrow> filter P xs = xs"
  by (induction xs) auto

end
