(* ===== verification/Go_Effects.thy ===== *)
theory Go_Effects
  imports Silk_Prelude
begin

text \<open>
  Sequencing of fallible operations on a world \<open>'w\<close>, for code of the form
  \<^verbatim>\<open>x, err := f(); if err != nil { return fmt.Errorf("msg: %s", err) }\<close>.  An operation is a function
  \<open>'w \<Rightarrow> 'a result \<times> 'w\<close>; an operation that only returns an \<^verbatim>\<open>error\<close> has the result type \<open>unit\<close>.
\<close>

type_synonym ('w, 'a) op = "'w \<Rightarrow> 'a result \<times> 'w"

text \<open>\<^verbatim>\<open>fmt.Errorf("msg%s", err)\<close> and \<^verbatim>\<open>return err\<close>.\<close>

definition errorf :: "string \<Rightarrow> go_error \<Rightarrow> go_error" where
  "errorf msg e = ErrorString (msg @ Error e)"

definition unchanged :: "go_error \<Rightarrow> go_error" where
  "unchanged e = e"

definition try_do :: "('w, 'a) op \<Rightarrow> (go_error \<Rightarrow> go_error) \<Rightarrow> ('a \<Rightarrow> ('w, 'b) op) \<Rightarrow> ('w, 'b) op" where
  "try_do f h k w = (case f w of (Inl e, w) \<Rightarrow> (Inl (h e), w) | (Inr x, w) \<Rightarrow> k x w)"

definition ret :: "'a \<Rightarrow> ('w, 'a) op" where
  "ret x w = (Inr x, w)"

definition fail :: "go_error \<Rightarrow> ('w, 'a) op" where
  "fail e w = (Inl e, w)"

text \<open>A computation that does not touch the world.\<close>

definition pure :: "'a result \<Rightarrow> ('w, 'a) op" where
  "pure r w = (r, w)"

text \<open>\<^verbatim>\<open>for _, x := range xs { if err := f(x); err != nil { return ... } }\<close>\<close>

fun for_each :: "'a list \<Rightarrow> ('a \<Rightarrow> ('w, unit) op) \<Rightarrow> ('w, unit) op" where
  "for_each [] f = ret ()"
| "for_each (x # xs) f = try_do (f x) unchanged (\<lambda>_. for_each xs f)"

text \<open>The error of an operation that returns nothing else.\<close>

definition err_of :: "unit result \<Rightarrow> go_error option" where
  "err_of r = (case r of Inl e \<Rightarrow> Some e | Inr _ \<Rightarrow> None)"

definition of_err :: "go_error option \<Rightarrow> unit result" where
  "of_err e = (case e of Some e \<Rightarrow> Inl e | None \<Rightarrow> Inr ())"

text \<open>
  Operations that may also panic, with the result \<open>None\<close>, and with any type of errors.  A panic ends the
  sequence.
\<close>

type_synonym ('w, 'e, 'a) pop = "'w \<Rightarrow> ('e + 'a) option \<times> 'w"

definition total :: "('w, 'a) op \<Rightarrow> ('w, go_error, 'a) pop" where
  "total f w = (case f w of (r, w) \<Rightarrow> (Some r, w))"

definition then_do :: "('w, 'e, 'a) pop \<Rightarrow> ('e \<Rightarrow> 'f) \<Rightarrow> ('a \<Rightarrow> ('w, 'f, 'b) pop) \<Rightarrow> ('w, 'f, 'b) pop" where
  "then_do f h k w =
     (case f w of (None, w) \<Rightarrow> (None, w) | (Some (Inl e), w) \<Rightarrow> (Some (Inl (h e)), w) | (Some (Inr x), w) \<Rightarrow> k x w)"

lemma try_do_cases:
  "try_do f h k w = (r, w') \<longleftrightarrow>
     (\<exists>e. f w = (Inl e, w') \<and> r = Inl (h e)) \<or> (\<exists>x w1. f w = (Inr x, w1) \<and> k x w1 = (r, w'))"
  by (auto simp: try_do_def split: prod.splits sum.splits)

lemma try_do_Inr:
  "try_do f h k w = (Inr y, w') \<longleftrightarrow> (\<exists>x w1. f w = (Inr x, w1) \<and> k x w1 = (Inr y, w'))"
  by (auto simp: try_do_cases)

lemma try_do_ok [simp]: "f w = (Inr x, w1) \<Longrightarrow> try_do f h k w = k x w1"
  by (simp add: try_do_def)

lemma try_do_err [simp]: "f w = (Inl e, w1) \<Longrightarrow> try_do f h k w = (Inl (h e), w1)"
  by (simp add: try_do_def)

lemma total_eq [simp]: "total f w = (Some r, w') \<longleftrightarrow> f w = (r, w')" "total f w \<noteq> (None, w')"
  by (auto simp: total_def split: prod.splits)

lemma then_do_Inr:
  "then_do f h k w = (Some (Inr y), w') \<longleftrightarrow> (\<exists>x w1. f w = (Some (Inr x), w1) \<and> k x w1 = (Some (Inr y), w'))"
  by (auto simp: then_do_def split: prod.splits option.splits sum.splits)

lemma then_do_ok [simp]: "f w = (Some (Inr x), w1) \<Longrightarrow> then_do f h k w = k x w1"
  by (simp add: then_do_def)

lemma then_do_err [simp]: "f w = (Some (Inl e), w1) \<Longrightarrow> then_do f h k w = (Some (Inl (h e)), w1)"
  by (simp add: then_do_def)

lemma then_do_panic [simp]: "f w = (None, w1) \<Longrightarrow> then_do f h k w = (None, w1)"
  by (simp add: then_do_def)

lemma effect_simps [simp]:
  "ret x w = (Inr x, w)" "fail e w = (Inl e, w)" "pure r w = (r, w)" "unchanged e = e"
  by (simp_all add: ret_def fail_def pure_def unchanged_def)

lemma of_err_simps [simp]: "of_err None = Inr ()" "of_err (Some e) = Inl e"
  by (simp_all add: of_err_def)

lemma err_of_simps [simp]: "err_of (Inr u) = None" "err_of (Inl e) = Some e"
  by (simp_all add: err_of_def)

text \<open>Rule for invariants of a sequence and of a loop.\<close>

lemma try_do_preserves:
  assumes "try_do f h k w = (r, w')" "I w"
    and "\<And>r w'. f w = (r, w') \<Longrightarrow> I w'" "\<And>x w1 r w'. I w1 \<Longrightarrow> k x w1 = (r, w') \<Longrightarrow> I w'"
  shows "I w'"
  using assms by (auto simp: try_do_cases)

lemma for_each_preserves:
  assumes "for_each xs f w = (r, w')" "I w"
    and "\<And>x w r w'. x \<in> set xs \<Longrightarrow> I w \<Longrightarrow> f x w = (r, w') \<Longrightarrow> I w'"
  shows "I w'"
  using assms
proof (induction xs arbitrary: w)
  case (Cons x xs)
  from Cons.prems(1) consider e where "f x w = (Inl e, w')" | w1 where "f x w = (Inr (), w1)" "for_each xs f w1 = (r, w')"
    by (auto simp: try_do_cases)
  then show ?case
  proof cases
    case 1
    with Cons.prems(2,3) show ?thesis by (meson list.set_intros(1))
  next
    case 2
    with Cons.prems(2,3) have "I w1" by (meson list.set_intros(1))
    from Cons.IH [OF 2(2) this] Cons.prems(3) show ?thesis by (meson list.set_intros(2))
  qed
qed simp

lemma for_each_append:
  "for_each (xs @ ys) f w = try_do (for_each xs f) unchanged (\<lambda>_. for_each ys f) w"
proof (induction xs arbitrary: w)
  case Nil
  then show ?case by (simp add: try_do_def)
next
  case (Cons x xs)
  show ?case
    by (cases "f x w") (auto simp: try_do_def Cons split: sum.splits prod.splits)
qed

end
