(* ===== verification/Go_Net.thy ===== *)
theory Go_Net
  imports Silk_Prelude
begin

text \<open>
  The part of Go's \<^verbatim>\<open>net\<close> package (Go 1.20, the version of \<^verbatim>\<open>go.mod\<close>) that the program
  calls: addresses, masks, networks and hardware addresses, their textual forms and the
  parsers.  The definitions follow the package branch by branch: \<open>dtoi\<close>, \<open>xtoi\<close>,
  \<open>parseIPv4\<close>, \<open>parseIPv6\<close>, \<open>ParseIP\<close>, \<open>ParseCIDR\<close>, \<open>ParseMAC\<close>, \<open>CIDRMask\<close>,
  \<open>To4\<close>, \<open>Mask\<close>, \<open>Contains\<close> and the \<open>String\<close> methods.

  The lemmas: an IPv4 text is accepted exactly when it is the rendering of its value
  (\<open>parseIPv4_dotted\<close>, \<open>parseIPv4_sound\<close>), the CIDR and MAC round trips, and the reading of
  \<open>Contains\<close> as agreement on the leading bits of a 32-bit address.
\<close>

section \<open>Addresses and masks\<close>

type_synonym byte = "8 word"

text \<open>\<^verbatim>\<open>net.IP\<close>, \<^verbatim>\<open>net.IPMask\<close> and \<^verbatim>\<open>net.HardwareAddr\<close> are byte slices; \<^verbatim>\<open>nil\<close> is \<open>[]\<close>.\<close>

type_synonym IP = "byte list"
type_synonym IPMask = "byte list"
type_synonym HardwareAddr = "byte list"

record IPNet =
  IPNet_IP :: IP
  IPNet_Mask :: IPMask

definition v4InV6Prefix :: "byte list" where
  "v4InV6Prefix = [0, 0, 0, 0, 0, 0, 0, 0, 0, 0, 255, 255]"

definition IPv4 :: "byte \<Rightarrow> byte \<Rightarrow> byte \<Rightarrow> byte \<Rightarrow> IP" where
  "IPv4 a b c d = v4InV6Prefix @ [a, b, c, d]"

definition To4 :: "IP \<Rightarrow> IP" where
  "To4 ip =
     (if length ip = 4 then ip
      else if length ip = 16 \<and> take 12 ip = v4InV6Prefix then drop 12 ip
      else [])"

fun CIDRMask_bytes :: "nat \<Rightarrow> nat \<Rightarrow> IPMask" where
  "CIDRMask_bytes 0 n = []"
| "CIDRMask_bytes (Suc l) n =
     (if n \<ge> 8 then 255 # CIDRMask_bytes l (n - 8)
      else NOT (drop_bit n 255) # CIDRMask_bytes l 0)"

definition CIDRMask :: "int \<Rightarrow> nat \<Rightarrow> IPMask" where
  "CIDRMask ones bits =
     (if bits \<noteq> 32 \<and> bits \<noteq> 128 then []
      else if ones < 0 \<or> ones > int bits then []
      else CIDRMask_bytes (bits div 8) (nat ones))"

definition IP_Mask :: "IP \<Rightarrow> IPMask \<Rightarrow> IP" where
  "IP_Mask ip m =
     (let m = (if length m = 16 \<and> length ip = 4 \<and> take 12 m = replicate 12 255 then drop 12 m else m);
          ip = (if length m = 4 \<and> length ip = 16 \<and> take 12 ip = v4InV6Prefix then drop 12 ip else ip)
      in if length ip \<noteq> length m then [] else map2 (AND) ip m)"

text \<open>\<open>leading_ones\<close> counts the leading one bits of a byte that is not \<^verbatim>\<open>0xff\<close>.\<close>

fun leading_ones :: "nat \<Rightarrow> byte \<Rightarrow> nat \<times> byte" where
  "leading_ones 0 v = (0, v)"
| "leading_ones (Suc k) v =
     (if v AND 128 \<noteq> 0 then (case leading_ones k (push_bit 1 v) of (n, v') \<Rightarrow> (Suc n, v'))
      else (0, v))"

fun simpleMaskLength :: "IPMask \<Rightarrow> nat option" where
  "simpleMaskLength [] = Some 0"
| "simpleMaskLength (v # m) =
     (if v = 255 then map_option ((+) 8) (simpleMaskLength m)
      else (case leading_ones 8 v of (n, v') \<Rightarrow>
        if v' \<noteq> 0 \<or> (\<exists>w \<in> set m. w \<noteq> 0) then None else Some n))"

definition Mask_Size :: "IPMask \<Rightarrow> nat \<times> nat" where
  "Mask_Size m = (case simpleMaskLength m of None \<Rightarrow> (0, 0) | Some n \<Rightarrow> (n, 8 * length m))"

definition networkNumberAndMask :: "IPNet \<Rightarrow> IP \<times> IPMask" where
  "networkNumberAndMask n =
     (let ip = (if To4 (IPNet_IP n) \<noteq> [] then To4 (IPNet_IP n) else IPNet_IP n);
          m = IPNet_Mask n
      in if length ip \<noteq> 4 \<and> length ip \<noteq> 16 then ([], [])
         else if length m = 4 then (if length ip \<noteq> 4 then ([], []) else (ip, m))
         else if length m = 16 then (if length ip = 4 then (ip, drop 12 m) else (ip, m))
         else ([], []))"

definition Contains :: "IPNet \<Rightarrow> IP \<Rightarrow> bool" where
  "Contains n ip =
     (case networkNumberAndMask n of (nn, m) \<Rightarrow>
        let ip = (if To4 ip \<noteq> [] then To4 ip else ip)
        in length ip = length nn \<and> map2 (AND) nn m = map2 (AND) ip m)"

section \<open>Texts\<close>

fun join :: "string \<Rightarrow> string list \<Rightarrow> string" where
  "join sep [] = []"
| "join sep [x] = x"
| "join sep (x # y # xs) = x @ sep @ join sep (y # xs)"

fun sprintf_x :: "nat \<Rightarrow> string" where
  "sprintf_x n = (if n < 16 then [hexDigits ! n] else sprintf_x (n div 16) @ [hexDigits ! (n mod 16)])"

declare sprintf_x.simps [simp del]

definition hexString :: "byte list \<Rightarrow> string" where
  "hexString b = concat (map sprintf_02x b)"

definition dotted :: "byte list \<Rightarrow> string" where
  "dotted p = join ''.'' (map (\<lambda>b. itoa (unat b)) p)"

fun groups16 :: "byte list \<Rightarrow> nat list" where
  "groups16 (a # b # r) = (256 * unat a + unat b) # groups16 r"
| "groups16 _ = []"

text \<open>The longest run of at least two zero groups, the leftmost one on a tie.\<close>

definition zero_run :: "nat list \<Rightarrow> (nat \<times> nat) option" where
  "zero_run g =
     foldl (\<lambda>best i.
        let l = length (takeWhile (\<lambda>x. x = 0) (drop i g)) in
        if l \<ge> 2 \<and> l > (case best of None \<Rightarrow> 0 | Some (zs, ze) \<Rightarrow> ze - zs) then Some (i, i + l) else best)
      None [0..<8]"

definition ip6_text :: "IP \<Rightarrow> string" where
  "ip6_text ip =
     (let g = groups16 ip in
      case zero_run g of
        None \<Rightarrow> join '':'' (map sprintf_x g)
      | Some (zs, ze) \<Rightarrow>
          join '':'' (map sprintf_x (take zs g)) @ ''::'' @ join '':'' (map sprintf_x (drop ze g)))"

definition IP_String :: "IP \<Rightarrow> string" where
  "IP_String ip =
     (if ip = [] then ''<nil>''
      else if length ip \<noteq> 4 \<and> length ip \<noteq> 16 then ''?'' @ hexString ip
      else if To4 ip \<noteq> [] then dotted (To4 ip)
      else ip6_text ip)"

definition Mask_String :: "IPMask \<Rightarrow> string" where
  "Mask_String m = (if m = [] then ''<nil>'' else hexString m)"

definition IPNet_String :: "IPNet \<Rightarrow> string" where
  "IPNet_String n =
     (case networkNumberAndMask n of (nn, m) \<Rightarrow>
        if nn = [] \<or> m = [] then ''<nil>''
        else case simpleMaskLength m of
               None \<Rightarrow> IP_String nn @ ''/'' @ Mask_String m
             | Some l \<Rightarrow> IP_String nn @ ''/'' @ itoa l)"

definition HardwareAddr_String :: "HardwareAddr \<Rightarrow> string" where
  "HardwareAddr_String a = join '':'' (map sprintf_02x a)"

section \<open>Parsers\<close>

text \<open>The number parsers return \<^verbatim>\<open>(n, i, ok)\<close>: value, characters consumed, success.\<close>

definition big :: int where
  "big = 0xFFFFFF"

fun dtoi_loop :: "string \<Rightarrow> int \<Rightarrow> nat \<Rightarrow> int \<times> nat \<times> bool" where
  "dtoi_loop [] n i = (if i = 0 then (0, 0, False) else (n, i, True))"
| "dtoi_loop (c # s) n i =
     (if is_digit c then
        let n' = n * 10 + int (digit_val c) in
        if n' \<ge> big then (big, i, False) else dtoi_loop s n' (Suc i)
      else if i = 0 then (0, 0, False) else (n, i, True))"

definition dtoi :: "string \<Rightarrow> int \<times> nat \<times> bool" where
  "dtoi s = dtoi_loop s 0 0"

definition hex_val :: "char \<Rightarrow> nat option" where
  "hex_val c =
     (let v = (of_char c :: nat) in
      if 48 \<le> v \<and> v \<le> 57 then Some (v - 48)
      else if 97 \<le> v \<and> v \<le> 102 then Some (v - 97 + 10)
      else if 65 \<le> v \<and> v \<le> 70 then Some (v - 65 + 10)
      else None)"

fun xtoi_loop :: "string \<Rightarrow> int \<Rightarrow> nat \<Rightarrow> int \<times> nat \<times> bool" where
  "xtoi_loop [] n i = (if i = 0 then (0, i, False) else (n, i, True))"
| "xtoi_loop (c # s) n i =
     (case hex_val c of
        None \<Rightarrow> (if i = 0 then (0, i, False) else (n, i, True))
      | Some d \<Rightarrow>
          let n' = n * 16 + int d in
          if n' \<ge> big then (0, i, False) else xtoi_loop s n' (Suc i))"

definition xtoi :: "string \<Rightarrow> int \<times> nat \<times> bool" where
  "xtoi s = xtoi_loop s 0 0"

definition xtoi2 :: "string \<Rightarrow> char \<Rightarrow> byte option" where
  "xtoi2 s e =
     (if length s > 2 \<and> s ! 2 \<noteq> e then None
      else case xtoi (take 2 s) of (n, ei, ok) \<Rightarrow> if ok \<and> ei = 2 then Some (word_of_int n) else None)"

text \<open>The parsers of addresses; \<open>None\<close> is Go's \<^verbatim>\<open>nil\<close>.\<close>

function parseIPv4_loop :: "nat \<Rightarrow> string \<Rightarrow> byte list \<Rightarrow> IP option" where
  "parseIPv4_loop i s p =
     (if i \<ge> 4 then (if s \<noteq> [] then None else Some (v4InV6Prefix @ p))
      else if s = [] then None
      else if i > 0 \<and> hd s \<noteq> CHR ''.'' then None
      else
        let s = (if i > 0 then tl s else s) in
        case dtoi s of (n, c, ok) \<Rightarrow>
          if \<not> ok \<or> n > 255 then None
          else if c > 1 \<and> hd s = CHR ''0'' then None
          else parseIPv4_loop (Suc i) (drop c s) (p @ [word_of_int n]))"
  by pat_completeness auto
termination
  by (relation "measure (\<lambda>(i, s, p). 4 - i)") auto

declare parseIPv4_loop.simps [simp del]

definition parseIPv4 :: "string \<Rightarrow> IP option" where
  "parseIPv4 s = parseIPv4_loop 0 s []"

function parseIPv6_loop ::
  "nat \<Rightarrow> nat option \<Rightarrow> byte list \<Rightarrow> string \<Rightarrow> (nat \<times> nat option \<times> byte list \<times> string) option" where
  "parseIPv6_loop i ellipsis ip s =
     (if i \<ge> 16 then Some (i, ellipsis, ip, s)
      else case xtoi s of (n, c, ok) \<Rightarrow>
        if \<not> ok \<or> n > 0xFFFF then None
        else if c < length s \<and> s ! c = CHR ''.'' then
          (if ellipsis = None \<and> i \<noteq> 12 then None
           else if i + 4 > 16 then None
           else case parseIPv4 s of
                  None \<Rightarrow> None
                | Some ip4 \<Rightarrow>
                    Some (i + 4, ellipsis,
                      ip[i := ip4 ! 12, i + 1 := ip4 ! 13, i + 2 := ip4 ! 14, i + 3 := ip4 ! 15], []))
        else
          let ip = ip[i := word_of_int (n div 256), i + 1 := word_of_int n]; s = drop c s in
          if s = [] then Some (i + 2, ellipsis, ip, s)
          else if hd s \<noteq> CHR '':'' \<or> length s = 1 then None
          else
            let s = tl s in
            if hd s = CHR '':'' then
              (if ellipsis \<noteq> None then None
               else if tl s = [] then Some (i + 2, Some (i + 2), ip, [])
               else parseIPv6_loop (i + 2) (Some (i + 2)) ip (tl s))
            else parseIPv6_loop (i + 2) ellipsis ip s)"
  by pat_completeness auto
termination
  by (relation "measure (\<lambda>(i, e, ip, s). 16 - i)") auto

declare parseIPv6_loop.simps [simp del]

definition parseIPv6 :: "string \<Rightarrow> IP option" where
  "parseIPv6 s =
     (let lead = (length s \<ge> 2 \<and> s ! 0 = CHR '':'' \<and> s ! 1 = CHR '':'');
          ellipsis = (if lead then Some 0 else None);
          s = (if lead then drop 2 s else s);
          zero = replicate 16 0
      in if lead \<and> s = [] then Some zero
         else case parseIPv6_loop 0 ellipsis zero s of
                None \<Rightarrow> None
              | Some (i, ellipsis, ip, s) \<Rightarrow>
                  if s \<noteq> [] then None
                  else if i < 16 then
                    (case ellipsis of
                       None \<Rightarrow> None
                     | Some e \<Rightarrow> Some (take e ip @ replicate (16 - i) 0 @ drop e (take i ip)))
                  else if ellipsis \<noteq> None then None
                  else Some ip)"

fun ParseIP_scan :: "string \<Rightarrow> string \<Rightarrow> IP option" where
  "ParseIP_scan s [] = None"
| "ParseIP_scan s (c # cs) =
     (if c = CHR ''.'' then parseIPv4 s
      else if c = CHR '':'' then parseIPv6 s
      else ParseIP_scan s cs)"

definition ParseIP :: "string \<Rightarrow> IP option" where
  "ParseIP s = ParseIP_scan s s"

definition ParseCIDR :: "string \<Rightarrow> (IP \<times> IPNet) result" where
  "ParseCIDR s =
     (let bad = Inl (ErrorString (''invalid CIDR address: '' @ s)) in
      if CHR ''/'' \<notin> set s then bad
      else
        let addr = takeWhile (\<lambda>c. c \<noteq> CHR ''/'') s;
            mask = tl (dropWhile (\<lambda>c. c \<noteq> CHR ''/'') s);
            (iplen, ip) = (case parseIPv4 addr of Some ip \<Rightarrow> (4, Some ip) | None \<Rightarrow> (16, parseIPv6 addr))
        in case (dtoi mask, ip) of
             ((n, i, ok), Some ip) \<Rightarrow>
               if \<not> ok \<or> i \<noteq> length mask \<or> n < 0 \<or> n > 8 * int iplen then bad
               else let m = CIDRMask n (8 * iplen)
                    in Inr (ip, \<lparr>IPNet_IP = IP_Mask ip m, IPNet_Mask = m\<rparr>)
           | (_, None) \<Rightarrow> bad)"

fun ParseMAC_colon :: "nat \<Rightarrow> char \<Rightarrow> string \<Rightarrow> HardwareAddr option" where
  "ParseMAC_colon 0 e s = Some []"
| "ParseMAC_colon (Suc n) e s =
     (case xtoi2 s e of
        None \<Rightarrow> None
      | Some b \<Rightarrow> map_option ((#) b) (ParseMAC_colon n e (drop 3 s)))"

fun ParseMAC_dot :: "nat \<Rightarrow> string \<Rightarrow> HardwareAddr option" where
  "ParseMAC_dot 0 s = Some []"
| "ParseMAC_dot (Suc n) s =
     (case (xtoi2 (take 2 s) CHR 0x00, xtoi2 (drop 2 s) CHR ''.'') of
        (Some a, Some b) \<Rightarrow> map_option (\<lambda>r. a # b # r) (ParseMAC_dot n (drop 5 s))
      | _ \<Rightarrow> None)"

definition ParseMAC :: "string \<Rightarrow> HardwareAddr result" where
  "ParseMAC s =
     (let bad = Inl (ErrorString (''address '' @ s @ '': invalid MAC address''));
          back = (\<lambda>r. case r of None \<Rightarrow> bad | Some hw \<Rightarrow> Inr hw)
      in if length s < 14 then bad
         else if s ! 2 = CHR '':'' \<or> s ! 2 = CHR ''-'' then
           (if (length s + 1) mod 3 \<noteq> 0 then bad
            else let n = (length s + 1) div 3 in
              if n \<noteq> 6 \<and> n \<noteq> 8 \<and> n \<noteq> 20 then bad
              else back (ParseMAC_colon n (s ! 2) s))
         else if s ! 4 = CHR ''.'' then
           (if (length s + 1) mod 5 \<noteq> 0 then bad
            else let n = 2 * (length s + 1) div 5 in
              if n \<noteq> 6 \<and> n \<noteq> 8 \<and> n \<noteq> 20 then bad
              else back (ParseMAC_dot (n div 2) s))
         else bad)"

section \<open>IPv4 addresses as 32-bit words\<close>

text \<open>The four bytes of a word, most significant first, and back.\<close>

definition bytes32 :: "32 word \<Rightarrow> byte list" where
  "bytes32 w = [ucast (drop_bit 24 w), ucast (drop_bit 16 w), ucast (drop_bit 8 w), ucast w]"

definition word32 :: "byte list \<Rightarrow> 32 word" where
  "word32 p = push_bit 24 (ucast (p ! 0)) OR push_bit 16 (ucast (p ! 1))
     OR push_bit 8 (ucast (p ! 2)) OR ucast (p ! 3)"

text \<open>The word with \<open>n\<close> leading ones.\<close>

definition mask32 :: "nat \<Rightarrow> 32 word" where
  "mask32 n = push_bit (32 - n) (mask n)"

text \<open>The text \<^verbatim>\<open>a.b.c.d/n\<close> of an address and a prefix length, and the network it denotes.\<close>

definition cidr_text :: "32 word \<Rightarrow> nat \<Rightarrow> string" where
  "cidr_text w n = dotted (bytes32 w) @ ''/'' @ itoa n"

definition cidr_net :: "32 word \<Rightarrow> nat \<Rightarrow> IPNet" where
  "cidr_net w n = \<lparr>IPNet_IP = bytes32 (w AND mask32 n), IPNet_Mask = CIDRMask (int n) 32\<rparr>"

section \<open>Lemmas on the number parsers\<close>

lemma dtoi_loop_append:
  assumes "\<forall>c \<in> set d. is_digit c" "int (digits_val d n) < big" "r = [] \<or> \<not> is_digit (hd r)" "d \<noteq> [] \<or> 0 < i"
  shows "dtoi_loop (d @ r) (int n) i = (int (digits_val d n), i + length d, True)"
  using assms
proof (induction d arbitrary: n i)
  case Nil
  then show ?case by (cases r) auto
next
  case (Cons c d)
  have "n * 10 + digit_val c \<le> digits_val d (n * 10 + digit_val c)"
    by (rule digits_val_mono)
  with Cons.prems(2) have "int (n * 10 + digit_val c) < big" by simp
  with Cons.prems Cons.IH [of "n * 10 + digit_val c" "Suc i"] show ?case
    by (simp add: Let_def)
qed

lemma dtoi_itoa [go_text]:
  assumes "int n < big" "r = [] \<or> \<not> is_digit (hd r)"
  shows "dtoi (itoa n @ r) = (int n, length (itoa n), True)"
  using dtoi_loop_append [of "itoa n" 0 r 0] assms
  by (simp add: dtoi_def digits_val_itoa itoa_digits)

lemma dtoi_loop_sound:
  assumes "dtoi_loop s (int n) i = (n', c, True)"
  shows "\<exists>d r. s = d @ r \<and> c = i + length d \<and> 0 < c \<and> (\<forall>x \<in> set d. is_digit x) \<and> n' = int (digits_val d n)"
  using assms
proof (induction s arbitrary: n i)
  case Nil
  then show ?case by (auto split: if_splits)
next
  case (Cons x s)
  show ?case
  proof (cases "is_digit x")
    case True
    with Cons.prems have "dtoi_loop s (int (n * 10 + digit_val x)) (Suc i) = (n', c, True)"
      by (auto simp: Let_def split: if_splits)
    from Cons.IH [OF this] obtain d r where "s = d @ r" "c = Suc i + length d"
      "\<forall>x \<in> set d. is_digit x" "n' = int (digits_val d (n * 10 + digit_val x))" by blast
    with True show ?thesis by (intro exI [of _ "x # d"] exI [of _ r]) auto
  next
    case False
    with Cons.prems show ?thesis
      by (intro exI [of _ "[]"] exI [of _ "x # s"]) (auto split: if_splits)
  qed
qed

lemma dtoi_sound:
  assumes "dtoi s = (n, c, True)"
  obtains d r where "s = d @ r" "c = length d" "d \<noteq> []" "\<forall>x \<in> set d. is_digit x" "n = int (digits_val d 0)"
  using dtoi_loop_sound [of s 0 0 n c] assms by (auto simp: dtoi_def)

lemma hex_val_digit [go_text]:
  assumes "d < 16" shows "hex_val (hexDigits ! d) = Some d"
proof -
  have "\<forall>d \<in> set [0..<16]. hex_val (hexDigits ! d) = Some d" by code_simp
  with assms show ?thesis by simp
qed

lemma xtoi2_byte [go_text]:
  assumes "r = [] \<or> hd r = e"
  shows "xtoi2 (sprintf_02x b @ r) e = Some b"
proof -
  have b: "unat b < 256" using unsigned_less [of b, where 'a = nat] by simp
  have 1: "unat b div 16 < 16" using b by (simp add: less_mult_imp_div_less)
  have 2: "unat b mod 16 < 16" by simp
  have "unat b div 16 * 16 + unat b mod 16 = unat b" by simp
  then have "int (unat b div 16) * 16 + int (unat b mod 16) = int (unat b)"
    by (metis of_nat_add of_nat_mult of_nat_numeral)
  then have "xtoi (sprintf_02x b) = (int (unat b), 2, True)"
    using b 1 2 by (simp add: xtoi_def sprintf_02x_def hex_val_digit Let_def big_def)
  moreover have "take 2 (sprintf_02x b @ r) = sprintf_02x b" by (simp add: sprintf_02x_def)
  moreover have "length (sprintf_02x b @ r) > 2 \<Longrightarrow> (sprintf_02x b @ r) ! 2 = e"
    using assms by (cases r) (auto simp: sprintf_02x_def)
  ultimately show ?thesis by (auto simp: xtoi2_def)
qed

section \<open>Lemmas on IPv4 texts\<close>

lemma parseIPv4_loop_step:
  assumes "i < 4" "r = [] \<or> \<not> is_digit (hd r)"
  shows "parseIPv4_loop i ((if i > 0 then ''.'' else []) @ itoa (unat b) @ r) p
       = parseIPv4_loop (Suc i) r (p @ [b])"
proof -
  have b: "unat b < 256" using unsigned_less [of b, where 'a = nat] by simp
  have d: "dtoi (itoa (unat b) @ r) = (int (unat b), length (itoa (unat b)), True)"
  proof (rule dtoi_itoa)
    show "int (unat b) < big" using b unfolding big_def by linarith
  qed (rule assms(2))
  have z: "\<not> (1 < length (itoa (unat b)) \<and> hd (itoa (unat b)) = CHR ''0'')"
    using itoa_hd [of "unat b"] by (cases "unat b = 0") (auto simp: itoa_small)
  show ?thesis
    using assms(1) unsigned_less [of b, where 'a = int] d z
    by (subst parseIPv4_loop.simps) (auto simp: Let_def)
qed

lemma parseIPv4_loop_sound:
  assumes "parseIPv4_loop i s p = Some ip" "i < 4"
  obtains b r where "s = (if i > 0 then ''.'' else []) @ itoa (unat b) @ r"
    "parseIPv4_loop (Suc i) r (p @ [b]) = Some ip"
proof -
  define t where "t = (if i > 0 then tl s else s)"
  obtain n c ok where d: "dtoi t = (n, c, ok)" by (metis prod_cases3)
  note unf = assms(1) [unfolded parseIPv4_loop.simps [of i s p]]
  have ne: "s \<noteq> []" using unf assms(2) by (cases "s = []") simp_all
  have dot: "hd s = CHR ''.''" if "i > 0"
    using unf assms(2) ne that by (cases "hd s = CHR ''.''") simp_all
  have s: "s = (if i > 0 then ''.'' else []) @ t"
    using ne dot by (cases s) (auto simp: t_def)
  have body: "(if \<not> ok \<or> n > 255 then None else if c > 1 \<and> hd t = CHR ''0'' then None
      else parseIPv4_loop (Suc i) (drop c t) (p @ [word_of_int n])) = Some ip"
    using unf assms(2) ne dot d
    by (cases "i > 0") (simp_all add: Let_def t_def split del: if_split cong: if_cong)
  then have ok: "ok" "n \<le> 255" "\<not> (c > 1 \<and> hd t = CHR ''0'')"
    and rec: "parseIPv4_loop (Suc i) (drop c t) (p @ [word_of_int n]) = Some ip"
    by (simp_all split: if_splits)
  from d ok(1) have "dtoi t = (n, c, True)" by simp
  then obtain u r where u: "t = u @ r" "c = length u" "u \<noteq> []"
    "\<forall>x \<in> set u. is_digit x" "n = int (digits_val u 0)" by (rule dtoi_sound)
  have "length u = 1 \<or> hd u \<noteq> CHR ''0''"
    using ok(3) u by (cases u) auto
  then have "itoa (nat n) = u" using u(3-5) by (simp add: itoa_digits_val)
  moreover have "unat (word_of_int n :: byte) = nat n"
    using ok(2) u(5) by (simp add: unat_of_nat take_bit_nat_eq_self)
  moreover have "drop c t = r" using u(1,2) by simp
  ultimately show ?thesis using that [of "word_of_int n" r] s u(1) rec by simp
qed

lemma dotted_4 [go_text]:
  "dotted [a, b, c, d]
   = itoa (unat a) @ ''.'' @ itoa (unat b) @ ''.'' @ itoa (unat c) @ ''.'' @ itoa (unat d)"
  by (simp add: dotted_def)

lemma parseIPv4_dotted [go_text]:
  assumes "length p = 4"
  shows "parseIPv4 (dotted p) = Some (v4InV6Prefix @ p)"
proof -
  obtain a b c d where p: "p = [a, b, c, d]" using assms by (rule length_4E)
  have end4: "parseIPv4_loop (Suc (Suc (Suc (Suc 0)))) [] q = Some (v4InV6Prefix @ q)" for q
    by (subst parseIPv4_loop.simps) simp
  show ?thesis unfolding parseIPv4_def p dotted_4
    using parseIPv4_loop_step [of 0 "''.'' @ itoa (unat b) @ ''.'' @ itoa (unat c) @ ''.'' @ itoa (unat d)" a "[]"]
      parseIPv4_loop_step [of "Suc 0" "''.'' @ itoa (unat c) @ ''.'' @ itoa (unat d)" b "[a]"]
      parseIPv4_loop_step [of "Suc (Suc 0)" "''.'' @ itoa (unat d)" c "[a, b]"]
      parseIPv4_loop_step [of "Suc (Suc (Suc 0))" "[]" d "[a, b, c]"] end4
    by (simp add: not_digit)
qed

lemma parseIPv4_sound:
  assumes "parseIPv4 s = Some ip"
  obtains p where "length p = 4" "ip = v4InV6Prefix @ p" "s = dotted p"
proof -
  from assms have "parseIPv4_loop 0 s [] = Some ip" by (simp add: parseIPv4_def)
  then obtain a r1 where 1: "s = itoa (unat a) @ r1" "parseIPv4_loop (Suc 0) r1 [a] = Some ip"
    by (rule parseIPv4_loop_sound) auto
  from 1(2) obtain b r2 where 2: "r1 = ''.'' @ itoa (unat b) @ r2"
    "parseIPv4_loop (Suc (Suc 0)) r2 [a, b] = Some ip"
    by (rule parseIPv4_loop_sound) auto
  from 2(2) obtain c r3 where 3: "r2 = ''.'' @ itoa (unat c) @ r3"
    "parseIPv4_loop (Suc (Suc (Suc 0))) r3 [a, b, c] = Some ip"
    by (rule parseIPv4_loop_sound) auto
  from 3(2) obtain d r4 where 4: "r3 = ''.'' @ itoa (unat d) @ r4"
    "parseIPv4_loop (Suc (Suc (Suc (Suc 0)))) r4 [a, b, c, d] = Some ip"
    by (rule parseIPv4_loop_sound) auto
  from 4(2) have "r4 = []" "ip = v4InV6Prefix @ [a, b, c, d]"
    by (subst (asm) parseIPv4_loop.simps, simp split: if_splits)+
  then show ?thesis using 1 2 3 4 that [of "[a, b, c, d]"] by (simp add: dotted_4)
qed

lemma dotted_inj:
  assumes "length p = 4" "length q = 4" "dotted p = dotted q"
  shows "p = q"
  using assms parseIPv4_dotted by (metis option.inject same_append_eq)

lemma join_snoc: "join sep (ys @ [y]) = (if ys = [] then y else join sep ys @ sep @ y)"
  by (induction sep ys rule: join.induct) auto

lemma dotted_chars: "c \<in> set (dotted p) \<Longrightarrow> is_digit c \<or> c = CHR ''.''"
proof (induction p rule: rev_induct)
  case (snoc x xs)
  from snoc show ?case by (auto simp: dotted_def join_snoc split: if_splits dest: itoa_digits)
qed (simp add: dotted_def)

lemma dotted_length: "length p = 4 \<Longrightarrow> length (dotted p) \<le> 15"
proof -
  assume "length p = 4"
  then obtain a b c d where "p = [a, b, c, d]" by (rule length_4E)
  then show ?thesis
    using itoa_byte_length [of a] itoa_byte_length [of b] itoa_byte_length [of c] itoa_byte_length [of d]
    by (simp add: dotted_4)
qed

lemma To4_simps [simp]:
  "length p = 4 \<Longrightarrow> To4 p = p"
  "length p = 4 \<Longrightarrow> To4 (v4InV6Prefix @ p) = p"
  "To4 [] = []"
  by (simp_all add: To4_def v4InV6Prefix_def)

lemma length_v4InV6Prefix [simp]: "length v4InV6Prefix = 12"
  by (simp add: v4InV6Prefix_def)

lemma To4_length: "To4 ip = [] \<or> length (To4 ip) = 4"
  by (simp add: To4_def)

lemma To4_cases:
  assumes "To4 ip \<noteq> []"
  obtains p where "length p = 4" "To4 ip = p" "ip = p \<or> ip = v4InV6Prefix @ p"
proof (cases "length ip = 4")
  case True
  then show ?thesis using that by simp
next
  case False
  with assms have "length ip = 16" "take 12 ip = v4InV6Prefix" "To4 ip = drop 12 ip"
    by (auto simp: To4_def split: if_splits)
  then show ?thesis using that [of "drop 12 ip"] append_take_drop_id [of 12 ip] by simp
qed

lemma IP_String_v4 [go_text]:
  assumes "length p = 4"
  shows "IP_String p = dotted p" and "IP_String (v4InV6Prefix @ p) = dotted p"
  using assms by (auto simp: IP_String_def)

lemma ParseIP_dotted [go_text]:
  assumes "length p = 4"
  shows "ParseIP (dotted p) = Some (v4InV6Prefix @ p)"
proof -
  obtain a b c d where p: "p = [a, b, c, d]" using assms by (rule length_4E)
  have scan: "ParseIP_scan s (ds @ CHR ''.'' # r) = parseIPv4 s" if "\<forall>c \<in> set ds. is_digit c" for s ds r
    using that by (induction ds) (auto simp: not_digit)
  have "ParseIP (dotted p) = parseIPv4 (dotted p)"
    using scan [of "itoa (unat a)" "dotted p" "itoa (unat b) @ ''.'' @ itoa (unat c) @ ''.'' @ itoa (unat d)"]
    by (simp add: ParseIP_def p dotted_4 itoa_digits)
  then show ?thesis using assms by (simp add: parseIPv4_dotted)
qed

lemma length_CIDRMask_bytes [simp]: "length (CIDRMask_bytes l n) = l"
  by (induction l arbitrary: n) auto

lemma CIDRMask_32_length: "0 \<le> n \<Longrightarrow> n \<le> 32 \<Longrightarrow> length (CIDRMask n 32) = 4"
  by (simp add: CIDRMask_def)

lemma all_upto_32: "(\<forall>n \<in> set [0..<33]. P n) \<Longrightarrow> n \<le> 32 \<Longrightarrow> P n"
  by simp

lemma simpleMaskLength_CIDRMask [go_text]:
  assumes "n \<le> 32" shows "simpleMaskLength (CIDRMask (int n) 32) = Some n"
proof -
  have "\<forall>n \<in> set [0..<33]. simpleMaskLength (CIDRMask (int n) 32) = Some n" by code_simp
  then show ?thesis using assms by (rule all_upto_32)
qed

lemma IP_Mask_v4:
  assumes "length p = 4" "length m = 4"
  shows "IP_Mask p m = map2 (AND) p m" and "IP_Mask (v4InV6Prefix @ p) m = map2 (AND) p m"
  using assms by (simp_all add: IP_Mask_def Let_def)

lemma ParseCIDR_dotted [go_text]:
  assumes "length p = 4" "n \<le> 32"
  shows "ParseCIDR (dotted p @ ''/'' @ itoa n)
       = Inr (v4InV6Prefix @ p,
              \<lparr>IPNet_IP = map2 (AND) p (CIDRMask (int n) 32), IPNet_Mask = CIDRMask (int n) 32\<rparr>)"
proof -
  have sl: "\<forall>c \<in> set (dotted p). c \<noteq> CHR ''/''"
    using dotted_chars not_digit by fastforce
  have tw: "takeWhile (\<lambda>c. c \<noteq> CHR ''/'') (dotted p @ ''/'' @ itoa n) = dotted p"
    and dw: "dropWhile (\<lambda>c. c \<noteq> CHR ''/'') (dotted p @ ''/'' @ itoa n) = ''/'' @ itoa n"
    using takeWhile_dropWhile_append [OF sl, of "''/'' @ itoa n"] by simp_all
  have d: "dtoi (itoa n) = (int n, length (itoa n), True)"
    using dtoi_itoa [of n "[]"] assms(2) by (simp add: big_def)
  have m: "length (CIDRMask (int n) 32) = 4" using assms by (simp add: CIDRMask_32_length)
  show ?thesis
    unfolding ParseCIDR_def tw dw
    using assms d m by (simp add: Let_def parseIPv4_dotted IP_Mask_v4)
qed

lemma ParseMAC_colon_bytes:
  "ParseMAC_colon (length hw) CHR '':'' (join '':'' (map sprintf_02x hw)) = Some hw"
proof (induction hw)
  case (Cons b hw)
  show ?case
  proof (cases hw)
    case Nil
    then show ?thesis using xtoi2_byte [of "[]" "CHR '':''" b] by simp
  next
    case (Cons c r)
    have "xtoi2 (sprintf_02x b @ CHR '':'' # join '':'' (map sprintf_02x hw)) CHR '':'' = Some b"
      by (rule xtoi2_byte) simp
    moreover have "drop 3 (sprintf_02x b @ CHR '':'' # t) = t" for t
      by (simp add: sprintf_02x_def)
    ultimately show ?thesis using Cons.IH Cons by simp
  qed
qed simp

lemma length_HardwareAddr_String:
  "length (HardwareAddr_String hw) = 3 * length hw - 1"
proof -
  have "length (join '':'' (map sprintf_02x (hw @ [b]))) = 3 * length hw + 2" for hw b
    by (induction hw rule: rev_induct) (auto simp: join_snoc sprintf_02x_def simp del: append_assoc)
  then have "length (join '':'' (map sprintf_02x hw)) = 3 * length hw - 1"
    by (cases hw rule: rev_cases) simp_all
  then show ?thesis by (simp add: HardwareAddr_String_def)
qed

lemma ParseMAC_String [go_text]:
  assumes "length hw = 6"
  shows "ParseMAC (HardwareAddr_String hw) = Inr hw"
proof -
  obtain b c r where hw: "hw = b # c # r" using assms by (auto simp: numeral_eq_Suc length_Suc_conv)
  then have "HardwareAddr_String hw ! 2 = CHR '':''"
    by (simp add: HardwareAddr_String_def sprintf_02x_def)
  then show ?thesis
    using assms length_HardwareAddr_String [of hw] ParseMAC_colon_bytes [of hw]
    by (simp add: ParseMAC_def HardwareAddr_String_def)
qed

lemma HardwareAddr_String_inj:
  assumes "length a = 6" "length b = 6" "HardwareAddr_String a = HardwareAddr_String b"
  shows "a = b"
  using assms ParseMAC_String by (metis sum.inject(2))

section \<open>Lemmas on 32-bit words\<close>

lemma length_bytes32 [simp]: "length (bytes32 w) = 4"
  by (simp add: bytes32_def)

lemma word32_bytes32 [simp]: "word32 (bytes32 w) = w"
proof (rule bit_word_eqI)
  fix n assume "n < LENGTH(32)"
  then consider "n < 8" | "8 \<le> n" "n < 16" | "16 \<le> n" "n < 24" | "24 \<le> n" "n < 32"
    by fastforce
  then show "bit (word32 (bytes32 w)) n = bit w n"
    by cases (auto simp: word32_def bytes32_def bit_simps)
qed

lemma byte_bit_length: "8 \<le> k \<Longrightarrow> \<not> bit (b :: byte) k"
  using bit_imp_le_length [of b k] by auto

lemma bytes32_word32 [simp]:
  assumes "length p = 4" shows "bytes32 (word32 p) = p"
proof -
  obtain a b c d where p: "p = [a, b, c, d]" using assms by (rule length_4E)
  show ?thesis
    by (auto simp: p bytes32_def word32_def bit_simps byte_bit_length intro!: bit_word_eqI)
qed

lemma bytes32_inj [simp]: "bytes32 v = bytes32 w \<longleftrightarrow> v = w"
  by (metis word32_bytes32)

lemma map2_and_bytes32: "map2 (AND) (bytes32 v) (bytes32 w) = bytes32 (v AND w)"
  by (simp add: bytes32_def) (auto intro!: bit_word_eqI simp: bit_simps)

lemma CIDRMask_bytes32:
  assumes "n \<le> 32" shows "CIDRMask (int n) 32 = bytes32 (mask32 n)"
proof -
  have "\<forall>n \<in> set [0..<33]. CIDRMask (int n) 32 = bytes32 (mask32 n)" by code_simp
  then show ?thesis using assms by (rule all_upto_32)
qed

lemma and_mask32: "w AND mask32 n = push_bit (32 - n) (drop_bit (32 - n) w)" if "n \<le> 32"
proof (rule bit_word_eqI)
  fix k assume "k < LENGTH(32)"
  with that show "bit (w AND mask32 n) k = bit (push_bit (32 - n) (drop_bit (32 - n) w)) k"
    by (auto simp: mask32_def bit_simps)
qed

lemma and_mask32_eq_iff:
  assumes "n \<le> 32"
  shows "v AND mask32 n = w AND mask32 n \<longleftrightarrow> unat v div 2 ^ (32 - n) = unat w div 2 ^ (32 - n)"
proof -
  have "push_bit (32 - n) (drop_bit (32 - n) v) = push_bit (32 - n) (drop_bit (32 - n) w)
      \<longleftrightarrow> drop_bit (32 - n) v = drop_bit (32 - n) w" (is "?p \<longleftrightarrow> ?d")
  proof
    assume p: ?p
    show ?d
    proof (rule bit_word_eqI)
      fix k assume "k < LENGTH(32)"
      show "bit (drop_bit (32 - n) v) k = bit (drop_bit (32 - n) w) k"
        using arg_cong [OF p, of "\<lambda>x. bit x (32 - n + k)"] assms bit_imp_le_length [of v "32 - n + k"]
          bit_imp_le_length [of w "32 - n + k"]
        by (auto simp: bit_simps)
    qed
  qed simp
  also have "\<dots> \<longleftrightarrow> unat (drop_bit (32 - n) v) = unat (drop_bit (32 - n) w)"
    by (rule word_unat_eq_iff)
  also have "\<dots> \<longleftrightarrow> unat v div 2 ^ (32 - n) = unat w div 2 ^ (32 - n)"
    by (simp only: unat_drop_bit_eq) (simp add: drop_bit_eq_div)
  finally show ?thesis using assms by (simp only: and_mask32)
qed

text \<open>
  \<open>Contains\<close> on an IPv4 network with a prefix of \<open>n\<close> bits: the two addresses agree on
  their leading \<open>n\<close> bits.
\<close>

lemma Contains_bytes32:
  assumes "n \<le> 32"
  shows "Contains \<lparr>IPNet_IP = bytes32 v, IPNet_Mask = CIDRMask (int n) 32\<rparr> (bytes32 w)
       \<longleftrightarrow> unat v div 2 ^ (32 - n) = unat w div 2 ^ (32 - n)"
proof -
  have "bytes32 v \<noteq> []" "bytes32 w \<noteq> []" for v w by (simp_all add: bytes32_def)
  then have "Contains \<lparr>IPNet_IP = bytes32 v, IPNet_Mask = CIDRMask (int n) 32\<rparr> (bytes32 w)
      \<longleftrightarrow> v AND mask32 n = w AND mask32 n"
    using assms
    by (simp add: Contains_def networkNumberAndMask_def Let_def CIDRMask_bytes32 map2_and_bytes32)
  then show ?thesis using assms by (simp add: and_mask32_eq_iff)
qed

lemma Contains_To4: "To4 ip = p \<Longrightarrow> p \<noteq> [] \<Longrightarrow> Contains n ip = Contains n p"
  using To4_length [of ip] by (auto simp: Contains_def Let_def)

lemma IPNet_String_v4 [go_text]:
  assumes "length p = 4" "n \<le> 32"
  shows "IPNet_String \<lparr>IPNet_IP = p, IPNet_Mask = CIDRMask (int n) 32\<rparr> = dotted p @ ''/'' @ itoa n"
    and "IPNet_String \<lparr>IPNet_IP = v4InV6Prefix @ p, IPNet_Mask = CIDRMask (int n) 32\<rparr>
       = dotted p @ ''/'' @ itoa n"
proof -
  have "p \<noteq> []" "CIDRMask (int n) 32 \<noteq> []" "length (CIDRMask (int n) 32) = 4"
    using assms CIDRMask_32_length [of "int n"] by auto
  then show "IPNet_String \<lparr>IPNet_IP = p, IPNet_Mask = CIDRMask (int n) 32\<rparr> = dotted p @ ''/'' @ itoa n"
    and "IPNet_String \<lparr>IPNet_IP = v4InV6Prefix @ p, IPNet_Mask = CIDRMask (int n) 32\<rparr>
       = dotted p @ ''/'' @ itoa n"
    using assms
    by (simp_all add: IPNet_String_def networkNumberAndMask_def Let_def simpleMaskLength_CIDRMask IP_String_v4)
qed

text \<open>A CIDR text determines its address and its prefix length.\<close>

lemma cidr_text_inj:
  assumes "length p = 4" "length q = 4" "dotted p @ ''/'' @ itoa m = dotted q @ ''/'' @ itoa n"
  shows "p = q" and "m = n"
proof -
  have sl: "\<forall>c \<in> set (dotted p). c \<noteq> CHR ''/''" for p
    using dotted_chars not_digit by fastforce
  have "dotted p = dotted q"
    using arg_cong [OF assms(3), of "takeWhile (\<lambda>c. c \<noteq> CHR ''/'')"]
      takeWhile_dropWhile_append(1) [OF sl, of "''/'' @ r" for r] by simp
  then show "p = q" and "m = n" using assms dotted_inj by simp_all
qed

lemma ParseCIDR_cidr_text [go_text]:
  "n \<le> 32 \<Longrightarrow> ParseCIDR (cidr_text w n) = Inr (v4InV6Prefix @ bytes32 w, cidr_net w n)"
  using ParseCIDR_dotted [of "bytes32 w" n]
  by (simp add: cidr_text_def cidr_net_def CIDRMask_bytes32 map2_and_bytes32)

lemma IPNet_String_cidr_net [go_text]:
  "n \<le> 32 \<Longrightarrow> IPNet_String (cidr_net w n) = cidr_text (w AND mask32 n) n"
  by (simp add: cidr_net_def cidr_text_def IPNet_String_v4)

lemma cidr_text_eq_iff [simp]: "cidr_text v m = cidr_text w n \<longleftrightarrow> v = w \<and> m = n"
  using cidr_text_inj [of "bytes32 v" "bytes32 w" m n] by (auto simp: cidr_text_def)

lemma cidr_text_not_Nil [simp]: "cidr_text w n \<noteq> []"
  by (simp add: cidr_text_def)

lemma div_and_mask32:
  assumes "n \<le> 32" shows "unat (w AND mask32 n) div 2 ^ (32 - n) = unat w div 2 ^ (32 - n)"
  using and_mask32_eq_iff [OF assms, of "w AND mask32 n" w] by (simp add: ac_simps)

lemma unat_and_mask32:
  assumes "n \<le> 32" shows "unat (w AND mask32 n) = unat w div 2 ^ (32 - n) * 2 ^ (32 - n)"
proof -
  have "unat w div 2 ^ (32 - n) * 2 ^ (32 - n) \<le> unat w" by simp
  also have "unat w < 2 ^ 32" using unsigned_less [of w, where 'a = nat] by simp
  finally have lt: "unat w div 2 ^ (32 - n) * 2 ^ (32 - n) < 2 ^ 32" .
  have "w AND mask32 n = drop_bit (32 - n) w * of_nat (2 ^ (32 - n))"
    using assms by (simp add: and_mask32 push_bit_eq_mult)
  moreover have "unat (x * of_nat k) = unat x * k mod 2 ^ 32" for x :: "32 word" and k
    by (simp add: unat_word_ariths unat_of_nat take_bit_eq_mod mod_mult_right_eq)
  ultimately have "unat (w AND mask32 n) = (unat (drop_bit (32 - n) w) * 2 ^ (32 - n)) mod 2 ^ 32"
    by metis
  also have "unat (drop_bit (32 - n) w) = unat w div 2 ^ (32 - n)"
    by (simp only: unat_drop_bit_eq) (simp add: drop_bit_eq_div)
  finally show ?thesis using lt by simp
qed

lemma Contains_cidr_net:
  assumes "n \<le> 32"
  shows "Contains (cidr_net w n) (bytes32 x) \<longleftrightarrow> unat w div 2 ^ (32 - n) = unat x div 2 ^ (32 - n)"
  using assms by (simp add: cidr_net_def Contains_bytes32 div_and_mask32)

end
