(* ===== verification/Netlink.thy ===== *)
theory Netlink
  imports Go_Effects Go_Net
begin

text \<open>
  The network stack as the program sees it: the values of the \<^verbatim>\<open>netlink\<close> package with the fields that the program
  sets or reads, the functions of the \<^verbatim>\<open>netlink\<close>, \<^verbatim>\<open>net\<close>, \<^verbatim>\<open>sysctl\<close> and \<^verbatim>\<open>ns\<close> packages as a parameter (the record
  \<open>kernel\<close>), and the adapters of \<^verbatim>\<open>lib/adapter\<close> and \<^verbatim>\<open>cni/adapter\<close>.
\<close>

section \<open>Values\<close>

text \<open>\<open>Vxlan\<close>: VxlanId, SrcAddr, Port, VtepDevIndex, GBP; \<open>Veth\<close>: PeerName, PeerHardwareAddr.\<close>

datatype link_kind = Vxlan int IP int int bool | Veth string HardwareAddr | Device

record Link =
  lk_Index :: int
  lk_Name :: string
  lk_HardwareAddr :: HardwareAddr
  lk_MTU :: int
  lk_Up :: bool
  lk_kind :: link_kind

record Addr =
  ad_IPNet :: IPNet
  ad_Peer :: "IPNet option"
  ad_Scope :: int

record Route =
  ro_LinkIndex :: int
  ro_Scope :: int
  ro_Dst :: "IPNet option"
  ro_Gw :: IP
  ro_Src :: IP

record Neigh =
  ne_LinkIndex :: int
  ne_Family :: int
  ne_State :: int
  ne_Type :: int
  ne_Flags :: int
  ne_IP :: IP
  ne_HardwareAddr :: HardwareAddr

text \<open>\<^verbatim>\<open>net.Interface\<close>.\<close>

record Interface =
  if_Index :: int
  if_MTU :: int
  if_Name :: string
  if_HardwareAddr :: HardwareAddr

definition SCOPE_UNIVERSE :: int where "SCOPE_UNIVERSE = 0"
definition SCOPE_LINK :: int where "SCOPE_LINK = 253"
definition NUD_PERMANENT :: int where "NUD_PERMANENT = 128"
definition RTN_UNICAST :: int where "RTN_UNICAST = 1"
definition NTF_SELF :: int where "NTF_SELF = 2"
definition AF_BRIDGE :: int where "AF_BRIDGE = 7"
definition FAMILY_V4 :: int where "FAMILY_V4 = 2"

text \<open>\<^verbatim>\<open>String\<close> of a pointer to a network, which may be nil.\<close>

definition Dst_String :: "IPNet option \<Rightarrow> string" where
  "Dst_String d = (case d of None \<Rightarrow> ''<nil>'' | Some n \<Rightarrow> IPNet_String n)"

section \<open>The packages\<close>

record 'w kernel =
  k_LinkByName :: "string \<Rightarrow> ('w, Link) op"
  k_LinkByIndex :: "int \<Rightarrow> ('w, Link) op"
  k_LinkList :: "('w, Link list) op"
  k_LinkAdd :: "Link \<Rightarrow> ('w, unit) op"
  k_LinkDel :: "Link \<Rightarrow> ('w, unit) op"
  k_LinkSetUp :: "Link \<Rightarrow> ('w, unit) op"
  k_LinkSetName :: "Link \<Rightarrow> string \<Rightarrow> ('w, unit) op"
  k_LinkSetHardwareAddr :: "Link \<Rightarrow> HardwareAddr \<Rightarrow> ('w, unit) op"
  k_LinkSetARPOff :: "Link \<Rightarrow> ('w, unit) op"
  k_LinkSetNsFd :: "Link \<Rightarrow> int \<Rightarrow> ('w, unit) op"
  k_AddrAdd :: "Link \<Rightarrow> Addr \<Rightarrow> ('w, unit) op"
  k_AddrList :: "Link \<Rightarrow> int \<Rightarrow> ('w, Addr list) op"
  k_RouteAdd :: "Route \<Rightarrow> ('w, unit) op"
  k_RouteReplace :: "Route \<Rightarrow> ('w, unit) op"
  k_RouteList :: "Link \<Rightarrow> int \<Rightarrow> ('w, Route list) op"
  k_RouteDel :: "Route \<Rightarrow> ('w, unit) op"
  k_NeighAdd :: "Neigh \<Rightarrow> ('w, unit) op"
  k_NeighSet :: "Neigh \<Rightarrow> ('w, unit) op"
  k_NeighDel :: "Neigh \<Rightarrow> ('w, unit) op"
  k_NeighList :: "int \<Rightarrow> int \<Rightarrow> ('w, Neigh list) op"
  k_Interfaces :: "('w, Interface list) op"
  k_InterfaceAddrs :: "Interface \<Rightarrow> ('w, string list) op"
  k_InterfaceByName :: "string \<Rightarrow> ('w, Interface) op"
  k_Sysctl :: "string \<Rightarrow> string list \<Rightarrow> ('w, string) op"
  k_EnableIP4Forward :: "('w, unit) op"

section \<open>The adapters\<close>

subsection \<open>lib/adapter/netlink\_adapter.go\<close>

definition LinkByName :: "'w kernel \<Rightarrow> string \<Rightarrow> ('w, Link) op" where
  "LinkByName k name = k_LinkByName k name"

definition LinkByIndex :: "'w kernel \<Rightarrow> int \<Rightarrow> ('w, Link) op" where
  "LinkByIndex k index = k_LinkByIndex k index"

text \<open>
  \<^verbatim>\<open>netlink.ParseAddr\<close>: the part before the first blank is a CIDR text; the address keeps the host part.
\<close>

definition ParseAddr :: "string \<Rightarrow> Addr result" where
  "ParseAddr s =
     (case ParseCIDR (takeWhile (\<lambda>c. c \<noteq> CHR '' '') s) of
        Inl err \<Rightarrow> Inl err
      | Inr (ip, ipNet) \<Rightarrow> Inr \<lparr>ad_IPNet = ipNet\<lparr>IPNet_IP := ip\<rparr>, ad_Peer = None, ad_Scope = 0\<rparr>)"

definition AddrAddScopeLink :: "'w kernel \<Rightarrow> Link \<Rightarrow> Addr \<Rightarrow> ('w, unit) op" where
  "AddrAddScopeLink k link addr = k_AddrAdd k link (addr\<lparr>ad_Scope := SCOPE_LINK\<rparr>)"

definition AddrList :: "'w kernel \<Rightarrow> Link \<Rightarrow> int \<Rightarrow> ('w, Addr list) op" where
  "AddrList k link family = k_AddrList k link family"

definition LinkSetHardwareAddr :: "'w kernel \<Rightarrow> Link \<Rightarrow> HardwareAddr \<Rightarrow> ('w, unit) op" where
  "LinkSetHardwareAddr k link hwaddr = k_LinkSetHardwareAddr k link hwaddr"

definition NeighAddPermanentIPv4 :: "'w kernel \<Rightarrow> int \<Rightarrow> IP \<Rightarrow> HardwareAddr \<Rightarrow> ('w, unit) op" where
  "NeighAddPermanentIPv4 k index destIP hwAddr =
     k_NeighAdd k \<lparr>ne_LinkIndex = index, ne_Family = FAMILY_V4, ne_State = NUD_PERMANENT, ne_Type = 0, ne_Flags = 0,
       ne_IP = destIP, ne_HardwareAddr = hwAddr\<rparr>"

definition NeighSet :: "'w kernel \<Rightarrow> Neigh \<Rightarrow> ('w, unit) op" where
  "NeighSet k neigh = k_NeighSet k neigh"

definition ARPList :: "'w kernel \<Rightarrow> int \<Rightarrow> ('w, Neigh list) op" where
  "ARPList k linkIndex = k_NeighList k linkIndex FAMILY_V4"

definition FDBList :: "'w kernel \<Rightarrow> int \<Rightarrow> ('w, Neigh list) op" where
  "FDBList k linkIndex = k_NeighList k linkIndex AF_BRIDGE"

definition NeighDel :: "'w kernel \<Rightarrow> Neigh \<Rightarrow> ('w, unit) op" where
  "NeighDel k neigh = k_NeighDel k neigh"

definition LinkSetARPOff :: "'w kernel \<Rightarrow> Link \<Rightarrow> ('w, unit) op" where
  "LinkSetARPOff k link = k_LinkSetARPOff k link"

definition LinkSetName :: "'w kernel \<Rightarrow> Link \<Rightarrow> string \<Rightarrow> ('w, unit) op" where
  "LinkSetName k link newName = k_LinkSetName k link newName"

definition LinkSetUp :: "'w kernel \<Rightarrow> Link \<Rightarrow> ('w, unit) op" where
  "LinkSetUp k link = k_LinkSetUp k link"

definition LinkList :: "'w kernel \<Rightarrow> ('w, Link list) op" where
  "LinkList k = k_LinkList k"

definition LinkDel :: "'w kernel \<Rightarrow> Link \<Rightarrow> ('w, unit) op" where
  "LinkDel k link = k_LinkDel k link"

definition LinkAdd :: "'w kernel \<Rightarrow> Link \<Rightarrow> ('w, unit) op" where
  "LinkAdd k link = k_LinkAdd k link"

definition LinkSetNsFd :: "'w kernel \<Rightarrow> Link \<Rightarrow> int \<Rightarrow> ('w, unit) op" where
  "LinkSetNsFd k link fd = k_LinkSetNsFd k link fd"

definition RouteAdd :: "'w kernel \<Rightarrow> Route \<Rightarrow> ('w, unit) op" where
  "RouteAdd k route = k_RouteAdd k route"

definition RouteReplace :: "'w kernel \<Rightarrow> Route \<Rightarrow> ('w, unit) op" where
  "RouteReplace k route = k_RouteReplace k route"

definition RouteList :: "'w kernel \<Rightarrow> Link \<Rightarrow> int \<Rightarrow> ('w, Route list) op" where
  "RouteList k link family = k_RouteList k link family"

definition RouteDel :: "'w kernel \<Rightarrow> Route \<Rightarrow> ('w, unit) op" where
  "RouteDel k route = k_RouteDel k route"

subsection \<open>lib/adapter/net\_adapter.go\<close>

definition Interfaces :: "'w kernel \<Rightarrow> ('w, Interface list) op" where
  "Interfaces k = k_Interfaces k"

definition InterfaceAddrs :: "'w kernel \<Rightarrow> Interface \<Rightarrow> ('w, string list) op" where
  "InterfaceAddrs k i = k_InterfaceAddrs k i"

definition InterfaceByName :: "'w kernel \<Rightarrow> string \<Rightarrow> ('w, Interface) op" where
  "InterfaceByName k name = k_InterfaceByName k name"

subsection \<open>cni/adapter\<close>

definition EnableIP4Forward :: "'w kernel \<Rightarrow> ('w, unit) op" where
  "EnableIP4Forward k = k_EnableIP4Forward k"

definition Sysctl :: "'w kernel \<Rightarrow> string \<Rightarrow> string list \<Rightarrow> ('w, string) op" where
  "Sysctl k name params = k_Sysctl k name params"

text \<open>
  A network namespace: its path, its file descriptor, and running an operation inside it.  \<open>namespaces\<close> is the \<^verbatim>\<open>ns\<close>
  package.
\<close>

record 'w NetNS =
  ns_Path :: string
  ns_Fd :: int
  ns_Do :: "('w, go_error, unit) pop \<Rightarrow> ('w, go_error, unit) pop"

text \<open>\<^verbatim>\<open>NetNsDoStub\<close> of \<^verbatim>\<open>cni/lib/interface.go\<close> runs the operation where it is.\<close>

definition NetNsDoStub :: "('w, go_error, unit) pop \<Rightarrow> ('w, go_error, unit) pop" where
  "NetNsDoStub f w = f w"

record 'w namespaces =
  n_GetNS :: "string \<Rightarrow> ('w, 'w NetNS) op"
  n_GetCurrentNS :: "('w, 'w NetNS) op"

definition GetNS :: "'w namespaces \<Rightarrow> string \<Rightarrow> ('w, 'w NetNS) op" where
  "GetNS n path = n_GetNS n path"

definition GetCurrentNS :: "'w namespaces \<Rightarrow> ('w, 'w NetNS) op" where
  "GetCurrentNS n = n_GetCurrentNS n"

lemmas adapter_defs = LinkByName_def LinkByIndex_def AddrAddScopeLink_def AddrList_def LinkSetHardwareAddr_def
  NeighAddPermanentIPv4_def NeighSet_def ARPList_def FDBList_def NeighDel_def LinkSetARPOff_def LinkSetName_def LinkSetUp_def
  LinkDel_def LinkAdd_def LinkSetNsFd_def RouteAdd_def RouteReplace_def RouteList_def RouteDel_def
  Interfaces_def InterfaceAddrs_def InterfaceByName_def Sysctl_def EnableIP4Forward_def GetNS_def GetCurrentNS_def

end
