(* ===== verification/Lease.thy ===== *)
theory Lease
  imports Go_Net
begin

text \<open>
  The data the controller and its clients exchange (\<^verbatim>\<open>controller/client.go\<close>) and the check a
  lease must pass before it is renewed (\<^verbatim>\<open>controller/leaser/validator.go\<close>).
\<close>

record Lease =
  UnderlayIP :: string
  OverlaySubnet :: string
  OverlayHardwareAddr :: string

record ReleaseLeaseRequest =
  rel_UnderlayIP :: string

record AcquireLeaseRequest =
  acq_UnderlayIP :: string
  acq_SingleOverlayIP :: bool

text \<open>Go's zero value \<^verbatim>\<open>controller.Lease{}\<close>.\<close>

definition zero_Lease :: Lease where
  "zero_Lease = \<lparr>UnderlayIP = [], OverlaySubnet = [], OverlayHardwareAddr = []\<rparr>"

definition Validate :: "Lease \<Rightarrow> go_error option" where
  "Validate lease =
     (if ParseIP (UnderlayIP lease) = None then
        Some (ErrorString (''invalid underlay ip: '' @ UnderlayIP lease))
      else case ParseCIDR (OverlaySubnet lease) of
        Inl err \<Rightarrow> Some err
      | Inr _ \<Rightarrow>
          (case ParseMAC (OverlayHardwareAddr lease) of
             Inl err \<Rightarrow> Some err
           | Inr _ \<Rightarrow> None))"

lemma Lease_eta [simp]:
  "\<lparr>UnderlayIP = UnderlayIP l, OverlaySubnet = OverlaySubnet l, OverlayHardwareAddr = OverlayHardwareAddr l\<rparr> = l"
  by simp

lemma Lease_eq_iff:
  "l = l' \<longleftrightarrow> UnderlayIP l = UnderlayIP l' \<and> OverlaySubnet l = OverlaySubnet l'
     \<and> OverlayHardwareAddr l = OverlayHardwareAddr (l' :: Lease)"
  by (cases l; cases l') simp

lemma Validate_None:
  "Validate l = None \<longleftrightarrow> (\<exists>ip. ParseIP (UnderlayIP l) = Some ip)
     \<and> (\<exists>a n. ParseCIDR (OverlaySubnet l) = Inr (a, n)) \<and> (\<exists>hw. ParseMAC (OverlayHardwareAddr l) = Inr hw)"
  by (auto simp: Validate_def split: sum.splits)

end
