(* ===== verification/Go_Json.thy ===== *)
theory Go_Json
  imports Lease
begin

text \<open>
  The part of Go's \<^verbatim>\<open>encoding/json\<close> that the program uses: the text of a value, the parser, and the
  conversion between values and the structs of \<^verbatim>\<open>controller/client.go\<close> and of the handlers, with the
  field names of their tags.  Texts are byte strings; bytes from 128 on stand for the UTF-8
  sequences they belong to and are passed through.  The wording of syntax errors is not modelled: every
  malformed text gives the error \<open>syntax_err\<close>.
\<close>

datatype json =
    JNull
  | JBool bool
  | JNum string
  | JStr string
  | JArr "json list"
  | JObj "(string \<times> json) list"

section \<open>Printing\<close>

definition hex4 :: "nat \<Rightarrow> string" where
  "hex4 n = [hexDigits ! (n div 4096 mod 16), hexDigits ! (n div 256 mod 16), hexDigits ! (n div 16 mod 16), hexDigits ! (n mod 16)]"

definition escape_char :: "char \<Rightarrow> string" where
  "escape_char c =
     (if c = CHR 0x22 \<or> c = CHR 0x5C then [CHR 0x5C, c]
      else if c = CHR 0x0A then CHR 0x5C # ''n''
      else if c = CHR 0x0D then CHR 0x5C # ''r''
      else if c = CHR 0x09 then CHR 0x5C # ''t''
      else if (of_char c :: nat) < 32 \<or> c = CHR ''<'' \<or> c = CHR ''>'' \<or> c = CHR ''&'' then CHR 0x5C # CHR ''u'' # hex4 (of_char c)
      else [c])"

definition quote_string :: "string \<Rightarrow> string" where
  "quote_string s = CHR 0x22 # concat (map escape_char s) @ [CHR 0x22]"

fun json_text :: "json \<Rightarrow> string"
  and json_elements :: "json list \<Rightarrow> string"
  and json_members :: "(string \<times> json) list \<Rightarrow> string" where
  "json_text JNull = ''null''"
| "json_text (JBool b) = (if b then ''true'' else ''false'')"
| "json_text (JNum s) = s"
| "json_text (JStr s) = quote_string s"
| "json_text (JArr vs) = ''['' @ json_elements vs @ '']''"
| "json_text (JObj ms) = CHR 0x7B # json_members ms @ [CHR 0x7D]"
| "json_elements [] = []"
| "json_elements (v # vs) = json_text v @ (if vs = [] then [] else '','' @ json_elements vs)"
| "json_members [] = []"
| "json_members ((k, v) # ms) = quote_string k @ '':'' @ json_text v @ (if ms = [] then [] else '','' @ json_members ms)"

section \<open>Parsing\<close>

definition is_space :: "char \<Rightarrow> bool" where
  "is_space c \<longleftrightarrow> c = CHR '' '' \<or> c = CHR 0x09 \<or> c = CHR 0x0A \<or> c = CHR 0x0D"

definition skip_space :: "string \<Rightarrow> string" where
  "skip_space s = dropWhile is_space s"

text \<open>UTF-8 of a code point; the two halves of a surrogate pair are combined by the caller.\<close>

definition utf8 :: "nat \<Rightarrow> string" where
  "utf8 n =
     (if n < 128 then [char_of n]
      else if n < 2048 then map char_of [192 + n div 64, 128 + n mod 64]
      else if n < 65536 then map char_of [224 + n div 4096, 128 + n div 64 mod 64, 128 + n mod 64]
      else map char_of [240 + n div 262144, 128 + n div 4096 mod 64, 128 + n div 64 mod 64, 128 + n mod 64])"

definition read_hex4 :: "string \<Rightarrow> nat option" where
  "read_hex4 s =
     (case s of
        [a, b, c, d] \<Rightarrow>
          (case (hex_val a, hex_val b, hex_val c, hex_val d) of
             (Some a, Some b, Some c, Some d) \<Rightarrow> Some (((a * 16 + b) * 16 + c) * 16 + d)
           | _ \<Rightarrow> None)
      | _ \<Rightarrow> None)"

definition is_high :: "nat \<Rightarrow> bool" where
  "is_high n \<longleftrightarrow> 55296 \<le> n \<and> n < 56320"

definition is_low :: "nat \<Rightarrow> bool" where
  "is_low n \<longleftrightarrow> 56320 \<le> n \<and> n < 57344"

text \<open>The characters of a string up to the closing quote, after the opening one.\<close>

function read_string :: "string \<Rightarrow> string \<Rightarrow> (string \<times> string) option" where
  "read_string s acc =
     (case s of
        [] \<Rightarrow> None
      | c # r \<Rightarrow>
          if c = CHR 0x22 then Some (acc, r)
          else if c = CHR 0x5C then
            (case r of
               [] \<Rightarrow> None
             | e # r' \<Rightarrow>
                 if e = CHR 0x22 \<or> e = CHR 0x5C \<or> e = CHR ''/'' then read_string r' (acc @ [e])
                 else if e = CHR ''b'' then read_string r' (acc @ [CHR 0x08])
                 else if e = CHR ''f'' then read_string r' (acc @ [CHR 0x0C])
                 else if e = CHR ''n'' then read_string r' (acc @ [CHR 0x0A])
                 else if e = CHR ''r'' then read_string r' (acc @ [CHR 0x0D])
                 else if e = CHR ''t'' then read_string r' (acc @ [CHR 0x09])
                 else if e = CHR ''u'' then
                   (case read_hex4 (take 4 r') of
                      None \<Rightarrow> None
                    | Some n \<Rightarrow>
                        if is_high n \<and> take 2 (drop 4 r') = [CHR 0x5C, CHR ''u''] then
                          (case read_hex4 (take 4 (drop 6 r')) of
                             None \<Rightarrow> None
                           | Some m \<Rightarrow>
                               if is_low m then
                                 read_string (drop 10 r') (acc @ utf8 (65536 + (n - 55296) * 1024 + (m - 56320)))
                               else read_string (drop 4 r') (acc @ utf8 65533))
                        else read_string (drop 4 r') (acc @ utf8 (if is_high n \<or> is_low n then 65533 else n)))
                 else None)
          else if (of_char c :: nat) < 32 then None
          else read_string r (acc @ [c]))"
  by pat_completeness auto
termination
  by (relation "measure (\<lambda>(s, acc). length s)") auto

declare read_string.simps [simp del]

text \<open>A number: the longest prefix of the characters numbers are made of, checked against the grammar.\<close>

definition int_part :: "string \<Rightarrow> string \<times> string" where
  "int_part s =
     (let t = (if s \<noteq> [] \<and> hd s = CHR ''-'' then tl s else s);
          ds = (if t \<noteq> [] \<and> hd t = CHR ''0'' then ''0'' else takeWhile is_digit t)
      in (ds, drop (length ds) t))"

definition frac_part :: "string \<Rightarrow> string option" where
  "frac_part s =
     (if s \<noteq> [] \<and> hd s = CHR ''.'' then
        (if takeWhile is_digit (tl s) = [] then None else Some (dropWhile is_digit (tl s)))
      else Some s)"

definition exp_part :: "string \<Rightarrow> string option" where
  "exp_part s =
     (if s \<noteq> [] \<and> (hd s = CHR ''e'' \<or> hd s = CHR ''E'') then
        let r = (if tl s \<noteq> [] \<and> (hd (tl s) = CHR ''+'' \<or> hd (tl s) = CHR ''-'') then tl (tl s) else tl s)
        in if takeWhile is_digit r = [] then None else Some (dropWhile is_digit r)
      else Some s)"

definition read_number :: "string \<Rightarrow> (json \<times> string) option" where
  "read_number s =
     (case int_part s of (ds, r) \<Rightarrow>
        if ds = [] then None
        else case frac_part r of
          None \<Rightarrow> None
        | Some r \<Rightarrow>
            (case exp_part r of
               None \<Rightarrow> None
             | Some r \<Rightarrow> Some (JNum (take (length s - length r) s), r)))"

text \<open>\<open>expect c s\<close>: what follows \<open>c\<close>, white space before it skipped.\<close>

definition expect :: "char \<Rightarrow> string \<Rightarrow> string option" where
  "expect c s = (case skip_space s of [] \<Rightarrow> None | d # r \<Rightarrow> if d = c then Some r else None)"

text \<open>
  Values; the first argument bounds the recursion.  \<open>parse_json\<close> starts with more than twice the length of the
  text, which is enough: of two nested calls at least one consumes a character.
\<close>

fun read_value :: "nat \<Rightarrow> string \<Rightarrow> (json \<times> string) option"
  and read_elements :: "nat \<Rightarrow> string \<Rightarrow> (json list \<times> string) option"
  and read_members :: "nat \<Rightarrow> string \<Rightarrow> ((string \<times> json) list \<times> string) option" where
  "read_value 0 s = None"
| "read_value (Suc k) s =
     (case skip_space s of
        [] \<Rightarrow> None
      | c # r \<Rightarrow>
          if c = CHR 0x22 then
            (case read_string r [] of None \<Rightarrow> None | Some (t, r) \<Rightarrow> Some (JStr t, r))
          else if c = CHR ''['' then
            (case expect CHR '']'' r of
               Some r' \<Rightarrow> Some (JArr [], r')
             | None \<Rightarrow> (case read_elements k r of None \<Rightarrow> None | Some (vs, r) \<Rightarrow> Some (JArr vs, r)))
          else if c = CHR 0x7B then
            (case expect CHR 0x7D r of
               Some r' \<Rightarrow> Some (JObj [], r')
             | None \<Rightarrow> (case read_members k r of None \<Rightarrow> None | Some (ms, r) \<Rightarrow> Some (JObj ms, r)))
          else if take 4 (c # r) = ''null'' then Some (JNull, drop 4 (c # r))
          else if take 4 (c # r) = ''true'' then Some (JBool True, drop 4 (c # r))
          else if take 5 (c # r) = ''false'' then Some (JBool False, drop 5 (c # r))
          else read_number (c # r))"
| "read_elements 0 s = None"
| "read_elements (Suc k) s =
     (case read_value k s of
        None \<Rightarrow> None
      | Some (v, r) \<Rightarrow>
          (case expect CHR '','' r of
             Some r \<Rightarrow> (case read_elements k r of None \<Rightarrow> None | Some (vs, r) \<Rightarrow> Some (v # vs, r))
           | None \<Rightarrow> (case expect CHR '']'' r of None \<Rightarrow> None | Some r \<Rightarrow> Some ([v], r))))"
| "read_members 0 s = None"
| "read_members (Suc k) s =
     (case expect CHR 0x22 s of
        None \<Rightarrow> None
      | Some r \<Rightarrow>
          (case read_string r [] of
             None \<Rightarrow> None
           | Some (key, r) \<Rightarrow>
               (case expect CHR '':'' r of
                  None \<Rightarrow> None
                | Some r \<Rightarrow>
                    (case read_value k r of
                       None \<Rightarrow> None
                     | Some (v, r) \<Rightarrow>
                         (case expect CHR '','' r of
                            Some r \<Rightarrow>
                              (case read_members k r of None \<Rightarrow> None | Some (ms, r) \<Rightarrow> Some ((key, v) # ms, r))
                          | None \<Rightarrow> (case expect CHR 0x7D r of None \<Rightarrow> None | Some r \<Rightarrow> Some ([(key, v)], r)))))))"

definition parse_json :: "string \<Rightarrow> json option" where
  "parse_json s =
     (case read_value (2 * length s + 2) s of
        None \<Rightarrow> None
      | Some (v, r) \<Rightarrow> if skip_space r = [] then Some v else None)"

section \<open>Structs\<close>

text \<open>
  Decoding an object into a struct: for each member in turn the field whose name it has, up to
  case, is assigned; \<^verbatim>\<open>null\<close> leaves the field alone; a value of another kind is an error that is reported
  after the whole object has been decoded.  A state is the field's value and whether an error occurred.
\<close>

definition syntax_err :: go_error where
  "syntax_err = ErrorString ''invalid JSON''"

definition type_err :: go_error where
  "type_err = ErrorString ''json: cannot unmarshal value''"

definition lower :: "char \<Rightarrow> char" where
  "lower c = (let n = (of_char c :: nat) in if 65 \<le> n \<and> n \<le> 90 then char_of (n + 32) else c)"

definition same_key :: "string \<Rightarrow> string \<Rightarrow> bool" where
  "same_key a b \<longleftrightarrow> map lower a = map lower b"

definition decode_field :: "(json \<Rightarrow> 'a option) \<Rightarrow> string \<Rightarrow> 'a \<Rightarrow> (string \<times> json) list \<Rightarrow> 'a \<times> bool" where
  "decode_field dec name zero ms =
     foldl (\<lambda>(x, bad) (k, v).
        if same_key k name \<and> v \<noteq> JNull then (case dec v of None \<Rightarrow> (x, True) | Some y \<Rightarrow> (y, bad)) else (x, bad))
       (zero, False) ms"

fun dec_string :: "json \<Rightarrow> string option" where
  "dec_string (JStr s) = Some s"
| "dec_string _ = None"

fun dec_bool :: "json \<Rightarrow> bool option" where
  "dec_bool (JBool b) = Some b"
| "dec_bool _ = None"

text \<open>The members of an object; \<^verbatim>\<open>null\<close> decodes to the zero struct.\<close>

fun members_of :: "json \<Rightarrow> (string \<times> json) list option" where
  "members_of (JObj ms) = Some ms"
| "members_of JNull = Some []"
| "members_of _ = None"

definition dec_Lease :: "json \<Rightarrow> Lease option" where
  "dec_Lease j =
     (case members_of j of
        None \<Rightarrow> None
      | Some ms \<Rightarrow>
          (case (decode_field dec_string ''underlay_ip'' [] ms, decode_field dec_string ''overlay_subnet'' [] ms,
                 decode_field dec_string ''overlay_hardware_addr'' [] ms) of
             ((u, e1), (s, e2), (h, e3)) \<Rightarrow>
               if e1 \<or> e2 \<or> e3 then None
               else Some \<lparr>UnderlayIP = u, OverlaySubnet = s, OverlayHardwareAddr = h\<rparr>))"

fun dec_Leases :: "json \<Rightarrow> Lease list option" where
  "dec_Leases (JArr vs) = those (map dec_Lease vs)"
| "dec_Leases _ = None"

definition enc_Lease :: "Lease \<Rightarrow> json" where
  "enc_Lease l = JObj [(''underlay_ip'', JStr (UnderlayIP l)), (''overlay_subnet'', JStr (OverlaySubnet l)),
     (''overlay_hardware_addr'', JStr (OverlayHardwareAddr l))]"

definition enc_Leases :: "Lease list \<Rightarrow> json" where
  "enc_Leases ls = JObj [(''leases'', JArr (map enc_Lease ls))]"

definition enc_AcquireLeaseRequest :: "AcquireLeaseRequest \<Rightarrow> json" where
  "enc_AcquireLeaseRequest q =
     JObj [(''underlay_ip'', JStr (acq_UnderlayIP q)), (''single_overlay_ip'', JBool (acq_SingleOverlayIP q))]"

definition enc_ReleaseLeaseRequest :: "ReleaseLeaseRequest \<Rightarrow> json" where
  "enc_ReleaseLeaseRequest q = JObj [(''underlay_ip'', JStr (rel_UnderlayIP q))]"

definition dec_AcquireLeaseRequest :: "json \<Rightarrow> AcquireLeaseRequest option" where
  "dec_AcquireLeaseRequest j =
     (case members_of j of
        None \<Rightarrow> None
      | Some ms \<Rightarrow>
          (case (decode_field dec_string ''underlay_ip'' [] ms, decode_field dec_bool ''single_overlay_ip'' False ms) of
             ((u, e1), (b, e2)) \<Rightarrow> if e1 \<or> e2 then None else Some \<lparr>acq_UnderlayIP = u, acq_SingleOverlayIP = b\<rparr>))"

definition dec_ReleaseLeaseRequest :: "json \<Rightarrow> ReleaseLeaseRequest option" where
  "dec_ReleaseLeaseRequest j =
     (case members_of j of
        None \<Rightarrow> None
      | Some ms \<Rightarrow> (case decode_field dec_string ''underlay_ip'' [] ms of
          (u, e) \<Rightarrow> if e then None else Some \<lparr>rel_UnderlayIP = u\<rparr>))"

text \<open>The structs \<^verbatim>\<open>struct{Leases []Lease}\<close> and \<^verbatim>\<open>struct{Error string}\<close> of the clients.\<close>

definition dec_LeasesResponse :: "json \<Rightarrow> Lease list option" where
  "dec_LeasesResponse j =
     (case members_of j of
        None \<Rightarrow> None
      | Some ms \<Rightarrow> (case decode_field dec_Leases ''Leases'' [] ms of (ls, e) \<Rightarrow> if e then None else Some ls))"

definition dec_ErrorBody :: "json \<Rightarrow> string option" where
  "dec_ErrorBody j =
     (case members_of j of
        None \<Rightarrow> None
      | Some ms \<Rightarrow> (case decode_field dec_string ''Error'' [] ms of (m, e) \<Rightarrow> if e then None else Some m))"

text \<open>\<^verbatim>\<open>json.Unmarshal\<close> into a struct with the decoder \<open>dec\<close>, and \<^verbatim>\<open>json.Marshal\<close> with the encoder \<open>enc\<close>.\<close>

definition json_Unmarshal :: "(json \<Rightarrow> 'a option) \<Rightarrow> string \<Rightarrow> 'a result" where
  "json_Unmarshal dec s =
     (case parse_json s of
        None \<Rightarrow> Inl syntax_err
      | Some j \<Rightarrow> (case dec j of None \<Rightarrow> Inl type_err | Some x \<Rightarrow> Inr x))"

definition json_Marshal :: "('a \<Rightarrow> json) \<Rightarrow> 'a \<Rightarrow> string result" where
  "json_Marshal enc x = Inr (json_text (enc x))"

section \<open>Parsing inverts printing\<close>

lemma skip_space_nonspace [simp]: "\<not> is_space c \<Longrightarrow> skip_space (c # s) = c # s"
  by (simp add: skip_space_def)

lemma expect_hit: "\<not> is_space c \<Longrightarrow> expect c (c # r) = Some r"
  by (simp add: expect_def)

lemma expect_miss: "\<not> is_space d \<Longrightarrow> d \<noteq> c \<Longrightarrow> expect c (d # r) = None"
  by (simp add: expect_def)

lemma not_space [simp]:
  "\<not> is_space CHR 0x22" "\<not> is_space CHR ''[''" "\<not> is_space CHR '']''" "\<not> is_space CHR 0x7B" "\<not> is_space CHR 0x7D"
  "\<not> is_space CHR '',''" "\<not> is_space CHR '':''" "\<not> is_space CHR ''n''" "\<not> is_space CHR ''t''" "\<not> is_space CHR ''f''"
  by (simp_all add: is_space_def)

lemma read_hex4_vals:
  assumes "hex_val a = Some x" "hex_val b = Some y" "hex_val c = Some z" "hex_val d = Some t"
  shows "read_hex4 [a, b, c, d] = Some (((x * 16 + y) * 16 + z) * 16 + t)"
  using assms by (simp add: read_hex4_def)

lemma read_hex4_hex4:
  assumes n: "n < 256"
  shows "read_hex4 (hex4 n) = Some n"
proof -
  have "hex_val (hexDigits ! (m mod 16)) = Some (m mod 16)" for m by (rule hex_val_digit) simp
  from read_hex4_vals [OF this this this this]
  have "read_hex4 (hex4 n) = Some (((n div 4096 mod 16 * 16 + n div 256 mod 16) * 16 + n div 16 mod 16) * 16 + n mod 16)"
    unfolding hex4_def .
  moreover have "n div 4096 = 0" "n div 256 = 0" using n by (simp_all add: div_less)
  moreover have "n div 16 mod 16 = n div 16" using n by (simp add: less_mult_imp_div_less)
  moreover have "n div 16 * 16 + n mod 16 = n" by (rule div_mult_mod_eq)
  ultimately show ?thesis by (simp only: mod_0 mult_0 add_0)
qed

lemma read_string_plain:
  assumes "c \<noteq> CHR 0x22" "c \<noteq> CHR 0x5C" "\<not> (of_char c :: nat) < 32"
  shows "read_string (c # r) acc = read_string r (acc @ [c])"
  using assms by (subst read_string.simps) simp

lemma read_string_simple_escape:
  "read_string (CHR 0x5C # CHR 0x22 # r) acc = read_string r (acc @ [CHR 0x22])"
  "read_string (CHR 0x5C # CHR 0x5C # r) acc = read_string r (acc @ [CHR 0x5C])"
  "read_string (CHR 0x5C # CHR ''n'' # r) acc = read_string r (acc @ [CHR 0x0A])"
  "read_string (CHR 0x5C # CHR ''r'' # r) acc = read_string r (acc @ [CHR 0x0D])"
  "read_string (CHR 0x5C # CHR ''t'' # r) acc = read_string r (acc @ [CHR 0x09])"
  by (subst read_string.simps, simp)+

lemma read_string_unicode:
  assumes "read_hex4 (take 4 r) = Some n" "\<not> is_high n" "\<not> is_low n"
  shows "read_string (CHR 0x5C # CHR ''u'' # r) acc = read_string (drop 4 r) (acc @ utf8 n)"
  using assms by (subst read_string.simps) simp

lemma small_not_surrogate: "n < 128 \<Longrightarrow> \<not> is_high n \<and> \<not> is_low n"
  unfolding is_high_def is_low_def by linarith

lemma read_string_escape: "read_string (escape_char c @ r) acc = read_string r (acc @ [c])"
proof -
  have u: "read_string (CHR 0x5C # CHR ''u'' # hex4 (of_char c) @ r) acc = read_string r (acc @ [c])"
    if small: "(of_char c :: nat) < 128"
  proof -
    have len: "length (hex4 (of_char c)) = 4" by (simp add: hex4_def)
    have "read_hex4 (hex4 (of_char c)) = Some (of_char c)" using small by (intro read_hex4_hex4) simp
    then have "read_hex4 (take 4 (hex4 (of_char c) @ r)) = Some (of_char c)" using len by simp
    from read_string_unicode [OF this] small_not_surrogate [OF small]
    show ?thesis using len small by (simp add: utf8_def)
  qed
  show ?thesis
    unfolding escape_char_def
    using u by (auto simp: read_string_simple_escape read_string_plain)
qed

lemma read_string_quoted: "read_string (concat (map escape_char s) @ CHR 0x22 # r) acc = Some (acc @ s, r)"
proof (induction s arbitrary: acc)
  case Nil
  then show ?case by (subst read_string.simps) simp
next
  case (Cons c s)
  then show ?case by (simp add: read_string_escape)
qed

text \<open>An integer in the form \<^verbatim>\<open>json.Marshal\<close> prints, and what may follow a value in a printed text.\<close>

definition int_text :: "string \<Rightarrow> bool" where
  "int_text s \<longleftrightarrow>
     (let t = (if s \<noteq> [] \<and> hd s = CHR ''-'' then tl s else s)
      in t \<noteq> [] \<and> list_all is_digit t \<and> (hd t = CHR ''0'' \<longrightarrow> t = ''0''))"

definition stops :: "string \<Rightarrow> bool" where
  "stops r = (case r of [] \<Rightarrow> True | c # _ \<Rightarrow> c = CHR '','' \<or> c = CHR '']'' \<or> c = CHR 0x7D \<or> c = CHR 0x0A)"

lemma stops_simps [simp]:
  "stops []" "stops (CHR '','' # r)" "stops (CHR '']'' # r)" "stops (CHR 0x7D # r)" "stops (CHR 0x0A # r)"
  by (simp_all add: stops_def)

lemma stops_number_end:
  assumes "stops r"
  shows "takeWhile is_digit r = []" "frac_part r = Some r" "exp_part r = Some r"
proof -
  have hd: "takeWhile is_digit (c # r') = [] \<and> frac_part (c # r') = Some (c # r') \<and> exp_part (c # r') = Some (c # r')"
    if "\<not> is_digit c" "c \<noteq> CHR ''.''" "c \<noteq> CHR ''e''" "c \<noteq> CHR ''E''" for c r'
    using that by (simp add: frac_part_def exp_part_def)
  have "takeWhile is_digit r = [] \<and> frac_part r = Some r \<and> exp_part r = Some r"
  proof (cases r)
    case Nil
    then show ?thesis by (simp add: frac_part_def exp_part_def)
  next
    case (Cons c r')
    with assms consider "c = CHR '',''" | "c = CHR '']''" | "c = CHR 0x7D" | "c = CHR 0x0A" by (auto simp: stops_def)
    then show ?thesis unfolding Cons by cases (rule hd; simp add: is_digit_def)+
  qed
  then show "takeWhile is_digit r = []" "frac_part r = Some r" "exp_part r = Some r" by blast+
qed

lemma digits_span:
  assumes "list_all is_digit t" "takeWhile is_digit r = []"
  shows "takeWhile is_digit (t @ r) = t"
  using assms by (induction t) auto

lemma int_part_digits:
  assumes "t \<noteq> []" "list_all is_digit t" "hd t = CHR ''0'' \<longrightarrow> t = ''0''" "stops r"
  shows "int_part (t @ r) = (t, r)" "int_part (CHR ''-'' # t @ r) = (t, r)"
proof -
  obtain d t' where t: "t = d # t'" "is_digit d" using assms(1,2) by (cases t) auto
  have span: "takeWhile is_digit (t @ r) = t" by (rule digits_span [OF assms(2) stops_number_end(1) [OF assms(4)]])
  have minus: "d \<noteq> CHR ''-''" using t(2) by (auto simp: is_digit_def)
  show "int_part (t @ r) = (t, r)" using span minus assms(3) t(1) by (auto simp: int_part_def Let_def)
  show "int_part (CHR ''-'' # t @ r) = (t, r)" using span assms(3) t(1) by (auto simp: int_part_def Let_def)
qed

lemma read_number_int:
  assumes "int_text s" "stops r"
  shows "read_number (s @ r) = Some (JNum s, r)"
proof -
  obtain t where t: "t \<noteq> []" "list_all is_digit t" "hd t = CHR ''0'' \<longrightarrow> t = ''0''" "s = t \<or> s = CHR ''-'' # t"
  proof (cases "s \<noteq> [] \<and> hd s = CHR ''-''")
    case True
    then have "s = CHR ''-'' # tl s" by (cases s) auto
    with True assms(1) that [of "tl s"] show thesis by (simp add: int_text_def Let_def)
  next
    case False
    with assms(1) that [of s] show thesis by (auto simp: int_text_def Let_def)
  qed
  then have "int_part (s @ r) = (t, r)" using int_part_digits [OF t(1,2,3) assms(2)] by auto
  with t(1) stops_number_end [OF assms(2)] show ?thesis by (simp add: read_number_def)
qed

lemma int_text_first:
  assumes "int_text s" obtains c t where "s = c # t" "is_digit c \<or> c = CHR ''-''"
proof (cases s)
  case (Cons c t)
  with assms have "is_digit c \<or> c = CHR ''-''" by (auto simp: int_text_def Let_def split: if_splits)
  with Cons that show thesis by blast
qed (use assms in \<open>simp add: int_text_def\<close>)

lemma digit_or_minus:
  assumes "is_digit c \<or> c = CHR ''-''"
  shows "\<not> is_space c" "c \<noteq> CHR '']''" "c \<noteq> CHR ''[''" "c \<noteq> CHR 0x7B" "c \<noteq> CHR 0x22" "c \<noteq> CHR ''n''" "c \<noteq> CHR ''t''" "c \<noteq> CHR ''f''"
  using assms by (auto simp: is_space_def is_digit_def)

lemma read_value_JNum:
  assumes "int_text s" "stops r"
  shows "read_value (Suc k) (s @ r) = Some (JNum s, r)"
proof -
  obtain c t where s: "s = c # t" "is_digit c \<or> c = CHR ''-''" using assms(1) by (rule int_text_first)
  show ?thesis
    using read_number_int [OF assms] digit_or_minus [OF s(2)] by (simp add: s(1))
qed

fun json_ok :: "json \<Rightarrow> bool" where
  "json_ok (JNum s) = int_text s"
| "json_ok (JArr vs) = list_all json_ok vs"
| "json_ok (JObj ms) = list_all (\<lambda>(k, v). json_ok v) ms"
| "json_ok _ = True"

text \<open>The first character of a value is not white space and does not close a list.\<close>

lemma json_text_first:
  assumes "json_ok v" obtains c t where "json_text v = c # t" "\<not> is_space c" "c \<noteq> CHR '']''"
proof (cases v)
  case (JBool b)
  then show thesis using that by (cases b) auto
next
  case (JNum s)
  then show thesis using that assms int_text_first [of s] digit_or_minus by (metis json_ok.simps(1) json_text.simps(3))
qed (use that assms in \<open>auto simp: quote_string_def\<close>)

lemma read_value_JNull: "read_value (Suc k) (''null'' @ r) = Some (JNull, r)"
  by simp

lemma read_value_JBool: "read_value (Suc k) (json_text (JBool b) @ r) = Some (JBool b, r)"
  by simp

lemma read_value_JStr: "read_value (Suc k) (quote_string s @ r) = Some (JStr s, r)"
  using read_string_quoted [of s r "[]"] by (simp add: quote_string_def)

lemma read_value_JArr:
  assumes "vs \<noteq> []" "json_ok (hd vs)" "read_elements k (json_elements vs @ CHR '']'' # r) = Some (vs, r)"
  shows "read_value (Suc k) (json_text (JArr vs) @ r) = Some (JArr vs, r)"
proof -
  obtain v vs' where vs: "vs = v # vs'" using assms(1) by (cases vs) auto
  with assms(2) obtain c t where c: "json_text v = c # t" "\<not> is_space c" "c \<noteq> CHR '']''" by (auto elim: json_text_first)
  have "expect CHR '']'' (json_elements vs @ CHR '']'' # r) = None" using c by (simp add: vs expect_miss)
  with assms(3) show ?thesis by simp
qed

lemma read_value_JObj:
  assumes "ms \<noteq> []" "read_members k (json_members ms @ CHR 0x7D # r) = Some (ms, r)"
  shows "read_value (Suc k) (json_text (JObj ms) @ r) = Some (JObj ms, r)"
proof -
  obtain key v ms' where ms: "ms = (key, v) # ms'" using assms(1) by (cases ms) auto
  have "expect CHR 0x7D (json_members ms @ CHR 0x7D # r) = None" by (simp add: ms quote_string_def expect_miss)
  with assms(2) show ?thesis by simp
qed

lemma read_value_text:
  "\<And>k r. 2 * length (json_text v) < k \<Longrightarrow> json_ok v \<Longrightarrow> stops r \<Longrightarrow> read_value k (json_text v @ r) = Some (v, r)"
  "\<And>k r. vs \<noteq> [] \<Longrightarrow> 2 * length (json_elements vs) + 1 < k \<Longrightarrow> list_all json_ok vs \<Longrightarrow>
     read_elements k (json_elements vs @ CHR '']'' # r) = Some (vs, r)"
  "\<And>k r. ms \<noteq> [] \<Longrightarrow> 2 * length (json_members ms) + 1 < k \<Longrightarrow> list_all (\<lambda>(k, v). json_ok v) ms \<Longrightarrow>
     read_members k (json_members ms @ CHR 0x7D # r) = Some (ms, r)"
proof (induction v and vs and ms rule: json_text_json_elements_json_members.induct)
  case (1 k r)
  then show ?case by (cases k) simp_all
next
  case (2 b k r)
  then show ?case by (cases k) simp_all
next
  case (3 s k r)
  then show ?case using read_value_JNum by (cases k) simp_all
next
  case (4 s k r)
  then show ?case using read_value_JStr by (cases k) simp_all
next
  case (5 vs k r)
  then obtain k' where k: "k = Suc k'" by (cases k) auto
  show ?case
  proof (cases "vs = []")
    case True
    then show ?thesis using k by (simp add: expect_hit)
  next
    case False
    with 5 k show ?thesis unfolding k by (intro read_value_JArr) (auto simp: list_all_iff)
  qed
next
  case (6 ms k r)
  then obtain k' where k: "k = Suc k'" by (cases k) auto
  show ?case
  proof (cases "ms = []")
    case True
    then show ?thesis using k by (simp add: expect_hit)
  next
    case False
    with 6 k show ?thesis unfolding k by (intro read_value_JObj) auto
  qed
next
  case (8 v vs k r)
  then obtain k' where k: "k = Suc k'" by (cases k) auto
  show ?case
  proof (cases "vs = []")
    case True
    have "read_value k' (json_text v @ CHR '']'' # r) = Some (v, CHR '']'' # r)" using 8 k by simp
    with True show ?thesis by (simp add: k expect_hit expect_miss)
  next
    case False
    have "read_value k' (json_text v @ '','' @ json_elements vs @ CHR '']'' # r) = Some (v, '','' @ json_elements vs @ CHR '']'' # r)"
      using 8 k by simp
    moreover have "read_elements k' (json_elements vs @ CHR '']'' # r) = Some (vs, r)" using 8 k False by simp
    ultimately show ?thesis using False by (simp add: k expect_hit)
  qed
next
  case (10 key v ms k r)
  then obtain k' where k: "k = Suc k'" by (cases k) auto
  have str: "read_string (concat (map escape_char key) @ CHR 0x22 # t) [] = Some (key, t)" for t
    using read_string_quoted [of key t "[]"] by simp
  show ?case
  proof (cases "ms = []")
    case True
    have "read_value k' (json_text v @ CHR 0x7D # r) = Some (v, CHR 0x7D # r)"
      using 10 k by (simp add: quote_string_def)
    with True str show ?thesis by (simp add: k quote_string_def expect_hit expect_miss)
  next
    case False
    have "read_value k' (json_text v @ '','' @ json_members ms @ CHR 0x7D # r) = Some (v, '','' @ json_members ms @ CHR 0x7D # r)"
      using 10 k by (simp add: quote_string_def)
    moreover have "read_members k' (json_members ms @ CHR 0x7D # r) = Some (ms, r)"
      using 10 k False by (simp add: quote_string_def)
    ultimately show ?thesis using False str by (simp add: k quote_string_def expect_hit)
  qed
qed simp_all

lemma parse_json_text: "json_ok v \<Longrightarrow> parse_json (json_text v) = Some v"
  using read_value_text(1) [of v "2 * length (json_text v) + 2" "[]"] by (simp add: parse_json_def skip_space_def)

section \<open>Messages survive the wire\<close>

lemma keys_differ:
  "same_key k k" "\<not> same_key ''underlay_ip'' ''overlay_subnet''" "\<not> same_key ''underlay_ip'' ''overlay_hardware_addr''"
  "\<not> same_key ''overlay_subnet'' ''underlay_ip''" "\<not> same_key ''overlay_subnet'' ''overlay_hardware_addr''"
  "\<not> same_key ''overlay_hardware_addr'' ''underlay_ip''" "\<not> same_key ''overlay_hardware_addr'' ''overlay_subnet''"
  "\<not> same_key ''underlay_ip'' ''single_overlay_ip''" "\<not> same_key ''single_overlay_ip'' ''underlay_ip''"
  "same_key ''leases'' ''Leases''" "same_key ''error'' ''Error''"
  by (simp add: same_key_def, code_simp+)

lemma dec_enc_Lease: "dec_Lease (enc_Lease l) = Some l"
  by (simp add: dec_Lease_def enc_Lease_def decode_field_def keys_differ)

lemma dec_enc_Leases: "dec_LeasesResponse (enc_Leases ls) = Some ls"
proof -
  have "those (map (dec_Lease \<circ> enc_Lease) ls) = Some ls" by (induction ls) (simp_all add: dec_enc_Lease)
  then show ?thesis by (simp add: dec_LeasesResponse_def enc_Leases_def decode_field_def keys_differ)
qed

lemma json_ok_enc: "json_ok (enc_Lease l)" "json_ok (enc_Leases ls)"
  "json_ok (enc_AcquireLeaseRequest q)" "json_ok (enc_ReleaseLeaseRequest p)"
  by (simp_all add: enc_Lease_def enc_Leases_def enc_AcquireLeaseRequest_def enc_ReleaseLeaseRequest_def list_all_iff)

lemma json_Unmarshal_text: "json_ok j \<Longrightarrow> dec j = Some x \<Longrightarrow> json_Unmarshal dec (json_text j) = Inr x"
  by (simp add: json_Unmarshal_def parse_json_text)

lemma unmarshal_messages:
  "json_Unmarshal dec_Lease (json_text (enc_Lease l)) = Inr l"
  "json_Unmarshal dec_LeasesResponse (json_text (enc_Leases ls)) = Inr ls"
  "json_Unmarshal dec_AcquireLeaseRequest (json_text (enc_AcquireLeaseRequest q)) = Inr q"
  "json_Unmarshal dec_ReleaseLeaseRequest (json_text (enc_ReleaseLeaseRequest p)) = Inr p"
proof -
  have "dec_AcquireLeaseRequest (enc_AcquireLeaseRequest q) = Some q"
    by (simp add: dec_AcquireLeaseRequest_def enc_AcquireLeaseRequest_def decode_field_def keys_differ)
  moreover have "dec_ReleaseLeaseRequest (enc_ReleaseLeaseRequest p) = Some p"
    by (simp add: dec_ReleaseLeaseRequest_def enc_ReleaseLeaseRequest_def decode_field_def keys_differ)
  ultimately show
    "json_Unmarshal dec_Lease (json_text (enc_Lease l)) = Inr l"
    "json_Unmarshal dec_LeasesResponse (json_text (enc_Leases ls)) = Inr ls"
    "json_Unmarshal dec_AcquireLeaseRequest (json_text (enc_AcquireLeaseRequest q)) = Inr q"
    "json_Unmarshal dec_ReleaseLeaseRequest (json_text (enc_ReleaseLeaseRequest p)) = Inr p"
    using json_ok_enc dec_enc_Lease dec_enc_Leases by (simp_all add: json_Unmarshal_text)
qed

text \<open>
  Every message of the API survives its transport as JSON: a lease, a list of leases, an acquire request
  and a release request, with any texts in their fields, are decoded to what was encoded.
\<close>

theorem messages_roundtrip:
  "json_Unmarshal dec_Lease (json_text (enc_Lease l)) = Inr l \<and>
   json_Unmarshal dec_LeasesResponse (json_text (enc_Leases ls)) = Inr ls \<and>
   json_Unmarshal dec_AcquireLeaseRequest (json_text (enc_AcquireLeaseRequest q)) = Inr q \<and>
   json_Unmarshal dec_ReleaseLeaseRequest (json_text (enc_ReleaseLeaseRequest p)) = Inr p"
  by (simp add: unmarshal_messages)

end
