(* ===== verification/Config_Files.thy ===== *)
theory Config_Files
  imports Go_Json Go_Effects
begin

text \<open>
  The configuration files of the controller (\<^verbatim>\<open>controller/config\<close>) and of the daemon and its tools
  (\<^verbatim>\<open>client/config\<close>): the structs, their JSON form, the checks of the \<^verbatim>\<open>validate\<close> tags, and reading and writing
  through a file system, which is a parameter.  A \<^verbatim>\<open>float64\<close> never occurs in these structs; an \<^verbatim>\<open>int\<close> has 64 bits.
\<close>

section \<open>Definitions\<close>

subsection \<open>Numbers in JSON\<close>

definition int_of_text :: "string \<Rightarrow> int" where
  "int_of_text s = (if s \<noteq> [] \<and> hd s = CHR ''-'' then - int (digits_val (tl s) 0) else int (digits_val s 0))"

fun dec_int :: "int \<Rightarrow> int \<Rightarrow> json \<Rightarrow> int option" where
  "dec_int lo hi (JNum s) =
     (if int_text s \<and> lo \<le> int_of_text s \<and> int_of_text s \<le> hi then Some (int_of_text s) else None)"
| "dec_int lo hi _ = None"

definition dec_int64 :: "json \<Rightarrow> int option" where
  "dec_int64 = dec_int (- (2 ^ 63)) (2 ^ 63 - 1)"

definition dec_uint16 :: "json \<Rightarrow> int option" where
  "dec_uint16 = dec_int 0 65535"

definition enc_int :: "int \<Rightarrow> json" where
  "enc_int i = JNum (sprintf_d i)"

definition int64 :: "int \<Rightarrow> bool" where
  "int64 i \<longleftrightarrow> - (2 ^ 63) \<le> i \<and> i \<le> 2 ^ 63 - 1"

definition uint16 :: "int \<Rightarrow> bool" where
  "uint16 i \<longleftrightarrow> 0 \<le> i \<and> i \<le> 65535"

subsection \<open>Validation\<close>

text \<open>
  The failures of the tags \<^verbatim>\<open>nonzero\<close> and \<^verbatim>\<open>min\<close>, with the name of the field.  The validator collects them in a Go
  map; the model lists them in the order of the struct.
\<close>

definition nonzero_s :: "string \<Rightarrow> string \<Rightarrow> (string \<times> string) list" where
  "nonzero_s field v = (if v = [] then [(field, ''zero value'')] else [])"

definition nonzero_i :: "string \<Rightarrow> int \<Rightarrow> (string \<times> string) list" where
  "nonzero_i field v = (if v = 0 then [(field, ''zero value'')] else [])"

definition min_i :: "int \<Rightarrow> string \<Rightarrow> int \<Rightarrow> (string \<times> string) list" where
  "min_i m field v = (if v < m then [(field, ''less than min'')] else [])"

fun error_map :: "(string \<times> string) list \<Rightarrow> string" where
  "error_map [] = []"
| "error_map ((k, e) # es) = k @ '': '' @ e @ (if es = [] then [] else '', '' @ error_map es)"

definition validator_Validate :: "(string \<times> string) list \<Rightarrow> go_error option" where
  "validator_Validate failures = (if failures = [] then None else Some (ErrorString (error_map failures)))"

subsection \<open>Files\<close>

record 'w ioutil =
  ReadFile :: "string \<Rightarrow> ('w, string) op"
  WriteFile :: "string \<Rightarrow> string \<Rightarrow> ('w, unit) op"

subsection \<open>The controller's configuration\<close>

record db_Config =
  db_Type :: string
  db_User :: string
  db_Password :: string
  db_Host :: string
  db_Port :: int
  db_Timeout :: int
  db_DatabaseName :: string
  db_RequireSSL :: bool
  db_CACert :: string
  db_SkipHostnameValidation :: bool

record controller_Config =
  DebugServerPort :: int
  ListenHost :: string
  ListenPort :: int
  CACertFile :: string
  ServerCertFile :: string
  ServerKeyFile :: string
  Network :: string
  SubnetPrefixLength :: int
  Database :: db_Config
  LeaseExpirationSeconds :: int
  MetronPort :: int
  HealthCheckPort :: int
  MetricsEmitSeconds :: int
  StalenessThresholdSeconds :: int
  LogPrefix :: string
  MaxIdleConnections :: int
  MaxOpenConnections :: int
  MaxConnectionsLifetimeSeconds :: int

definition check_db_Config :: "db_Config \<Rightarrow> (string \<times> string) list" where
  "check_db_Config d =
     nonzero_s ''Database.Type'' (db_Type d) @ nonzero_s ''Database.User'' (db_User d) @ nonzero_s ''Database.Host'' (db_Host d)
     @ nonzero_i ''Database.Port'' (db_Port d) @ min_i 1 ''Database.Timeout'' (db_Timeout d)"

definition check_controller_Config :: "controller_Config \<Rightarrow> (string \<times> string) list" where
  "check_controller_Config c =
     min_i 1 ''DebugServerPort'' (DebugServerPort c) @ nonzero_s ''ListenHost'' (ListenHost c)
     @ nonzero_i ''ListenPort'' (ListenPort c) @ nonzero_s ''CACertFile'' (CACertFile c)
     @ nonzero_s ''ServerCertFile'' (ServerCertFile c) @ nonzero_s ''ServerKeyFile'' (ServerKeyFile c)
     @ nonzero_s ''Network'' (Network c) @ nonzero_i ''SubnetPrefixLength'' (SubnetPrefixLength c)
     @ check_db_Config (Database c) @ min_i 1 ''LeaseExpirationSeconds'' (LeaseExpirationSeconds c)
     @ min_i 1 ''MetronPort'' (MetronPort c) @ min_i 1 ''HealthCheckPort'' (HealthCheckPort c)
     @ min_i 1 ''MetricsEmitSeconds'' (MetricsEmitSeconds c) @ min_i 1 ''StalenessThresholdSeconds'' (StalenessThresholdSeconds c)
     @ nonzero_s ''LogPrefix'' (LogPrefix c) @ min_i 0 ''MaxIdleConnections'' (MaxIdleConnections c)
     @ min_i 0 ''MaxOpenConnections'' (MaxOpenConnections c)
     @ min_i 0 ''MaxConnectionsLifetimeSeconds'' (MaxConnectionsLifetimeSeconds c)"

text \<open>The fields of a struct: texts, booleans and numbers, with whether one of them could not be decoded.\<close>

definition field_s :: "(string \<times> json) list \<Rightarrow> string \<Rightarrow> string" where
  "field_s ms name = fst (decode_field dec_string name [] ms)"

definition field_b :: "(string \<times> json) list \<Rightarrow> string \<Rightarrow> bool" where
  "field_b ms name = fst (decode_field dec_bool name False ms)"

definition field_i :: "(string \<times> json) list \<Rightarrow> string \<Rightarrow> int" where
  "field_i ms name = fst (decode_field dec_int64 name 0 ms)"

definition field_u :: "(string \<times> json) list \<Rightarrow> string \<Rightarrow> int" where
  "field_u ms name = fst (decode_field dec_uint16 name 0 ms)"

definition mistyped :: "string list \<Rightarrow> string list \<Rightarrow> string list \<Rightarrow> string list \<Rightarrow> (string \<times> json) list \<Rightarrow> bool" where
  "mistyped ss bs is us ms \<longleftrightarrow>
     list_ex (\<lambda>n. snd (decode_field dec_string n [] ms)) ss \<or> list_ex (\<lambda>n. snd (decode_field dec_bool n False ms)) bs \<or>
     list_ex (\<lambda>n. snd (decode_field dec_int64 n 0 ms)) is \<or> list_ex (\<lambda>n. snd (decode_field dec_uint16 n 0 ms)) us"

definition dec_db_Config :: "json \<Rightarrow> db_Config option" where
  "dec_db_Config j =
     (case members_of j of
        None \<Rightarrow> None
      | Some ms \<Rightarrow>
          if mistyped [''type'', ''user'', ''password'', ''host'', ''database_name'', ''ca_cert'']
               [''require_ssl'', ''skip_hostname_validation''] [''timeout''] [''port''] ms
          then None
          else Some \<lparr>db_Type = field_s ms ''type'', db_User = field_s ms ''user'', db_Password = field_s ms ''password'',
                 db_Host = field_s ms ''host'', db_Port = field_u ms ''port'', db_Timeout = field_i ms ''timeout'',
                 db_DatabaseName = field_s ms ''database_name'', db_RequireSSL = field_b ms ''require_ssl'',
                 db_CACert = field_s ms ''ca_cert'', db_SkipHostnameValidation = field_b ms ''skip_hostname_validation''\<rparr>)"

definition enc_db_Config :: "db_Config \<Rightarrow> json" where
  "enc_db_Config d = JObj
     [(''type'', JStr (db_Type d)), (''user'', JStr (db_User d)), (''password'', JStr (db_Password d)),
      (''host'', JStr (db_Host d)), (''port'', enc_int (db_Port d)), (''timeout'', enc_int (db_Timeout d)),
      (''database_name'', JStr (db_DatabaseName d)), (''require_ssl'', JBool (db_RequireSSL d)),
      (''ca_cert'', JStr (db_CACert d)), (''skip_hostname_validation'', JBool (db_SkipHostnameValidation d))]"

definition zero_db_Config :: db_Config where
  "zero_db_Config = \<lparr>db_Type = [], db_User = [], db_Password = [], db_Host = [], db_Port = 0, db_Timeout = 0,
     db_DatabaseName = [], db_RequireSSL = False, db_CACert = [], db_SkipHostnameValidation = False\<rparr>"

definition dec_controller_Config :: "json \<Rightarrow> controller_Config option" where
  "dec_controller_Config j =
     (case members_of j of
        None \<Rightarrow> None
      | Some ms \<Rightarrow>
          (case decode_field dec_db_Config ''database'' zero_db_Config ms of (db, bad) \<Rightarrow>
             if bad \<or> mistyped [''listen_host'', ''ca_cert_file'', ''server_cert_file'', ''server_key_file'', ''network'', ''log_prefix'']
                  [] [''debug_server_port'', ''listen_port'', ''subnet_prefix_length'', ''lease_expiration_seconds'', ''metron_port'',
                   ''health_check_port'', ''metrics_emit_seconds'', ''staleness_threshold_seconds'', ''max_idle_connections'',
                   ''max_open_connections'', ''connections_max_lifetime_seconds''] [] ms
             then None
             else Some \<lparr>DebugServerPort = field_i ms ''debug_server_port'', ListenHost = field_s ms ''listen_host'',
               ListenPort = field_i ms ''listen_port'', CACertFile = field_s ms ''ca_cert_file'',
               ServerCertFile = field_s ms ''server_cert_file'', ServerKeyFile = field_s ms ''server_key_file'',
               Network = field_s ms ''network'', SubnetPrefixLength = field_i ms ''subnet_prefix_length'', Database = db,
               LeaseExpirationSeconds = field_i ms ''lease_expiration_seconds'', MetronPort = field_i ms ''metron_port'',
               HealthCheckPort = field_i ms ''health_check_port'', MetricsEmitSeconds = field_i ms ''metrics_emit_seconds'',
               StalenessThresholdSeconds = field_i ms ''staleness_threshold_seconds'', LogPrefix = field_s ms ''log_prefix'',
               MaxIdleConnections = field_i ms ''max_idle_connections'', MaxOpenConnections = field_i ms ''max_open_connections'',
               MaxConnectionsLifetimeSeconds = field_i ms ''connections_max_lifetime_seconds''\<rparr>))"

definition enc_controller_Config :: "controller_Config \<Rightarrow> json" where
  "enc_controller_Config c = JObj
     [(''debug_server_port'', enc_int (DebugServerPort c)), (''listen_host'', JStr (ListenHost c)),
      (''listen_port'', enc_int (ListenPort c)), (''ca_cert_file'', JStr (CACertFile c)),
      (''server_cert_file'', JStr (ServerCertFile c)), (''server_key_file'', JStr (ServerKeyFile c)),
      (''network'', JStr (Network c)), (''subnet_prefix_length'', enc_int (SubnetPrefixLength c)),
      (''database'', enc_db_Config (Database c)), (''lease_expiration_seconds'', enc_int (LeaseExpirationSeconds c)),
      (''metron_port'', enc_int (MetronPort c)), (''health_check_port'', enc_int (HealthCheckPort c)),
      (''metrics_emit_seconds'', enc_int (MetricsEmitSeconds c)),
      (''staleness_threshold_seconds'', enc_int (StalenessThresholdSeconds c)), (''log_prefix'', JStr (LogPrefix c)),
      (''max_idle_connections'', enc_int (MaxIdleConnections c)), (''max_open_connections'', enc_int (MaxOpenConnections c)),
      (''connections_max_lifetime_seconds'', enc_int (MaxConnectionsLifetimeSeconds c))]"

definition WriteToFile :: "'w ioutil \<Rightarrow> controller_Config \<Rightarrow> string \<Rightarrow> ('w, unit) op" where
  "WriteToFile io c configFilePath =
     try_do (pure (json_Marshal enc_controller_Config c)) (errorf ''marshal config: '') (\<lambda>bytes.
     try_do (WriteFile io configFilePath bytes) (errorf (''write config to '' @ configFilePath @ '': '')) (\<lambda>_.
     ret ()))"

definition ReadFromFile :: "'w ioutil \<Rightarrow> string \<Rightarrow> ('w, controller_Config) op" where
  "ReadFromFile io configFilePath =
     try_do (ReadFile io configFilePath) (errorf ''read config: '') (\<lambda>bytes.
     try_do (pure (json_Unmarshal dec_controller_Config bytes)) (errorf ''unmarshal config: '') (\<lambda>conf.
     try_do (pure (of_err (validator_Validate (check_controller_Config conf)))) (errorf ''invalid config: '') (\<lambda>_.
     ret conf)))"

subsection \<open>The daemon's configuration\<close>

record client_Config =
  cl_UnderlayIP :: string
  cl_VxlanInterfaceName :: string
  cl_SubnetPrefixLength :: int
  cl_OverlayNetwork :: string
  cl_HealthCheckPort :: int
  cl_VTEPName :: string
  cl_ConnectivityServerURL :: string
  cl_ServerCACertFile :: string
  cl_ClientCertFile :: string
  cl_ClientKeyFile :: string
  cl_VNI :: int
  cl_VTEPPort :: int
  cl_PollInterval :: int
  cl_DebugServerPort :: int
  cl_Datastore :: string
  cl_PartitionToleranceSeconds :: int
  cl_ClientTimeoutSeconds :: int
  cl_MetronPort :: int
  cl_LogPrefix :: string
  cl_LogLevel :: string
  cl_SingleIPOnly :: bool

definition check_client_Config :: "client_Config \<Rightarrow> (string \<times> string) list" where
  "check_client_Config c =
     nonzero_s ''UnderlayIP'' (cl_UnderlayIP c) @ nonzero_i ''SubnetPrefixLength'' (cl_SubnetPrefixLength c)
     @ nonzero_s ''OverlayNetwork'' (cl_OverlayNetwork c) @ nonzero_i ''HealthCheckPort'' (cl_HealthCheckPort c)
     @ nonzero_s ''VTEPName'' (cl_VTEPName c) @ nonzero_s ''ConnectivityServerURL'' (cl_ConnectivityServerURL c)
     @ nonzero_s ''ServerCACertFile'' (cl_ServerCACertFile c) @ nonzero_s ''ClientCertFile'' (cl_ClientCertFile c)
     @ nonzero_s ''ClientKeyFile'' (cl_ClientKeyFile c) @ nonzero_i ''VNI'' (cl_VNI c) @ min_i 1 ''VTEPPort'' (cl_VTEPPort c)
     @ nonzero_i ''PollInterval'' (cl_PollInterval c) @ nonzero_i ''DebugServerPort'' (cl_DebugServerPort c)
     @ nonzero_s ''Datastore'' (cl_Datastore c) @ nonzero_i ''PartitionToleranceSeconds'' (cl_PartitionToleranceSeconds c)
     @ nonzero_i ''ClientTimeoutSeconds'' (cl_ClientTimeoutSeconds c) @ min_i 1 ''MetronPort'' (cl_MetronPort c)
     @ nonzero_s ''LogPrefix'' (cl_LogPrefix c)"

definition dec_client_Config :: "json \<Rightarrow> client_Config option" where
  "dec_client_Config j =
     (case members_of j of
        None \<Rightarrow> None
      | Some ms \<Rightarrow>
          if mistyped [''underlay_ip'', ''vxlan_interface_name'', ''overlay_network'', ''vtep_name'', ''connectivity_server_url'',
               ''ca_cert_file'', ''client_cert_file'', ''client_key_file'', ''datastore'', ''log_prefix'', ''log_level'']
               [''single_ip_only'']
               [''subnet_prefix_length'', ''vni'', ''vtep_port'', ''poll_interval'', ''debug_server_port'',
                ''partition_tolerance_seconds'', ''client_timeout_seconds'', ''metron_port'']
               [''health_check_port''] ms
          then None
          else Some \<lparr>cl_UnderlayIP = field_s ms ''underlay_ip'', cl_VxlanInterfaceName = field_s ms ''vxlan_interface_name'',
            cl_SubnetPrefixLength = field_i ms ''subnet_prefix_length'', cl_OverlayNetwork = field_s ms ''overlay_network'',
            cl_HealthCheckPort = field_u ms ''health_check_port'', cl_VTEPName = field_s ms ''vtep_name'',
            cl_ConnectivityServerURL = field_s ms ''connectivity_server_url'', cl_ServerCACertFile = field_s ms ''ca_cert_file'',
            cl_ClientCertFile = field_s ms ''client_cert_file'', cl_ClientKeyFile = field_s ms ''client_key_file'',
            cl_VNI = field_i ms ''vni'', cl_VTEPPort = field_i ms ''vtep_port'', cl_PollInterval = field_i ms ''poll_interval'',
            cl_DebugServerPort = field_i ms ''debug_server_port'', cl_Datastore = field_s ms ''datastore'',
            cl_PartitionToleranceSeconds = field_i ms ''partition_tolerance_seconds'',
            cl_ClientTimeoutSeconds = field_i ms ''client_timeout_seconds'', cl_MetronPort = field_i ms ''metron_port'',
            cl_LogPrefix = field_s ms ''log_prefix'', cl_LogLevel = field_s ms ''log_level'',
            cl_SingleIPOnly = field_b ms ''single_ip_only''\<rparr>)"

definition LoadConfig :: "'w ioutil \<Rightarrow> string \<Rightarrow> ('w, client_Config) op" where
  "LoadConfig io filePath =
     try_do (ReadFile io filePath) (errorf (''reading file '' @ filePath @ '': '')) (\<lambda>contents.
     try_do (pure (json_Unmarshal dec_client_Config contents)) (errorf ''unmarshaling contents: '') (\<lambda>cfg.
     try_do (pure (of_err (validator_Validate (check_client_Config cfg)))) (errorf ''invalid config: '') (\<lambda>_.
     ret cfg)))"

section \<open>Texts of numbers\<close>

lemma digits_itoa: "digits_val (itoa n) 0 = n"
proof (induction n rule: itoa.induct)
  case (1 n)
  show ?case
  proof (cases "n < 10")
    case True
    then show ?thesis by (simp add: itoa_small digit_table)
  next
    case False
    with 1 show ?thesis by (simp add: itoa_step digit_table)
  qed
qed

lemma itoa_no_leading_zero: "hd (itoa n) = CHR ''0'' \<Longrightarrow> itoa n = ''0''"
proof (induction n rule: itoa.induct)
  case (1 n)
  show ?case
  proof (cases "n < 10")
    case True
    with 1(2) show ?thesis by (simp add: itoa_small)
  next
    case False
    then have step: "itoa n = itoa (n div 10) @ [hexDigits ! (n mod 10)]" by (simp add: itoa_step)
    with 1(2) have "hd (itoa (n div 10)) = CHR ''0''" by (simp add: hd_append)
    with 1(1) False have "itoa (n div 10) = ''0''" by blast
    then have "n div 10 = 0" using digits_itoa [of "n div 10"] by (simp add: digit_val_def)
    with False show ?thesis by simp
  qed
qed

lemma hd_itoa: "is_digit (hd (itoa n))"
  by (rule itoa_digits [OF hd_in_set [OF itoa_not_Nil]])

lemma sprintf_d_text: "int_text (sprintf_d i)" "int_of_text (sprintf_d i) = i"
proof -
  have ok: "list_all is_digit (itoa n)" "itoa n \<noteq> []" "hd (itoa n) \<noteq> CHR ''-''" for n
    using itoa_digits hd_itoa [of n] not_digit(4) by (auto simp: list_all_iff)
  show "int_text (sprintf_d i)"
    using ok itoa_no_leading_zero by (simp add: int_text_def sprintf_d_def Let_def)
  show "int_of_text (sprintf_d i) = i"
    using ok by (simp add: int_of_text_def sprintf_d_def digits_itoa)
qed

lemma dec_enc_int:
  "int64 i \<Longrightarrow> dec_int64 (enc_int i) = Some i" "uint16 i \<Longrightarrow> dec_uint16 (enc_int i) = Some i"
  by (simp_all add: dec_int64_def dec_uint16_def enc_int_def sprintf_d_text int64_def uint16_def)

lemma enc_int_ok [simp]: "json_ok (enc_int i)" "enc_int i \<noteq> JNull"
  by (simp_all add: enc_int_def sprintf_d_text)

section \<open>Decoding a member\<close>

text \<open>When the members have different names, a field gets the value of its member.\<close>

definition distinct_keys :: "(string \<times> json) list \<Rightarrow> bool" where
  "distinct_keys ms \<longleftrightarrow> distinct (map (map lower \<circ> fst) ms)"

lemma decode_field_append:
  "decode_field dec name zero (ms @ [(k, v)]) =
     (case decode_field dec name zero ms of (x, bad) \<Rightarrow>
        if same_key k name \<and> v \<noteq> JNull then (case dec v of None \<Rightarrow> (x, True) | Some y \<Rightarrow> (y, bad)) else (x, bad))"
  by (simp add: decode_field_def case_prod_beta)

lemma decode_field_absent:
  "map lower name \<notin> set (map (map lower \<circ> fst) ms) \<Longrightarrow> decode_field dec name zero ms = (zero, False)"
proof (induction ms rule: rev_induct)
  case (snoc m ms)
  then show ?case by (cases m) (auto simp: decode_field_append same_key_def)
qed (simp add: decode_field_def)

lemma decode_field_member:
  assumes "distinct_keys ms" "(name, v) \<in> set ms" "v \<noteq> JNull" "dec v = Some x"
  shows "decode_field dec name zero ms = (x, False)"
  using assms(1,2)
proof (induction ms rule: rev_induct)
  case (snoc m ms)
  obtain k u where m: "m = (k, u)" by (cases m)
  show ?case
  proof (cases "(name, v) = m")
    case True
    with snoc.prems(1) m have "map lower name \<notin> set (map (map lower \<circ> fst) ms)" by (auto simp: distinct_keys_def)
    with True m assms(3,4) show ?thesis by (simp add: decode_field_append decode_field_absent same_key_def)
  next
    case False
    with snoc.prems m have "(name, v) \<in> set ms" by auto
    then have "(map lower \<circ> fst) (name, v) \<in> set (map (map lower \<circ> fst) ms)" by (simp only: set_map imageI)
    moreover have "map lower k \<notin> set (map (map lower \<circ> fst) ms)" using snoc.prems(1) m by (simp add: distinct_keys_def)
    ultimately have "map lower k \<noteq> map lower name" by (metis comp_apply fst_conv)
    then have "\<not> same_key k name" by (simp add: same_key_def)
    with snoc m \<open>(name, v) \<in> set ms\<close> show ?thesis by (simp add: decode_field_append distinct_keys_def)
  qed
qed simp

lemma decode_members:
  assumes "distinct_keys ms"
  shows "(n, JStr s) \<in> set ms \<Longrightarrow> decode_field dec_string n zs ms = (s, False)"
    "(n, JBool b) \<in> set ms \<Longrightarrow> decode_field dec_bool n zb ms = (b, False)"
    "(n, enc_int i) \<in> set ms \<Longrightarrow> int64 i \<Longrightarrow> decode_field dec_int64 n zi ms = (i, False)"
    "(n, enc_int i) \<in> set ms \<Longrightarrow> uint16 i \<Longrightarrow> decode_field dec_uint16 n zi ms = (i, False)"
  by (erule decode_field_member [OF assms]; simp add: dec_enc_int)+

section \<open>A configuration that is written is read back\<close>

definition db_Config_ok :: "db_Config \<Rightarrow> bool" where
  "db_Config_ok d \<longleftrightarrow> uint16 (db_Port d) \<and> int64 (db_Timeout d)"

definition controller_Config_ok :: "controller_Config \<Rightarrow> bool" where
  "controller_Config_ok c \<longleftrightarrow>
     db_Config_ok (Database c) \<and>
     list_all int64 [DebugServerPort c, ListenPort c, SubnetPrefixLength c, LeaseExpirationSeconds c, MetronPort c,
       HealthCheckPort c, MetricsEmitSeconds c, StalenessThresholdSeconds c, MaxIdleConnections c, MaxOpenConnections c,
       MaxConnectionsLifetimeSeconds c]"

fun members :: "json \<Rightarrow> (string \<times> json) list" where
  "members (JObj ms) = ms"
| "members _ = []"

lemma db_keys: "distinct_keys (members (enc_db_Config d))"
proof -
  have "distinct (map (map lower) [''type'', ''user'', ''password'', ''host'', ''port'', ''timeout'', ''database_name'',
      ''require_ssl'', ''ca_cert'', ''skip_hostname_validation''])" by code_simp
  then show ?thesis by (simp only: distinct_keys_def enc_db_Config_def members.simps list.map comp_apply fst_conv)
qed

lemma dec_enc_db_Config:
  assumes "db_Config_ok d"
  shows "dec_db_Config (enc_db_Config d) = Some d"
proof -
  let ?ms = "members (enc_db_Config d)"
  have eq: "enc_db_Config d = JObj ?ms" by (simp add: enc_db_Config_def)
  note f = decode_members [OF db_keys [of d]]
  note mem = enc_db_Config_def members.simps list.set_intros
  have fs: "decode_field dec_string ''type'' zero ?ms = (db_Type d, False)" "decode_field dec_string ''user'' zero ?ms = (db_User d, False)"
    "decode_field dec_string ''password'' zero ?ms = (db_Password d, False)" "decode_field dec_string ''host'' zero ?ms = (db_Host d, False)"
    "decode_field dec_string ''database_name'' zero ?ms = (db_DatabaseName d, False)"
    "decode_field dec_string ''ca_cert'' zero ?ms = (db_CACert d, False)" for zero
    by (rule f(1), simp only: mem)+
  have fb: "decode_field dec_bool ''require_ssl'' zero ?ms = (db_RequireSSL d, False)"
    "decode_field dec_bool ''skip_hostname_validation'' zero ?ms = (db_SkipHostnameValidation d, False)" for zero
    by (rule f(2), simp only: mem)+
  have fi: "decode_field dec_int64 ''timeout'' zero ?ms = (db_Timeout d, False)" for zero
    by (rule f(3), simp only: mem) (use assms in \<open>simp add: db_Config_ok_def\<close>)
  have fu: "decode_field dec_uint16 ''port'' zero ?ms = (db_Port d, False)" for zero
    by (rule f(4), simp only: mem) (use assms in \<open>simp add: db_Config_ok_def\<close>)
  show ?thesis
    by (subst eq) (simp add: dec_db_Config_def mistyped_def fs fb fi fu field_s_def field_b_def field_i_def field_u_def)
qed

lemma controller_keys: "distinct_keys (members (enc_controller_Config c))"
proof -
  have "distinct (map (map lower) [''debug_server_port'', ''listen_host'', ''listen_port'', ''ca_cert_file'', ''server_cert_file'',
      ''server_key_file'', ''network'', ''subnet_prefix_length'', ''database'', ''lease_expiration_seconds'', ''metron_port'',
      ''health_check_port'', ''metrics_emit_seconds'', ''staleness_threshold_seconds'', ''log_prefix'',
      ''max_idle_connections'', ''max_open_connections'', ''connections_max_lifetime_seconds''])" by code_simp
  then show ?thesis by (simp only: distinct_keys_def enc_controller_Config_def members.simps list.map comp_apply fst_conv)
qed

lemma dec_enc_controller_Config:
  assumes "controller_Config_ok c"
  shows "dec_controller_Config (enc_controller_Config c) = Some c"
proof -
  let ?ms = "members (enc_controller_Config c)"
  have eq: "enc_controller_Config c = JObj ?ms" by (simp add: enc_controller_Config_def)
  note f = decode_members [OF controller_keys [of c]]
  note mem = enc_controller_Config_def members.simps list.set_intros
  have fs: "decode_field dec_string ''listen_host'' zero ?ms = (ListenHost c, False)"
    "decode_field dec_string ''ca_cert_file'' zero ?ms = (CACertFile c, False)"
    "decode_field dec_string ''server_cert_file'' zero ?ms = (ServerCertFile c, False)"
    "decode_field dec_string ''server_key_file'' zero ?ms = (ServerKeyFile c, False)"
    "decode_field dec_string ''network'' zero ?ms = (Network c, False)"
    "decode_field dec_string ''log_prefix'' zero ?ms = (LogPrefix c, False)" for zero
    by (rule f(1), simp only: mem)+
  have ok: "list_all int64 [DebugServerPort c, ListenPort c, SubnetPrefixLength c, LeaseExpirationSeconds c, MetronPort c,
       HealthCheckPort c, MetricsEmitSeconds c, StalenessThresholdSeconds c, MaxIdleConnections c, MaxOpenConnections c,
       MaxConnectionsLifetimeSeconds c]" using assms by (simp add: controller_Config_ok_def)
  have fi: "decode_field dec_int64 ''debug_server_port'' zero ?ms = (DebugServerPort c, False)"
    "decode_field dec_int64 ''listen_port'' zero ?ms = (ListenPort c, False)"
    "decode_field dec_int64 ''subnet_prefix_length'' zero ?ms = (SubnetPrefixLength c, False)"
    "decode_field dec_int64 ''lease_expiration_seconds'' zero ?ms = (LeaseExpirationSeconds c, False)"
    "decode_field dec_int64 ''metron_port'' zero ?ms = (MetronPort c, False)"
    "decode_field dec_int64 ''health_check_port'' zero ?ms = (HealthCheckPort c, False)"
    "decode_field dec_int64 ''metrics_emit_seconds'' zero ?ms = (MetricsEmitSeconds c, False)"
    "decode_field dec_int64 ''staleness_threshold_seconds'' zero ?ms = (StalenessThresholdSeconds c, False)"
    "decode_field dec_int64 ''max_idle_connections'' zero ?ms = (MaxIdleConnections c, False)"
    "decode_field dec_int64 ''max_open_connections'' zero ?ms = (MaxOpenConnections c, False)"
    "decode_field dec_int64 ''connections_max_lifetime_seconds'' zero ?ms = (MaxConnectionsLifetimeSeconds c, False)" for zero
    by (rule f(3), simp only: mem, use ok in simp)+
  have fd: "decode_field dec_db_Config ''database'' zero ?ms = (Database c, False)" for zero
    by (rule decode_field_member [OF controller_keys, of _ "enc_db_Config (Database c)"], simp only: mem)
       (use assms in \<open>simp_all add: enc_db_Config_def [of "Database c"] controller_Config_ok_def
          dec_enc_db_Config [unfolded enc_db_Config_def]\<close>)
  show ?thesis
    by (subst eq) (simp add: dec_controller_Config_def mistyped_def fs fi fd field_s_def field_i_def)
qed

lemma controller_json_ok: "json_ok (enc_controller_Config c)"
  by (simp add: enc_controller_Config_def enc_db_Config_def)

text \<open>What the program relies on of the file system: a file that was written is read back, other files stay.\<close>

locale file_system =
  fixes io :: "'w ioutil" and content :: "'w \<Rightarrow> string \<Rightarrow> string option"
  assumes write_file: "WriteFile io path bytes w = (Inr u, w') \<Longrightarrow> content w' = (content w)(path := Some bytes)"
    and read_file: "ReadFile io path w = (Inr bytes, w') \<Longrightarrow> content w path = Some bytes \<and> content w' = content w"
begin

lemma written_is_read:
  assumes "WriteToFile io c path w = (Inr u, w')" "controller_Config_ok c" "check_controller_Config c = []"
    and "ReadFile io path w' = (Inr bytes, w'')"
  shows "ReadFromFile io path w' = (Inr c, w'')"
proof -
  from assms(1) obtain w1 where "WriteFile io path (json_text (enc_controller_Config c)) w = (Inr (), w1)" "w' = w1"
    by (auto simp: WriteToFile_def try_do_Inr json_Marshal_def)
  with write_file read_file [OF assms(4)] have "bytes = json_text (enc_controller_Config c)"
    by (metis fun_upd_same option.inject)
  then have "json_Unmarshal dec_controller_Config bytes = Inr c"
    by (simp add: json_Unmarshal_text controller_json_ok dec_enc_controller_Config assms(2))
  with assms(3,4) show ?thesis by (simp add: ReadFromFile_def validator_Validate_def)
qed

end

text \<open>A file system in memory: the world is the content of the files.\<close>

definition mem_files :: "(string \<Rightarrow> string option) ioutil" where
  "mem_files =
     \<lparr>ReadFile = \<lambda>path w. (case w path of None \<Rightarrow> (Inl (ErrorString (''open '' @ path @ '': no such file or directory'')), w)
                        | Some b \<Rightarrow> (Inr b, w)),
      WriteFile = \<lambda>path b w. (Inr (), w(path := Some b))\<rparr>"

interpretation mem: file_system mem_files "\<lambda>w. w"
  by unfold_locales (auto simp: mem_files_def split: option.splits)

end
