(* ===== verification/Vtep.thy ===== *)
theory Vtep
  imports Netlink Lease Config_Files
begin

text \<open>
  The VXLAN device of a host (\<^verbatim>\<open>daemon/vtep\<close>): the configuration of the device, its creation and discovery, and the
  converger that makes the routes and neighbour entries of the device those of the leases.  The converger is
  written against the interface \<open>netlinkAdapter\<close>.
\<close>

section \<open>Definitions\<close>

subsection \<open>Interfaces\<close>

record 'w netAdapter =
  na_Interfaces :: "('w, Interface list) op"
  na_InterfaceAddrs :: "Interface \<Rightarrow> ('w, string list) op"
  na_InterfaceByName :: "string \<Rightarrow> ('w, Interface) op"

record 'w netlinkAdapter =
  nl_LinkSetUp :: "Link \<Rightarrow> ('w, unit) op"
  nl_LinkAdd :: "Link \<Rightarrow> ('w, unit) op"
  nl_LinkByName :: "string \<Rightarrow> ('w, Link) op"
  nl_LinkByIndex :: "int \<Rightarrow> ('w, Link) op"
  nl_LinkSetHardwareAddr :: "Link \<Rightarrow> HardwareAddr \<Rightarrow> ('w, unit) op"
  nl_AddrAddScopeLink :: "Link \<Rightarrow> Addr \<Rightarrow> ('w, unit) op"
  nl_AddrList :: "Link \<Rightarrow> int \<Rightarrow> ('w, Addr list) op"
  nl_RouteAdd :: "Route \<Rightarrow> ('w, unit) op"
  nl_RouteReplace :: "Route \<Rightarrow> ('w, unit) op"
  nl_RouteList :: "Link \<Rightarrow> int \<Rightarrow> ('w, Route list) op"
  nl_RouteDel :: "Route \<Rightarrow> ('w, unit) op"
  nl_LinkDel :: "Link \<Rightarrow> ('w, unit) op"
  nl_NeighSet :: "Neigh \<Rightarrow> ('w, unit) op"
  nl_ARPList :: "int \<Rightarrow> ('w, Neigh list) op"
  nl_FDBList :: "int \<Rightarrow> ('w, Neigh list) op"
  nl_NeighDel :: "Neigh \<Rightarrow> ('w, unit) op"

definition as_netAdapter :: "'w kernel \<Rightarrow> 'w netAdapter" where
  "as_netAdapter k = \<lparr>na_Interfaces = Interfaces k, na_InterfaceAddrs = InterfaceAddrs k, na_InterfaceByName = InterfaceByName k\<rparr>"

definition as_netlinkAdapter :: "'w kernel \<Rightarrow> 'w netlinkAdapter" where
  "as_netlinkAdapter k =
     \<lparr>nl_LinkSetUp = LinkSetUp k, nl_LinkAdd = LinkAdd k, nl_LinkByName = LinkByName k, nl_LinkByIndex = LinkByIndex k,
      nl_LinkSetHardwareAddr = LinkSetHardwareAddr k, nl_AddrAddScopeLink = AddrAddScopeLink k, nl_AddrList = AddrList k,
      nl_RouteAdd = RouteAdd k, nl_RouteReplace = RouteReplace k, nl_RouteList = RouteList k, nl_RouteDel = RouteDel k,
      nl_LinkDel = LinkDel k, nl_NeighSet = NeighSet k, nl_ARPList = ARPList k, nl_FDBList = FDBList k, nl_NeighDel = NeighDel k\<rparr>"

subsection \<open>Configuration of the device\<close>

record vtep_Config =
  vc_VTEPName :: string
  vc_UnderlayInterface :: Interface
  vc_UnderlayIP :: IP
  vc_OverlayIP :: IP
  vc_OverlayHardwareAddr :: HardwareAddr
  vc_VNI :: int
  vc_OverlayNetworkPrefixLength :: int
  vc_VTEPPort :: int

record 'w vtep_ConfigCreator =
  cc_NetAdapter :: "'w netAdapter"

text \<open>The addresses of one interface: \<open>Inr True\<close> when one of them is the address looked for.\<close>

fun address_matches :: "IP \<Rightarrow> string list \<Rightarrow> bool result" where
  "address_matches toFind [] = Inr False"
| "address_matches toFind (addr # addrs) =
     (case ParseCIDR addr of
        Inl err \<Rightarrow> Inl (errorf ''parse address: '' err)
      | Inr (ip, _) \<Rightarrow> if IP_String ip = IP_String toFind then Inr True else address_matches toFind addrs)"

fun locate_loop :: "'w netAdapter \<Rightarrow> IP \<Rightarrow> Interface list \<Rightarrow> ('w, Interface) op" where
  "locate_loop na toFind [] = fail (ErrorString (''no interface with address '' @ IP_String toFind))"
| "locate_loop na toFind (iface # ifaces) =
     try_do (na_InterfaceAddrs na iface) (errorf ''get addresses: '') (\<lambda>addrs.
     try_do (pure (address_matches toFind addrs)) unchanged (\<lambda>found.
     if found then ret iface else locate_loop na toFind ifaces))"

definition locateInterface :: "'w vtep_ConfigCreator \<Rightarrow> IP \<Rightarrow> ('w, Interface) op" where
  "locateInterface c toFind =
     try_do (na_Interfaces (cc_NetAdapter c)) (errorf ''find interfaces: '') (\<lambda>ifaces.
     locate_loop (cc_NetAdapter c) toFind ifaces)"

definition ConfigCreator_Create :: "'w vtep_ConfigCreator \<Rightarrow> client_Config \<Rightarrow> Lease \<Rightarrow> ('w, vtep_Config) op" where
  "ConfigCreator_Create c clientConf lease =
     (if cl_VTEPName clientConf = [] then fail (ErrorString ''empty vtep name'')
      else if cl_VTEPPort clientConf < 1 then fail (ErrorString ''vtep port must be greater than 0'')
      else case ParseIP (cl_UnderlayIP clientConf) of
        None \<Rightarrow> fail (ErrorString (''parse underlay ip: '' @ cl_UnderlayIP clientConf))
      | Some underlayIP \<Rightarrow>
          try_do
            (if cl_VxlanInterfaceName clientConf \<noteq> []
             then try_do (na_InterfaceByName (cc_NetAdapter c) (cl_VxlanInterfaceName clientConf))
                    (errorf (''find device from name '' @ cl_VxlanInterfaceName clientConf @ '': '')) ret
             else try_do (locateInterface c underlayIP)
                    (errorf (''find device from ip '' @ IP_String underlayIP @ '': '')) ret)
            unchanged (\<lambda>underlayInterface.
          try_do (pure (ParseCIDR (OverlaySubnet lease))) (errorf ''determine vtep overlay ip: '') (\<lambda>(overlayIP, _).
          try_do (pure (ParseMAC (OverlayHardwareAddr lease))) (errorf ''parsing hardware address: '') (\<lambda>overlayHardwareAddr.
          try_do (pure (ParseCIDR (cl_OverlayNetwork clientConf))) (errorf ''determine overlay network: '') (\<lambda>(_, overlayNetwork).
          (let overlayNetworkPrefixLength = int (fst (Mask_Size (IPNet_Mask overlayNetwork))) in
           if overlayNetworkPrefixLength \<ge> cl_SubnetPrefixLength clientConf then
             fail (ErrorString (''overlay prefix '' @ sprintf_d overlayNetworkPrefixLength @ '' must be smaller than subnet prefix ''
               @ sprintf_d (cl_SubnetPrefixLength clientConf)))
           else
             ret \<lparr>vc_VTEPName = cl_VTEPName clientConf, vc_UnderlayInterface = underlayInterface, vc_UnderlayIP = underlayIP,
               vc_OverlayIP = overlayIP, vc_OverlayHardwareAddr = overlayHardwareAddr, vc_VNI = cl_VNI clientConf,
               vc_OverlayNetworkPrefixLength = overlayNetworkPrefixLength, vc_VTEPPort = cl_VTEPPort clientConf\<rparr>))))))"

subsection \<open>The device\<close>

record 'w Factory =
  fa_NetlinkAdapter :: "'w netlinkAdapter"

definition vxlan_link :: "vtep_Config \<Rightarrow> Link" where
  "vxlan_link cfg =
     \<lparr>lk_Index = 0, lk_Name = vc_VTEPName cfg, lk_HardwareAddr = vc_OverlayHardwareAddr cfg, lk_MTU = 0, lk_Up = False,
      lk_kind = Vxlan (vc_VNI cfg) (vc_UnderlayIP cfg) (vc_VTEPPort cfg) (if_Index (vc_UnderlayInterface cfg)) True\<rparr>"

definition CreateVTEP :: "'w Factory \<Rightarrow> vtep_Config \<Rightarrow> ('w, unit) op" where
  "CreateVTEP f cfg =
     (let nl = fa_NetlinkAdapter f; vxlan = vxlan_link cfg;
          overlayNetworkMask = CIDRMask (vc_OverlayNetworkPrefixLength cfg) 32
      in try_do (nl_LinkAdd nl vxlan) (errorf (''create link '' @ vc_VTEPName cfg @ '': '')) (\<lambda>_.
         try_do (nl_LinkSetUp nl vxlan) (errorf ''up link: '') (\<lambda>_.
         try_do (nl_AddrAddScopeLink nl vxlan
             \<lparr>ad_IPNet = \<lparr>IPNet_IP = vc_OverlayIP cfg, IPNet_Mask = overlayNetworkMask\<rparr>, ad_Peer = None, ad_Scope = 0\<rparr>)
           (errorf ''add address: '') (\<lambda>_.
         ret ()))))"

definition DeleteVTEP :: "'w Factory \<Rightarrow> string \<Rightarrow> ('w, unit) op" where
  "DeleteVTEP f deviceName =
     try_do (nl_LinkByName (fa_NetlinkAdapter f) deviceName) (errorf (''find link '' @ deviceName @ '': '')) (\<lambda>link.
     try_do (nl_LinkDel (fa_NetlinkAdapter f) link) (errorf (''delete link '' @ deviceName @ '': '')) (\<lambda>_.
     ret ()))"

definition GetVTEPState :: "'w Factory \<Rightarrow> string \<Rightarrow> ('w, HardwareAddr \<times> IP \<times> int) op" where
  "GetVTEPState f vtepName =
     try_do (nl_LinkByName (fa_NetlinkAdapter f) vtepName) (errorf ''find link: '') (\<lambda>link.
     try_do (nl_AddrList (fa_NetlinkAdapter f) link FAMILY_V4) (errorf ''list addresses: '') (\<lambda>addresses.
     (case addresses of
        [] \<Rightarrow> fail (ErrorString ''no addresses'')
      | a # _ \<Rightarrow> ret (lk_HardwareAddr link, IPNet_IP (ad_IPNet a), lk_MTU link))))"

subsection \<open>The converger\<close>

record 'w Converger =
  cv_OverlayNetwork :: IPNet
  cv_LocalSubnet :: IPNet
  cv_LocalVTEP :: Interface
  cv_NetlinkAdapter :: "'w netlinkAdapter"

definition isLocal :: "'w Converger \<Rightarrow> IPNet \<Rightarrow> bool" where
  "isLocal c destNet \<longleftrightarrow> IPNet_String destNet = IPNet_String (cv_LocalSubnet c)"

definition routeEqual :: "Route \<Rightarrow> Route \<Rightarrow> bool" where
  "routeEqual r1 r2 \<longleftrightarrow>
     ro_LinkIndex r1 = ro_LinkIndex r2 \<and> ro_Scope r1 = ro_Scope r2 \<and> Dst_String (ro_Dst r1) = Dst_String (ro_Dst r2) \<and>
     IP_String (ro_Gw r1) = IP_String (ro_Gw r2) \<and> IP_String (ro_Src r1) = IP_String (ro_Src r2)"

definition neighEqual :: "Neigh \<Rightarrow> Neigh \<Rightarrow> bool" where
  "neighEqual n1 n2 \<longleftrightarrow>
     ne_LinkIndex n1 = ne_LinkIndex n2 \<and> ne_State n1 = ne_State n2 \<and> IP_String (ne_IP n1) = IP_String (ne_IP n2) \<and>
     HardwareAddr_String (ne_HardwareAddr n1) = HardwareAddr_String (ne_HardwareAddr n2)"

definition getDeletedRoutes :: "Route list \<Rightarrow> Route list \<Rightarrow> Route list" where
  "getDeletedRoutes previous current =
     foldl (\<lambda>deletedRoutes previousRoute.
        let isRemoved = foldl (\<lambda>isRemoved currentRoute. isRemoved \<and> \<not> routeEqual previousRoute currentRoute) True current
        in if isRemoved then deletedRoutes @ [previousRoute] else deletedRoutes) [] previous"

definition getDeletedNeighs :: "Neigh list \<Rightarrow> Neigh list \<Rightarrow> Neigh list" where
  "getDeletedNeighs previous current =
     foldl (\<lambda>deletedNeighs previousNeigh.
        let isRemoved = foldl (\<lambda>isRemoved currentNeigh. isRemoved \<and> \<not> neighEqual previousNeigh currentNeigh) True current
        in if isRemoved then deletedNeighs @ [previousNeigh] else deletedNeighs) [] previous"

definition getPreviousState :: "'w Converger \<Rightarrow> ('w, Route list \<times> Neigh list) op" where
  "getPreviousState c =
     (let nl = cv_NetlinkAdapter c; index = if_Index (cv_LocalVTEP c)
      in try_do (nl_LinkByIndex nl index) (errorf ''link by index: '') (\<lambda>link.
         try_do (nl_RouteList nl link FAMILY_V4) (errorf ''list routes: '') (\<lambda>previousRoutes.
         try_do (nl_FDBList nl index) (errorf ''list fdb: '') (\<lambda>previousFDBNeighs.
         try_do (nl_ARPList nl index) (errorf ''list arp: '') (\<lambda>previousARPNeighs.
         ret (previousRoutes, previousARPNeighs @ previousFDBNeighs))))))"

definition route_to :: "'w Converger \<Rightarrow> IPNet \<Rightarrow> IP \<Rightarrow> Route" where
  "route_to c destNet destAddr =
     \<lparr>ro_LinkIndex = if_Index (cv_LocalVTEP c), ro_Scope = SCOPE_UNIVERSE, ro_Dst = Some destNet, ro_Gw = destAddr,
      ro_Src = IPNet_IP (cv_LocalSubnet c)\<rparr>"

definition addRoute :: "'w Converger \<Rightarrow> IPNet \<Rightarrow> IP \<Rightarrow> ('w, Route) op" where
  "addRoute c destNet destAddr =
     (let route = route_to c destNet destAddr
      in try_do (nl_RouteReplace (cv_NetlinkAdapter c) route) (errorf ''add route: '') (\<lambda>_. ret route))"

definition arp_entry :: "'w Converger \<Rightarrow> IP \<Rightarrow> HardwareAddr \<Rightarrow> Neigh" where
  "arp_entry c destAddr remoteMac =
     \<lparr>ne_LinkIndex = if_Index (cv_LocalVTEP c), ne_Family = 0, ne_State = NUD_PERMANENT, ne_Type = RTN_UNICAST, ne_Flags = 0,
      ne_IP = destAddr, ne_HardwareAddr = remoteMac\<rparr>"

definition fdb_entry :: "'w Converger \<Rightarrow> IP \<Rightarrow> HardwareAddr \<Rightarrow> Neigh" where
  "fdb_entry c underlayIP remoteMac =
     \<lparr>ne_LinkIndex = if_Index (cv_LocalVTEP c), ne_Family = AF_BRIDGE, ne_State = NUD_PERMANENT, ne_Type = 0, ne_Flags = NTF_SELF,
      ne_IP = underlayIP, ne_HardwareAddr = remoteMac\<rparr>"

fun set_neighs :: "'w netlinkAdapter \<Rightarrow> Neigh list \<Rightarrow> Neigh list \<Rightarrow> ('w, Neigh list) op" where
  "set_neighs nl currentNeighs [] = ret currentNeighs"
| "set_neighs nl currentNeighs (neigh # neighs) =
     try_do (nl_NeighSet nl neigh) (errorf ''set neigh: '') (\<lambda>_. set_neighs nl (currentNeighs @ [neigh]) neighs)"

definition addNeighs :: "'w Converger \<Rightarrow> IP \<Rightarrow> IP \<Rightarrow> HardwareAddr \<Rightarrow> ('w, Neigh list) op" where
  "addNeighs c underlayIP destAddr remoteMac =
     set_neighs (cv_NetlinkAdapter c) [] [arp_entry c destAddr remoteMac, fdb_entry c underlayIP remoteMac]"

text \<open>The loop over the leases; the count of leases outside the network is only logged.\<close>

fun lease_loop :: "'w Converger \<Rightarrow> Route list \<Rightarrow> Neigh list \<Rightarrow> Lease list \<Rightarrow> ('w, Route list \<times> Neigh list) op" where
  "lease_loop c currentRoutes currentNeighs [] = ret (currentRoutes, currentNeighs)"
| "lease_loop c currentRoutes currentNeighs (lease # leases) =
     try_do (pure (ParseCIDR (OverlaySubnet lease))) (errorf ''parse lease: '') (\<lambda>(destAddr, destNet).
     if isLocal c destNet then lease_loop c currentRoutes currentNeighs leases
     else if \<not> Contains (cv_OverlayNetwork c) (IPNet_IP destNet) then lease_loop c currentRoutes currentNeighs leases
     else
       try_do (addRoute c destNet destAddr) unchanged (\<lambda>route.
       (case ParseIP (UnderlayIP lease) of
          None \<Rightarrow> fail (ErrorString (''invalid underlay ip: '' @ UnderlayIP lease))
        | Some underlayIP \<Rightarrow>
            (case ParseMAC (OverlayHardwareAddr lease) of
               Inl _ \<Rightarrow> fail (ErrorString (''invalid hardware addr: '' @ OverlayHardwareAddr lease))
             | Inr remoteMac \<Rightarrow>
                 try_do (addNeighs c underlayIP destAddr remoteMac) unchanged (\<lambda>neighs.
                 lease_loop c (currentRoutes @ [route]) (currentNeighs @ neighs) leases)))))"

text \<open>\<^verbatim>\<open>Neigh.String\<close> of the netlink package.\<close>

definition Neigh_String :: "Neigh \<Rightarrow> string" where
  "Neigh_String n = IP_String (ne_IP n) @ '' '' @ HardwareAddr_String (ne_HardwareAddr n)"

definition Converge :: "'w Converger \<Rightarrow> Lease list \<Rightarrow> ('w, unit) op" where
  "Converge c leases =
     (let nl = cv_NetlinkAdapter c; index = if_Index (cv_LocalVTEP c)
      in try_do (getPreviousState c) unchanged (\<lambda>(previousRoutes, previousNeighs).
         try_do (lease_loop c [] [] leases) unchanged (\<lambda>(currentRoutes, currentNeighs).
         try_do
           (for_each (getDeletedRoutes previousRoutes currentRoutes) (\<lambda>route.
              if ro_LinkIndex route = index \<and> Contains (cv_OverlayNetwork c) (ro_Gw route)
              then try_do (nl_RouteDel nl route) (errorf ''del route: '') ret
              else ret ())) unchanged (\<lambda>_.
         for_each (getDeletedNeighs previousNeighs currentNeighs) (\<lambda>neigh.
           if ne_LinkIndex neigh = index
           then try_do (nl_NeighDel nl neigh) (errorf (''del neigh with ip/hwaddr '' @ Neigh_String neigh @ '': '')) ret
           else ret ())))))"

end
