(* ===== verification/Converger_Tables.thy ===== *)
theory Converger_Tables
  imports Vtep
begin

text \<open>
  What the converger relies on of the kernel's routing and neighbour tables (locale \<open>kernel_tables\<close>) and
  what it makes of them.  A table is a set of entries in the form the kernel lists them; setting an entry replaces
  the one in its slot: a route is found by its destination, an ARP entry by its address, a
  forwarding entry by its hardware address.  A failed request changes no table.
\<close>

section \<open>Definitions\<close>

definition canon_IP :: "IP \<Rightarrow> IP" where
  "canon_IP ip = (if To4 ip \<noteq> [] then To4 ip else ip)"

definition canon_route :: "Route \<Rightarrow> Route" where
  "canon_route r = r\<lparr>ro_Gw := canon_IP (ro_Gw r), ro_Src := canon_IP (ro_Src r)\<rparr>"

definition neigh_family :: "Neigh \<Rightarrow> int" where
  "neigh_family n =
     (if ne_Family n > 0 then ne_Family n else if length (ne_IP n) \<le> 4 \<or> To4 (ne_IP n) \<noteq> [] then FAMILY_V4 else 10)"

definition canon_neigh :: "Neigh \<Rightarrow> Neigh" where
  "canon_neigh n = n\<lparr>ne_Family := neigh_family n, ne_IP := canon_IP (ne_IP n)\<rparr>"

definition same_dst :: "Route \<Rightarrow> Route \<Rightarrow> bool" where
  "same_dst q r \<longleftrightarrow> Dst_String (ro_Dst q) = Dst_String (ro_Dst r)"

definition same_table :: "Neigh \<Rightarrow> Neigh \<Rightarrow> bool" where
  "same_table q n \<longleftrightarrow> neigh_family q = neigh_family n \<and> ne_LinkIndex q = ne_LinkIndex n"

definition same_slot :: "Neigh \<Rightarrow> Neigh \<Rightarrow> bool" where
  "same_slot q n \<longleftrightarrow> same_table q n \<and>
     (if neigh_family n = AF_BRIDGE then ne_HardwareAddr q = ne_HardwareAddr n else IP_String (ne_IP q) = IP_String (ne_IP n))"

text \<open>The entries a request to delete \<open>n\<close> removes.\<close>

definition deletes :: "Neigh \<Rightarrow> Neigh \<Rightarrow> bool" where
  "deletes n q \<longleftrightarrow> same_table q n \<and> IP_String (ne_IP q) = IP_String (ne_IP n) \<and>
     (neigh_family n = AF_BRIDGE \<longrightarrow> ne_HardwareAddr q = ne_HardwareAddr n)"

definition replace_route :: "Route \<Rightarrow> Route set \<Rightarrow> Route set" where
  "replace_route r R = insert (canon_route r) {q \<in> R. \<not> same_dst q r}"

definition set_neigh :: "Neigh \<Rightarrow> Neigh set \<Rightarrow> Neigh set" where
  "set_neigh n N = insert (canon_neigh n) {q \<in> N. \<not> same_slot q n}"

text \<open>The peers among the leases: those with a subnet in the network that is not the local one.\<close>

type_synonym peer = "IPNet \<times> IP \<times> IP \<times> HardwareAddr"

definition peer_of :: "'w Converger \<Rightarrow> Lease \<Rightarrow> peer option" where
  "peer_of c l =
     (case ParseCIDR (OverlaySubnet l) of
        Inl _ \<Rightarrow> None
      | Inr (addr, net) \<Rightarrow>
          if isLocal c net \<or> \<not> Contains (cv_OverlayNetwork c) (IPNet_IP net) then None
          else case (ParseIP (UnderlayIP l), ParseMAC (OverlayHardwareAddr l)) of
            (Some u, Inr m) \<Rightarrow> Some (net, addr, u, m)
          | _ \<Rightarrow> None)"

definition peers :: "'w Converger \<Rightarrow> Lease list \<Rightarrow> peer list" where
  "peers c leases = List.map_filter (peer_of c) leases"

definition peer_route :: "'w Converger \<Rightarrow> peer \<Rightarrow> Route" where
  "peer_route c p = (case p of (net, addr, u, m) \<Rightarrow> route_to c net addr)"

definition peer_neighs :: "'w Converger \<Rightarrow> peer \<Rightarrow> Neigh list" where
  "peer_neighs c p = (case p of (net, addr, u, m) \<Rightarrow> [arp_entry c addr m, fdb_entry c u m])"

definition wanted_routes :: "'w Converger \<Rightarrow> Lease list \<Rightarrow> Route list" where
  "wanted_routes c leases = map (peer_route c) (peers c leases)"

definition wanted_neighs :: "'w Converger \<Rightarrow> Lease list \<Rightarrow> Neigh list" where
  "wanted_neighs c leases = concat (map (peer_neighs c) (peers c leases))"

text \<open>Different peers have different subnets, overlay addresses and hardware addresses.\<close>

definition peers_distinct :: "'w Converger \<Rightarrow> Lease list \<Rightarrow> bool" where
  "peers_distinct c leases \<longleftrightarrow>
     distinct (map (\<lambda>(net, addr, u, m). IPNet_String net) (peers c leases)) \<and>
     distinct (map (\<lambda>(net, addr, u, m). IP_String addr) (peers c leases)) \<and>
     distinct (map (\<lambda>(net, addr, u, m). m) (peers c leases))"

section \<open>The contract\<close>

locale kernel_tables =
  fixes nl :: "'w netlinkAdapter"
    and routes :: "'w \<Rightarrow> Route set"
    and neighs :: "'w \<Rightarrow> Neigh set"
  assumes link_by_index: "nl_LinkByIndex nl i w = (rl, w') \<Longrightarrow>
      routes w' = routes w \<and> neighs w' = neighs w \<and> (\<forall>l. rl = Inr l \<longrightarrow> lk_Index l = i)"
    and route_list: "nl_RouteList nl l FAMILY_V4 w = (rr, w') \<Longrightarrow>
      routes w' = routes w \<and> neighs w' = neighs w \<and> (\<forall>rs. rr = Inr rs \<longrightarrow> set rs = {q \<in> routes w. ro_LinkIndex q = lk_Index l})"
    and fdb_list: "nl_FDBList nl i w = (rn, w') \<Longrightarrow>
      routes w' = routes w \<and> neighs w' = neighs w \<and>
      (\<forall>ns. rn = Inr ns \<longrightarrow> set ns = {q \<in> neighs w. neigh_family q = AF_BRIDGE \<and> ne_LinkIndex q = i})"
    and arp_list: "nl_ARPList nl i w = (rn, w') \<Longrightarrow>
      routes w' = routes w \<and> neighs w' = neighs w \<and>
      (\<forall>ns. rn = Inr ns \<longrightarrow> set ns = {q \<in> neighs w. neigh_family q = FAMILY_V4 \<and> ne_LinkIndex q = i})"
    and route_replace: "nl_RouteReplace nl r w = (ru, w') \<Longrightarrow>
      neighs w' = neighs w \<and> routes w' = (case ru of Inl _ \<Rightarrow> routes w | Inr _ \<Rightarrow> replace_route r (routes w))"
    and route_del: "nl_RouteDel nl r w = (ru, w') \<Longrightarrow>
      neighs w' = neighs w \<and> routes w' = (case ru of Inl _ \<Rightarrow> routes w | Inr _ \<Rightarrow> routes w - {r})"
    and neigh_set: "nl_NeighSet nl n w = (ru, w') \<Longrightarrow>
      routes w' = routes w \<and> neighs w' = (case ru of Inl _ \<Rightarrow> neighs w | Inr _ \<Rightarrow> set_neigh n (neighs w))"
    and neigh_del: "nl_NeighDel nl n w = (ru, w') \<Longrightarrow>
      routes w' = routes w \<and> neighs w' = (case ru of Inl _ \<Rightarrow> neighs w | Inr _ \<Rightarrow> {q \<in> neighs w. \<not> deletes n q})"

section \<open>Texts of canonical values\<close>

lemma To4_To4 [simp]: "To4 ip \<noteq> [] \<Longrightarrow> To4 (To4 ip) = To4 ip"
  by (auto simp: To4_def split: if_splits)

lemma To4_lengths: "To4 ip \<noteq> [] \<Longrightarrow> length (To4 ip) = 4 \<and> (length ip = 4 \<or> length ip = 16)"
  by (auto simp: To4_def split: if_splits)

lemma IP_String_canon [simp]: "IP_String (canon_IP ip) = IP_String ip"
proof (cases "To4 ip = []")
  case False
  with To4_lengths [OF False] have "ip \<noteq> []" "To4 ip \<noteq> []" by auto
  with False To4_lengths [OF False] show ?thesis by (auto simp: canon_IP_def IP_String_def)
qed (simp add: canon_IP_def)

lemma Contains_canon [simp]: "Contains n (canon_IP ip) = Contains n ip"
  by (simp add: Contains_def canon_IP_def)

lemma canon_route_simps [simp]:
  "ro_LinkIndex (canon_route r) = ro_LinkIndex r" "ro_Dst (canon_route r) = ro_Dst r"
  "Contains n (ro_Gw (canon_route r)) = Contains n (ro_Gw r)"
  "routeEqual (canon_route r) r"
  by (simp_all add: canon_route_def routeEqual_def)

lemma routeEqual_sym: "routeEqual a b \<longleftrightarrow> routeEqual b a"
  by (auto simp: routeEqual_def)

lemma routeEqual_trans: "routeEqual a b \<Longrightarrow> routeEqual b d \<Longrightarrow> routeEqual a d"
  by (auto simp: routeEqual_def)

lemma neighEqual_sym: "neighEqual a b \<longleftrightarrow> neighEqual b a"
  by (auto simp: neighEqual_def)

lemma neigh_family_canon [simp]: "neigh_family (canon_neigh n) = neigh_family n"
proof -
  have "neigh_family n > 0" by (auto simp: neigh_family_def FAMILY_V4_def)
  then show ?thesis by (simp add: canon_neigh_def neigh_family_def [of "n\<lparr>ne_Family := _, ne_IP := _\<rparr>"])
qed

lemma canon_neigh_simps [simp]:
  "ne_LinkIndex (canon_neigh n) = ne_LinkIndex n" "ne_HardwareAddr (canon_neigh n) = ne_HardwareAddr n"
  "ne_State (canon_neigh n) = ne_State n" "IP_String (ne_IP (canon_neigh n)) = IP_String (ne_IP n)"
  "neighEqual (canon_neigh n) n"
  by (simp_all add: canon_neigh_def neighEqual_def)

lemma canon_route_in: "r \<in> A \<Longrightarrow> \<exists>x\<in>A. routeEqual (canon_route r) x"
  using canon_route_simps(4) by blast

lemma canon_neigh_in: "n \<in> A \<Longrightarrow> \<exists>x\<in>A. neighEqual (canon_neigh n) x"
  using canon_neigh_simps(5) by blast

section \<open>The reference definitions of the differences\<close>

lemma foldl_conj: "foldl (\<lambda>b x. b \<and> P x) b xs \<longleftrightarrow> b \<and> list_all P xs"
  by (induction xs arbitrary: b) auto

lemma foldl_filter: "foldl (\<lambda>acc x. if P x then acc @ [x] else acc) acc xs = acc @ filter P xs"
  by (induction xs arbitrary: acc) auto

lemma getDeletedRoutes_filter:
  "getDeletedRoutes previous current = filter (\<lambda>p. list_all (\<lambda>q. \<not> routeEqual p q) current) previous"
  by (simp add: getDeletedRoutes_def Let_def foldl_conj foldl_filter)

lemma getDeletedNeighs_filter:
  "getDeletedNeighs previous current = filter (\<lambda>p. list_all (\<lambda>q. \<not> neighEqual p q) current) previous"
  by (simp add: getDeletedNeighs_def Let_def foldl_conj foldl_filter)

section \<open>What a run does to the tables\<close>

definition keep_other :: "(Route \<Rightarrow> bool) \<Rightarrow> Route set \<Rightarrow> Route set" where
  "keep_other P R = {q \<in> R. \<not> P q}"

lemma fold_replace_subset: "fold replace_route rs R \<subseteq> canon_route ` set rs \<union> R"
  by (induction rs arbitrary: R) (auto simp: replace_route_def)

lemma fold_replace_keeps:
  assumes "q \<in> R" "\<And>r. r \<in> set rs \<Longrightarrow> \<not> same_dst q r"
  shows "q \<in> fold replace_route rs R"
  using assms by (induction rs arbitrary: R) (auto simp: replace_route_def)

lemma fold_replace_has:
  assumes "r \<in> set rs" "distinct (map (\<lambda>r. Dst_String (ro_Dst r)) rs)"
  shows "canon_route r \<in> fold replace_route rs R"
  using assms
proof (induction rs arbitrary: R)
  case (Cons x rs)
  show ?case
  proof (cases "r = x")
    case True
    have "canon_route x \<in> replace_route x R" by (simp add: replace_route_def)
    moreover have "\<not> same_dst (canon_route x) r'" if "r' \<in> set rs" for r'
      using that Cons.prems(2) by (auto simp: same_dst_def)
    ultimately show ?thesis using True fold_replace_keeps by simp
  next
    case False
    with Cons show ?thesis by auto
  qed
qed simp

lemma fold_set_subset: "fold set_neigh ns N \<subseteq> canon_neigh ` set ns \<union> N"
  by (induction ns arbitrary: N) (auto simp: set_neigh_def)

lemma fold_set_keeps:
  assumes "q \<in> N" "\<And>n. n \<in> set ns \<Longrightarrow> \<not> same_slot q n"
  shows "q \<in> fold set_neigh ns N"
  using assms by (induction ns arbitrary: N) (auto simp: set_neigh_def)

definition slot_key :: "Neigh \<Rightarrow> int \<times> int \<times> string \<times> HardwareAddr" where
  "slot_key n = (neigh_family n, ne_LinkIndex n,
     if neigh_family n = AF_BRIDGE then [] else IP_String (ne_IP n), if neigh_family n = AF_BRIDGE then ne_HardwareAddr n else [])"

lemma same_slot_key: "same_slot q n \<longleftrightarrow> slot_key q = slot_key n"
  by (auto simp: same_slot_def same_table_def slot_key_def)

lemma slot_key_canon [simp]: "slot_key (canon_neigh n) = slot_key n"
  by (simp add: slot_key_def)

lemma fold_set_has:
  assumes "n \<in> set ns" "distinct (map slot_key ns)"
  shows "canon_neigh n \<in> fold set_neigh ns N"
  using assms
proof (induction ns arbitrary: N)
  case (Cons x ns)
  show ?case
  proof (cases "n = x")
    case True
    have "canon_neigh x \<in> set_neigh x N" by (simp add: set_neigh_def)
    moreover have "\<not> same_slot (canon_neigh x) n'" if "n' \<in> set ns" for n'
      using that Cons.prems(2) by (auto simp: same_slot_key)
    ultimately show ?thesis using True fold_set_keeps by simp
  next
    case False
    with Cons show ?thesis by auto
  qed
qed simp

text \<open>The steps of a run, inside the contract.\<close>

context kernel_tables
begin

lemma previous_state:
  assumes "getPreviousState c w = (Inr (rs, ns), w')" "cv_NetlinkAdapter c = nl"
  shows "routes w' = routes w" "neighs w' = neighs w"
    "set rs = {q \<in> routes w. ro_LinkIndex q = if_Index (cv_LocalVTEP c)}"
    "set ns = {q \<in> neighs w. neigh_family q \<in> {FAMILY_V4, AF_BRIDGE} \<and> ne_LinkIndex q = if_Index (cv_LocalVTEP c)}"
proof -
  let ?i = "if_Index (cv_LocalVTEP c)"
  from assms obtain l w1 w2 w3 fdb arp where s: "nl_LinkByIndex nl ?i w = (Inr l, w1)"
    "nl_RouteList nl l FAMILY_V4 w1 = (Inr rs, w2)" "nl_FDBList nl ?i w2 = (Inr fdb, w3)" "nl_ARPList nl ?i w3 = (Inr arp, w')"
    "ns = arp @ fdb"
    by (auto simp: getPreviousState_def Let_def try_do_Inr)
  note laws = link_by_index [OF s(1)] route_list [OF s(2)] fdb_list [OF s(3)] arp_list [OF s(4)]
  from laws show "routes w' = routes w" "neighs w' = neighs w" by simp_all
  from laws show "set rs = {q \<in> routes w. ro_LinkIndex q = ?i}" by simp
  from laws s(5) show "set ns = {q \<in> neighs w. neigh_family q \<in> {FAMILY_V4, AF_BRIDGE} \<and> ne_LinkIndex q = ?i}" by auto
qed

lemma set_neighs_ok:
  assumes "set_neighs nl acc ns w = (Inr ns', w')"
  shows "ns' = acc @ ns \<and> routes w' = routes w \<and> neighs w' = fold set_neigh ns (neighs w)"
  using assms
proof (induction ns arbitrary: acc w)
  case (Cons n ns)
  then obtain w1 where s: "nl_NeighSet nl n w = (Inr (), w1)" "set_neighs nl (acc @ [n]) ns w1 = (Inr ns', w')"
    by (auto simp: try_do_Inr)
  from neigh_set [OF s(1)] Cons.IH [OF s(2)] show ?case by simp
qed simp

lemma lease_loop_ok:
  assumes "lease_loop c rs ns leases w = (Inr (rs', ns'), w')" "cv_NetlinkAdapter c = nl"
  shows "rs' = rs @ wanted_routes c leases \<and> ns' = ns @ wanted_neighs c leases \<and>
    routes w' = fold replace_route (wanted_routes c leases) (routes w) \<and>
    neighs w' = fold set_neigh (wanted_neighs c leases) (neighs w)"
  using assms(1)
proof (induction leases arbitrary: rs ns w)
  case Nil
  then show ?case by (simp add: wanted_routes_def wanted_neighs_def peers_def map_filter_simps)
next
  case (Cons l leases)
  note defs = wanted_routes_def wanted_neighs_def peers_def map_filter_simps
  from Cons.prems obtain addr net where p: "ParseCIDR (OverlaySubnet l) = Inr (addr, net)"
    by (cases "ParseCIDR (OverlaySubnet l)") (auto simp: try_do_def)
  show ?case
  proof (cases "isLocal c net \<or> \<not> Contains (cv_OverlayNetwork c) (IPNet_IP net)")
    case True
    then have "peer_of c l = None" using p by (auto simp: peer_of_def)
    moreover have "lease_loop c rs ns leases w = (Inr (rs', ns'), w')" using Cons.prems p True
      by (cases "isLocal c net") (simp_all add: try_do_def)
    ultimately show ?thesis using Cons.IH [of rs ns w] by (simp add: defs)
  next
    case False
    from Cons.prems p False obtain w1 u m nn w2 where s:
      "nl_RouteReplace nl (route_to c net addr) w = (Inr (), w1)"
      "ParseIP (UnderlayIP l) = Some u" "ParseMAC (OverlayHardwareAddr l) = Inr m"
      "addNeighs c u addr m w1 = (Inr nn, w2)" "lease_loop c (rs @ [route_to c net addr]) (ns @ nn) leases w2 = (Inr (rs', ns'), w')"
      by (auto simp: try_do_Inr addRoute_def Let_def assms(2) split: option.splits sum.splits)
    have peer: "peer_of c l = Some (net, addr, u, m)" using p False s(2,3) by (simp add: peer_of_def)
    from set_neighs_ok [OF s(4) [unfolded addNeighs_def assms(2)]]
    have nn: "nn = [arp_entry c addr m, fdb_entry c u m]" "routes w2 = routes w1"
      "neighs w2 = fold set_neigh [arp_entry c addr m, fdb_entry c u m] (neighs w1)" by simp_all
    from route_replace [OF s(1)] have 1: "neighs w1 = neighs w" "routes w1 = replace_route (route_to c net addr) (routes w)" by simp_all
    from Cons.IH [OF s(5)] nn 1 peer show ?thesis by (simp add: defs peer_route_def peer_neighs_def)
  qed
qed

lemma delete_routes:
  assumes "for_each rs (\<lambda>r. if P r then try_do (nl_RouteDel nl r) h ret else ret ()) w = (Inr u, w')"
  shows "routes w' = routes w - {r \<in> set rs. P r} \<and> neighs w' = neighs w"
  using assms
proof (induction rs arbitrary: w)
  case (Cons r rs)
  from Cons.prems obtain w1 where s: "(if P r then try_do (nl_RouteDel nl r) h ret else ret ()) w = (Inr (), w1)"
    "for_each rs (\<lambda>r. if P r then try_do (nl_RouteDel nl r) h ret else ret ()) w1 = (Inr u, w')"
    by (auto simp: try_do_Inr)
  have "routes w1 = (if P r then routes w - {r} else routes w) \<and> neighs w1 = neighs w"
    using s(1) by (auto simp: try_do_Inr dest: route_del split: if_splits)
  with Cons.IH [OF s(2)] show ?case by auto
qed simp

lemma delete_neighs:
  assumes "for_each ns (\<lambda>n. if P n then try_do (nl_NeighDel nl n) (h n) ret else ret ()) w = (Inr u, w')"
  shows "neighs w' = {q \<in> neighs w. \<not> (\<exists>n \<in> set ns. P n \<and> deletes n q)} \<and> routes w' = routes w"
  using assms
proof (induction ns arbitrary: w)
  case (Cons n ns)
  from Cons.prems obtain w1 where s: "(if P n then try_do (nl_NeighDel nl n) (h n) ret else ret ()) w = (Inr (), w1)"
    "for_each ns (\<lambda>n. if P n then try_do (nl_NeighDel nl n) (h n) ret else ret ()) w1 = (Inr u, w')"
    by (auto simp: try_do_Inr)
  have "neighs w1 = (if P n then {q \<in> neighs w. \<not> deletes n q} else neighs w) \<and> routes w1 = routes w"
    using s(1) by (auto simp: try_do_Inr dest: neigh_del split: if_splits)
  with Cons.IH [OF s(2)] show ?case by auto
qed simp

text \<open>The tables after a run that succeeds, as a function of the tables before.\<close>

lemma converge_ok:
  assumes "Converge c leases w = (Inr u, w')" "cv_NetlinkAdapter c = nl"
  shows "routes w' = fold replace_route (wanted_routes c leases) (routes w) -
       {q \<in> routes w. ro_LinkIndex q = if_Index (cv_LocalVTEP c) \<and> Contains (cv_OverlayNetwork c) (ro_Gw q) \<and>
          list_all (\<lambda>r. \<not> routeEqual q r) (wanted_routes c leases)}"
    "neighs w' = {q \<in> fold set_neigh (wanted_neighs c leases) (neighs w).
       \<not> (\<exists>n \<in> neighs w. neigh_family n \<in> {FAMILY_V4, AF_BRIDGE} \<and> ne_LinkIndex n = if_Index (cv_LocalVTEP c) \<and>
            list_all (\<lambda>m. \<not> neighEqual n m) (wanted_neighs c leases) \<and> deletes n q)}"
proof -
  let ?i = "if_Index (cv_LocalVTEP c)"
  let ?P = "\<lambda>route. ro_LinkIndex route = ?i \<and> Contains (cv_OverlayNetwork c) (ro_Gw route)"
  let ?Q = "\<lambda>neigh. ne_LinkIndex neigh = ?i"
  let ?h = "\<lambda>neigh. errorf (''del neigh with ip/hwaddr '' @ Neigh_String neigh @ '': '')"
  from assms obtain pr pn w1 rs ns w2 w3 where s: "getPreviousState c w = (Inr (pr, pn), w1)"
    "lease_loop c [] [] leases w1 = (Inr (rs, ns), w2)"
    "for_each (getDeletedRoutes pr rs) (\<lambda>r. if ?P r then try_do (nl_RouteDel nl r) (errorf ''del route: '') ret else ret ()) w2
       = (Inr (), w3)"
    "for_each (getDeletedNeighs pn ns) (\<lambda>n. if ?Q n then try_do (nl_NeighDel nl n) (?h n) ret else ret ()) w3 = (Inr u, w')"
    unfolding Converge_def Let_def by (auto simp: try_do_Inr)
  note prev = previous_state [OF s(1) assms(2)]
  from lease_loop_ok [OF s(2) assms(2)] prev have l: "rs = wanted_routes c leases" "ns = wanted_neighs c leases"
    "routes w2 = fold replace_route (wanted_routes c leases) (routes w)"
    "neighs w2 = fold set_neigh (wanted_neighs c leases) (neighs w)" by simp_all
  from delete_routes [OF s(3)] delete_neighs [OF s(4)] l prev
  show "routes w' = fold replace_route (wanted_routes c leases) (routes w) -
       {q \<in> routes w. ro_LinkIndex q = ?i \<and> Contains (cv_OverlayNetwork c) (ro_Gw q) \<and>
          list_all (\<lambda>r. \<not> routeEqual q r) (wanted_routes c leases)}"
    "neighs w' = {q \<in> fold set_neigh (wanted_neighs c leases) (neighs w).
       \<not> (\<exists>n \<in> neighs w. neigh_family n \<in> {FAMILY_V4, AF_BRIDGE} \<and> ne_LinkIndex n = ?i \<and>
            list_all (\<lambda>m. \<not> neighEqual n m) (wanted_neighs c leases) \<and> deletes n q)}"
    by (auto simp: getDeletedRoutes_filter getDeletedNeighs_filter)
qed

end

section \<open>The converged tables\<close>

lemma wanted_route_simps:
  assumes "r \<in> set (wanted_routes c leases)"
  shows "ro_LinkIndex r = if_Index (cv_LocalVTEP c)"
  using assms by (auto simp: wanted_routes_def peer_route_def route_to_def)

lemma wanted_neigh_simps:
  assumes "n \<in> set (wanted_neighs c leases)"
  shows "ne_LinkIndex n = if_Index (cv_LocalVTEP c)"
  using assms by (auto simp: wanted_neighs_def peer_neighs_def arp_entry_def fdb_entry_def)

lemma wanted_routes_distinct:
  assumes "peers_distinct c leases"
  shows "distinct (map (\<lambda>r. Dst_String (ro_Dst r)) (wanted_routes c leases))"
proof -
  have "map (\<lambda>r. Dst_String (ro_Dst r)) (wanted_routes c leases) = map (\<lambda>(net, addr, u, m). IPNet_String net) (peers c leases)"
    by (auto simp: wanted_routes_def peer_route_def route_to_def Dst_String_def)
  with assms show ?thesis by (simp add: peers_distinct_def)
qed

text \<open>An ARP entry of a peer is found by its IPv4 overlay address.\<close>

definition peers_v4 :: "'w Converger \<Rightarrow> Lease list \<Rightarrow> bool" where
  "peers_v4 c leases \<longleftrightarrow> list_all (\<lambda>(net, addr, u, m). To4 addr \<noteq> []) (peers c leases)"

lemma slot_keys_of_peers:
  assumes "list_all (\<lambda>(net, addr, u, m). To4 addr \<noteq> []) ps"
    and "distinct (map (\<lambda>(net, addr, u, m). IP_String addr) ps)" "distinct (map (\<lambda>(net, addr, u, m). m) ps)"
  shows "distinct (map slot_key (concat (map (peer_neighs c) ps)))"
  using assms
proof (induction ps)
  case (Cons p ps)
  obtain net addr u m where p: "p = (net, addr, u, m)" by (cases p)
  have arp: "slot_key (arp_entry c a x) = (FAMILY_V4, if_Index (cv_LocalVTEP c), IP_String a, [])" if "To4 a \<noteq> []" for a x
    using that by (simp add: slot_key_def arp_entry_def neigh_family_def FAMILY_V4_def AF_BRIDGE_def)
  have fdb: "slot_key (fdb_entry c v x) = (AF_BRIDGE, if_Index (cv_LocalVTEP c), [], x)" for v x
    by (simp add: slot_key_def fdb_entry_def neigh_family_def AF_BRIDGE_def)
  have ne: "FAMILY_V4 \<noteq> AF_BRIDGE" by (simp add: FAMILY_V4_def AF_BRIDGE_def)
  define key where "key = (\<lambda>(net :: IPNet, a, v :: IP, x :: HardwareAddr).
      [(FAMILY_V4, if_Index (cv_LocalVTEP c), IP_String a, []), (AF_BRIDGE, if_Index (cv_LocalVTEP c), [], x)])"
  have keys: "map slot_key (concat (map (peer_neighs c) qs)) = concat (map key qs)"
    if "list_all (\<lambda>(net, addr, u, m). To4 addr \<noteq> []) qs" for qs
    using that by (induction qs) (auto simp: peer_neighs_def key_def arp fdb)
  have fresh: "\<forall>(n, a, v, x)\<in>set ps. IP_String addr \<noteq> IP_String a \<and> m \<noteq> x"
    using Cons.prems(2,3) p by force
  have "(FAMILY_V4, if_Index (cv_LocalVTEP c), IP_String addr, []) \<notin> set (concat (map key ps))"
    "(AF_BRIDGE, if_Index (cv_LocalVTEP c), [], m) \<notin> set (concat (map key ps))"
    using fresh ne by (auto simp: key_def)
  moreover have "distinct (concat (map key ps))"
  proof -
    have l: "list_all (\<lambda>(net, addr, u, m). To4 addr \<noteq> []) ps" using Cons.prems(1) by (auto simp: list_all_iff)
    have "distinct (map slot_key (concat (map (peer_neighs c) ps)))" using Cons.IH Cons.prems by simp
    then show ?thesis unfolding keys [OF l] .
  qed
  ultimately have "distinct (concat (map key (p # ps)))" using ne by (simp add: p key_def)
  with keys [OF Cons.prems(1)] show ?case by simp
qed simp

lemma wanted_neighs_distinct:
  assumes "peers_distinct c leases" "peers_v4 c leases"
  shows "distinct (map slot_key (wanted_neighs c leases))"
  unfolding wanted_neighs_def
  using assms by (intro slot_keys_of_peers) (simp_all add: peers_distinct_def peers_v4_def)

text \<open>The entries the device already has for a peer are the entries of that peer.\<close>

definition agrees :: "Neigh set \<Rightarrow> 'w Converger \<Rightarrow> Lease list \<Rightarrow> bool" where
  "agrees N c leases \<longleftrightarrow> (\<forall>q\<in>N. \<forall>n\<in>set (wanted_neighs c leases). deletes q (canon_neigh n) \<longrightarrow> neighEqual q n)"

context kernel_tables
begin

lemma converged_routes:
  assumes "Converge c leases w = (Inr u, w')" "cv_NetlinkAdapter c = nl" "peers_distinct c leases"
  shows "r \<in> set (wanted_routes c leases) \<Longrightarrow> canon_route r \<in> routes w'"
    and "q \<in> routes w' \<Longrightarrow> ro_LinkIndex q = if_Index (cv_LocalVTEP c) \<Longrightarrow> Contains (cv_OverlayNetwork c) (ro_Gw q) \<Longrightarrow>
      \<exists>r\<in>set (wanted_routes c leases). routeEqual q r"
    and "q \<in> routes w \<Longrightarrow> ro_LinkIndex q \<noteq> if_Index (cv_LocalVTEP c) \<or> \<not> Contains (cv_OverlayNetwork c) (ro_Gw q) \<Longrightarrow>
      \<forall>r\<in>set (wanted_routes c leases). \<not> same_dst q r \<Longrightarrow> q \<in> routes w'"
proof -
  note ok = converge_ok(1) [OF assms(1,2)]
  show "canon_route r \<in> routes w'" if "r \<in> set (wanted_routes c leases)"
    using that fold_replace_has [OF that wanted_routes_distinct [OF assms(3)]] ok
    by (auto simp: list_all_iff intro: canon_route_in)
  show "\<exists>r\<in>set (wanted_routes c leases). routeEqual q r"
    if "q \<in> routes w'" "ro_LinkIndex q = if_Index (cv_LocalVTEP c)" "Contains (cv_OverlayNetwork c) (ro_Gw q)"
  proof -
    from that(1) ok fold_replace_subset have "q \<in> canon_route ` set (wanted_routes c leases) \<union> routes w" by blast
    with that ok show ?thesis by (auto simp: list_all_iff intro: canon_route_in)
  qed
  show "q \<in> routes w'" if "q \<in> routes w" "ro_LinkIndex q \<noteq> if_Index (cv_LocalVTEP c) \<or> \<not> Contains (cv_OverlayNetwork c) (ro_Gw q)"
    "\<forall>r\<in>set (wanted_routes c leases). \<not> same_dst q r"
    using that fold_replace_keeps [of q "routes w" "wanted_routes c leases"] ok by auto
qed

lemma converged_neighs:
  assumes "Converge c leases w = (Inr u, w')" "cv_NetlinkAdapter c = nl" "peers_distinct c leases" "peers_v4 c leases"
    and "agrees (neighs w) c leases"
  shows "n \<in> set (wanted_neighs c leases) \<Longrightarrow> canon_neigh n \<in> neighs w'"
    and "q \<in> neighs w' \<Longrightarrow> ne_LinkIndex q = if_Index (cv_LocalVTEP c) \<Longrightarrow> neigh_family q \<in> {FAMILY_V4, AF_BRIDGE} \<Longrightarrow>
      \<exists>n\<in>set (wanted_neighs c leases). neighEqual q n"
    and "q \<in> neighs w \<Longrightarrow> ne_LinkIndex q \<noteq> if_Index (cv_LocalVTEP c) \<Longrightarrow> q \<in> neighs w'"
proof -
  note ok = converge_ok(2) [OF assms(1,2)]
  show "canon_neigh n \<in> neighs w'" if "n \<in> set (wanted_neighs c leases)"
  proof -
    have "canon_neigh n \<in> fold set_neigh (wanted_neighs c leases) (neighs w)"
      by (rule fold_set_has [OF that wanted_neighs_distinct [OF assms(3,4)]])
    moreover have "\<not> (\<exists>q\<in>neighs w. list_all (\<lambda>m. \<not> neighEqual q m) (wanted_neighs c leases) \<and> deletes q (canon_neigh n))"
      using assms(5) that by (auto simp: agrees_def list_all_iff)
    ultimately show ?thesis using ok by blast
  qed
  show "\<exists>n\<in>set (wanted_neighs c leases). neighEqual q n"
    if "q \<in> neighs w'" "ne_LinkIndex q = if_Index (cv_LocalVTEP c)" "neigh_family q \<in> {FAMILY_V4, AF_BRIDGE}"
  proof -
    from that(1) ok have q: "q \<in> fold set_neigh (wanted_neighs c leases) (neighs w)"
      "\<not> (\<exists>n\<in>neighs w. neigh_family n \<in> {FAMILY_V4, AF_BRIDGE} \<and> ne_LinkIndex n = if_Index (cv_LocalVTEP c) \<and>
          list_all (\<lambda>m. \<not> neighEqual n m) (wanted_neighs c leases) \<and> deletes n q)" by blast+
    show ?thesis
    proof (cases "q \<in> canon_neigh ` set (wanted_neighs c leases)")
      case True
      then show ?thesis by (auto intro: canon_neigh_in)
    next
      case False
      with q(1) fold_set_subset have "q \<in> neighs w" by blast
      moreover have "deletes q q" by (simp add: deletes_def same_table_def)
      ultimately show ?thesis using q(2) that by (auto simp: list_all_iff)
    qed
  qed
  show "q \<in> neighs w'" if "q \<in> neighs w" "ne_LinkIndex q \<noteq> if_Index (cv_LocalVTEP c)"
  proof -
    have "q \<in> fold set_neigh (wanted_neighs c leases) (neighs w)"
      using that wanted_neigh_simps [of _ c leases] by (intro fold_set_keeps) (auto simp: same_slot_def same_table_def)
    with ok that show ?thesis by (auto simp: deletes_def same_table_def)
  qed
qed

end

end
