(* ===== verification/Reference_Kernel.thy ===== *)
theory Reference_Kernel
  imports Converger_Tables
begin

text \<open>
  A network stack in memory that meets the contracts of the kernel: links, addresses, routes, neighbour entries and
  settings, one stack per namespace.  A request whose name is listed in \<open>nw_broken\<close> fails.  It serves to
  show that the contracts can be met and to evaluate the program on concrete situations.
\<close>

section \<open>Definitions\<close>

record netstack =
  ks_links :: "Link list"
  ks_addrs :: "(int \<times> Addr) list"
  ks_routes :: "Route list"
  ks_neighs :: "Neigh list"
  ks_noarp :: "int list"
  ks_sysctl :: "(string \<times> string) list"

record net_world =
  nw_cur :: int
  nw_stacks :: "int \<Rightarrow> netstack"
  nw_next :: int
  nw_pairs :: "(int \<times> int) list"
  nw_broken :: "string list"

definition empty_stack :: netstack where
  "empty_stack = \<lparr>ks_links = [], ks_addrs = [], ks_routes = [], ks_neighs = [], ks_noarp = [], ks_sysctl = []\<rparr>"

definition stack :: "net_world \<Rightarrow> netstack" where
  "stack w = nw_stacks w (nw_cur w)"

definition upd_stack :: "(netstack \<Rightarrow> netstack) \<Rightarrow> net_world \<Rightarrow> net_world" where
  "upd_stack f w = w\<lparr>nw_stacks := (nw_stacks w)(nw_cur w := f (stack w))\<rparr>"

definition works :: "string \<Rightarrow> (net_world, 'a) op \<Rightarrow> (net_world, 'a) op" where
  "works name f w = (if name \<in> set (nw_broken w) then (Inl (ErrorString (name @ '' failed'')), w) else f w)"

definition change :: "(netstack \<Rightarrow> netstack) \<Rightarrow> (net_world, unit) op" where
  "change f w = (Inr (), upd_stack f w)"

definition query :: "(netstack \<Rightarrow> 'a) \<Rightarrow> (net_world, 'a) op" where
  "query f w = (Inr (f (stack w)), w)"

definition not_found :: go_error where
  "not_found = ErrorString ''Link not found''"

text \<open>A link given without an index is looked up by its name.\<close>

definition resolve :: "Link \<Rightarrow> netstack \<Rightarrow> Link option" where
  "resolve l s = (if lk_Index l \<noteq> 0 then find (\<lambda>x. lk_Index x = lk_Index l) (ks_links s)
                  else find (\<lambda>x. lk_Name x = lk_Name l) (ks_links s))"

definition on_link :: "Link \<Rightarrow> (int \<Rightarrow> netstack \<Rightarrow> netstack) \<Rightarrow> (net_world, unit) op" where
  "on_link l f w = (case resolve l (stack w) of None \<Rightarrow> (Inl not_found, w) | Some x \<Rightarrow> change (f (lk_Index x)) w)"

definition map_link :: "(Link \<Rightarrow> Link) \<Rightarrow> int \<Rightarrow> netstack \<Rightarrow> netstack" where
  "map_link f i s = s\<lparr>ks_links := map (\<lambda>x. if lk_Index x = i then f x else x) (ks_links s)\<rparr>"

definition find_link :: "(Link \<Rightarrow> bool) \<Rightarrow> (net_world, Link) op" where
  "find_link P w = (case find P (ks_links (stack w)) of None \<Rightarrow> (Inl not_found, w) | Some x \<Rightarrow> (Inr x, w))"

text \<open>The other end of a pair needs a name of its own.\<close>

definition peer_taken :: "Link \<Rightarrow> netstack \<Rightarrow> bool" where
  "peer_taken l s =
     (case lk_kind l of Veth peerName _ \<Rightarrow> peerName = lk_Name l \<or> list_ex (\<lambda>x. lk_Name x = peerName) (ks_links s) | _ \<Rightarrow> False)"

definition add_link :: "Link \<Rightarrow> (net_world, unit) op" where
  "add_link l w =
     (if list_ex (\<lambda>x. lk_Name x = lk_Name l) (ks_links (stack w)) \<or> peer_taken l (stack w) then (Inl (ErrorString ''file exists''), w)
      else
        (let i = nw_next w; new = l\<lparr>lk_Index := i, lk_MTU := (if lk_MTU l = 0 then 1450 else lk_MTU l)\<rparr>
         in case lk_kind l of
              Veth peerName peerHw \<Rightarrow>
                (let peer = new\<lparr>lk_Index := i + 1, lk_Name := peerName, lk_HardwareAddr := peerHw, lk_Up := False\<rparr>
                 in (Inr (), upd_stack (\<lambda>s. s\<lparr>ks_links := ks_links s @ [new, peer], ks_addrs := filter (\<lambda>a. fst a \<noteq> i \<and> fst a \<noteq> i + 1) (ks_addrs s)\<rparr>)
                       (w\<lparr>nw_next := i + 2, nw_pairs := nw_pairs w @ [(i, i + 1)]\<rparr>)))
            | _ \<Rightarrow> (Inr (), upd_stack (\<lambda>s. s\<lparr>ks_links := ks_links s @ [new], ks_addrs := filter (\<lambda>a. fst a \<noteq> i) (ks_addrs s)\<rparr>) (w\<lparr>nw_next := i + 1\<rparr>))))"

text \<open>Deleting a device removes what belongs to it, and the other end of a pair with it.\<close>

definition drop_index :: "int \<Rightarrow> netstack \<Rightarrow> netstack" where
  "drop_index i s =
     s\<lparr>ks_links := filter (\<lambda>x. lk_Index x \<noteq> i) (ks_links s), ks_addrs := filter (\<lambda>a. fst a \<noteq> i) (ks_addrs s),
       ks_routes := filter (\<lambda>r. ro_LinkIndex r \<noteq> i) (ks_routes s), ks_neighs := filter (\<lambda>n. ne_LinkIndex n \<noteq> i) (ks_neighs s),
       ks_noarp := filter (\<lambda>j. j \<noteq> i) (ks_noarp s)\<rparr>"

definition partners :: "int \<Rightarrow> net_world \<Rightarrow> int list" where
  "partners i w = i # concat (map (\<lambda>(a, b). if a = i then [b] else if b = i then [a] else []) (nw_pairs w))"

definition del_link :: "Link \<Rightarrow> (net_world, unit) op" where
  "del_link l w =
     (case resolve l (stack w) of
        None \<Rightarrow> (Inl not_found, w)
      | Some x \<Rightarrow> (Inr (), w\<lparr>nw_stacks := (\<lambda>n. fold drop_index (partners (lk_Index x) w) (nw_stacks w n))\<rparr>))"

definition rename_link :: "Link \<Rightarrow> string \<Rightarrow> (net_world, unit) op" where
  "rename_link l name w =
     (if list_ex (\<lambda>x. lk_Name x = name) (ks_links (stack w)) then (Inl (ErrorString ''file exists''), w)
      else on_link l (map_link (\<lambda>x. x\<lparr>lk_Name := name\<rparr>)) w)"

text \<open>A link that is moved loses what belongs to it.\<close>

definition move_link :: "Link \<Rightarrow> int \<Rightarrow> (net_world, unit) op" where
  "move_link l fd w =
     (case resolve l (stack w) of
        None \<Rightarrow> (Inl not_found, w)
      | Some x \<Rightarrow>
          (if list_ex (\<lambda>y. lk_Index y = lk_Index x \<or> lk_Name y = lk_Name x) (ks_links (nw_stacks w fd)) then (Inl (ErrorString ''file exists''), w)
           else
             (let w = upd_stack (drop_index (lk_Index x)) w; s = (drop_index (lk_Index x) (nw_stacks w fd))\<lparr>ks_routes := ks_routes (nw_stacks w fd)\<rparr>
              in (Inr (), w\<lparr>nw_stacks := (nw_stacks w)(fd := s\<lparr>ks_links := ks_links s @ [x\<lparr>lk_Up := False\<rparr>]\<rparr>)\<rparr>))))"

text \<open>A route given without a device goes over the link whose address has the gateway as its peer.\<close>

definition route_device :: "Route \<Rightarrow> netstack \<Rightarrow> int option" where
  "route_device r s =
     (if ro_LinkIndex r \<noteq> 0 then Some (ro_LinkIndex r)
      else map_option fst (find (\<lambda>(i, a). case ad_Peer a of None \<Rightarrow> False | Some p \<Rightarrow> IP_String (IPNet_IP p) = IP_String (ro_Gw r)) (ks_addrs s)))"

definition add_route :: "Route \<Rightarrow> (net_world, unit) op" where
  "add_route r w =
     (if list_ex (\<lambda>q. same_dst q r) (ks_routes (stack w)) then (Inl (ErrorString ''file exists''), w)
      else case route_device r (stack w) of
        None \<Rightarrow> (Inl (ErrorString ''network is unreachable''), w)
      | Some i \<Rightarrow> change (\<lambda>s. s\<lparr>ks_routes := ks_routes s @ [canon_route (r\<lparr>ro_LinkIndex := i\<rparr>)]\<rparr>) w)"

definition replace_routes :: "Route \<Rightarrow> netstack \<Rightarrow> netstack" where
  "replace_routes r s = s\<lparr>ks_routes := filter (\<lambda>q. \<not> same_dst q r) (ks_routes s) @ [canon_route r]\<rparr>"

definition del_route :: "Route \<Rightarrow> (net_world, unit) op" where
  "del_route r w =
     (if r \<in> set (ks_routes (stack w)) then change (\<lambda>s. s\<lparr>ks_routes := filter (\<lambda>q. q \<noteq> r) (ks_routes s)\<rparr>) w
      else (Inl (ErrorString ''no such process''), w))"

definition add_neigh :: "Neigh \<Rightarrow> (net_world, unit) op" where
  "add_neigh n w =
     (if list_ex (\<lambda>q. same_slot q n) (ks_neighs (stack w)) then (Inl (ErrorString ''file exists''), w)
      else if \<not> list_ex (\<lambda>x. lk_Index x = ne_LinkIndex n) (ks_links (stack w)) then (Inl (ErrorString ''no such device''), w)
      else change (\<lambda>s. s\<lparr>ks_neighs := ks_neighs s @ [canon_neigh n]\<rparr>) w)"

definition set_neighs_in :: "Neigh \<Rightarrow> netstack \<Rightarrow> netstack" where
  "set_neighs_in n s = s\<lparr>ks_neighs := filter (\<lambda>q. \<not> same_slot q n) (ks_neighs s) @ [canon_neigh n]\<rparr>"

definition del_neigh :: "Neigh \<Rightarrow> (net_world, unit) op" where
  "del_neigh n w =
     (if list_ex (deletes n) (ks_neighs (stack w)) then change (\<lambda>s. s\<lparr>ks_neighs := filter (\<lambda>q. \<not> deletes n q) (ks_neighs s)\<rparr>) w
      else (Inl (ErrorString ''no such file or directory''), w))"

definition as_Interface :: "Link \<Rightarrow> Interface" where
  "as_Interface l = \<lparr>if_Index = lk_Index l, if_MTU = lk_MTU l, if_Name = lk_Name l, if_HardwareAddr = lk_HardwareAddr l\<rparr>"

definition set_sysctl :: "string \<Rightarrow> string list \<Rightarrow> (net_world, string) op" where
  "set_sysctl name params w =
     (case params of
        [] \<Rightarrow> (Inr (case map_of (ks_sysctl (stack w)) name of None \<Rightarrow> [] | Some v \<Rightarrow> v), w)
      | v # _ \<Rightarrow> (Inr v, upd_stack (\<lambda>s. s\<lparr>ks_sysctl := (name, v) # ks_sysctl s\<rparr>) w))"

definition ref_kernel :: "net_world kernel" where
  "ref_kernel =
     \<lparr>k_LinkByName = \<lambda>n. works ''LinkByName'' (find_link (\<lambda>x. lk_Name x = n)),
      k_LinkByIndex = \<lambda>i. works ''LinkByIndex'' (find_link (\<lambda>x. lk_Index x = i)),
      k_LinkList = works ''LinkList'' (query ks_links),
      k_LinkAdd = \<lambda>l. works ''LinkAdd'' (add_link l),
      k_LinkDel = \<lambda>l. works ''LinkDel'' (del_link l),
      k_LinkSetUp = \<lambda>l. works ''LinkSetUp'' (on_link l (map_link (\<lambda>x. x\<lparr>lk_Up := True\<rparr>))),
      k_LinkSetName = \<lambda>l n. works ''LinkSetName'' (rename_link l n),
      k_LinkSetHardwareAddr = \<lambda>l h. works ''LinkSetHardwareAddr'' (on_link l (map_link (\<lambda>x. x\<lparr>lk_HardwareAddr := h\<rparr>))),
      k_LinkSetARPOff = \<lambda>l. works ''LinkSetARPOff'' (on_link l (\<lambda>i s. s\<lparr>ks_noarp := i # ks_noarp s\<rparr>)),
      k_LinkSetNsFd = \<lambda>l fd. works ''LinkSetNsFd'' (move_link l fd),
      k_AddrAdd = \<lambda>l a. works ''AddrAdd'' (on_link l (\<lambda>i s. s\<lparr>ks_addrs := ks_addrs s @ [(i, a)]\<rparr>)),
      k_AddrList = \<lambda>l fam. works ''AddrList'' (query (\<lambda>s. map snd (filter (\<lambda>a. fst a = lk_Index l) (ks_addrs s)))),
      k_RouteAdd = \<lambda>r. works ''RouteAdd'' (add_route r),
      k_RouteReplace = \<lambda>r. works ''RouteReplace'' (change (replace_routes r)),
      k_RouteList = \<lambda>l fam. works ''RouteList'' (query (\<lambda>s. filter (\<lambda>r. ro_LinkIndex r = lk_Index l) (ks_routes s))),
      k_RouteDel = \<lambda>r. works ''RouteDel'' (del_route r),
      k_NeighAdd = \<lambda>n. works ''NeighAdd'' (add_neigh n),
      k_NeighSet = \<lambda>n. works ''NeighSet'' (change (set_neighs_in n)),
      k_NeighDel = \<lambda>n. works ''NeighDel'' (del_neigh n),
      k_NeighList = \<lambda>i fam. works ''NeighList'' (query (\<lambda>s. filter (\<lambda>n. neigh_family n = fam \<and> ne_LinkIndex n = i) (ks_neighs s))),
      k_Interfaces = works ''Interfaces'' (query (\<lambda>s. map as_Interface (ks_links s))),
      k_InterfaceAddrs = \<lambda>i. works ''InterfaceAddrs''
        (query (\<lambda>s. map (\<lambda>a. IPNet_String (ad_IPNet (snd a))) (filter (\<lambda>a. fst a = if_Index i) (ks_addrs s)))),
      k_InterfaceByName = \<lambda>n w. (case works ''InterfaceByName'' (find_link (\<lambda>x. lk_Name x = n)) w of
        (Inl e, w) \<Rightarrow> (Inl e, w) | (Inr l, w) \<Rightarrow> (Inr (as_Interface l), w)),
      k_Sysctl = \<lambda>n ps. works ''Sysctl'' (set_sysctl n ps),
      k_EnableIP4Forward = works ''Sysctl'' (\<lambda>w. (Inr (), snd (set_sysctl ''net/ipv4/ip_forward'' [''1''] w)))\<rparr>"

definition ref_routes :: "net_world \<Rightarrow> Route set" where
  "ref_routes w = set (ks_routes (stack w))"

definition ref_neighs :: "net_world \<Rightarrow> Neigh set" where
  "ref_neighs w = set (ks_neighs (stack w))"

section \<open>The contract is met\<close>

lemma stack_upd [simp]: "stack (upd_stack f w) = f (stack w)"
  by (simp add: stack_def upd_stack_def)

lemma find_append: "find P (xs @ ys) = (case find P xs of None \<Rightarrow> find P ys | Some x \<Rightarrow> Some x)"
  by (induction xs) auto

lemma find_map_same:
  "(\<And>x. P (f x) = P x) \<Longrightarrow> find P (map f xs) = map_option f (find P xs)"
  by (induction xs) auto

lemma find_name_absent: "\<not> list_ex (\<lambda>x. lk_Name x = n) ls \<Longrightarrow> find (\<lambda>x. lk_Name x = n) ls = None"
  by (auto simp: find_None_iff list_ex_iff)

lemmas request_defs = works_def change_def query_def find_link_def

interpretation ref_kernel: kernel_tables "as_netlinkAdapter ref_kernel" ref_routes ref_neighs
  by unfold_locales
     (auto simp: as_netlinkAdapter_def adapter_defs ref_kernel_def request_defs ref_routes_def ref_neighs_def replace_route_def
        set_neigh_def replace_routes_def set_neighs_in_def del_route_def del_neigh_def list_ex_iff find_Some_iff
        split: if_splits option.splits)

end
