(* ===== verification/Vtep_System.thy ===== *)
theory Vtep_System
  imports Reference_Kernel
begin

text \<open>
  The properties of the VXLAN device: what a run of the converger makes of the routes and neighbour entries, and
  that it never interrupts a peer that stays.
\<close>

section \<open>A run never drops a peer that stays\<close>

text \<open>Every remote lease has an underlay address and a hardware address that parse.\<close>

definition well_formed :: "'w Converger \<Rightarrow> Lease list \<Rightarrow> bool" where
  "well_formed c leases \<longleftrightarrow>
     list_all (\<lambda>l. ParseIP (UnderlayIP l) \<noteq> None \<and> (case ParseMAC (OverlayHardwareAddr l) of Inl _ \<Rightarrow> False | Inr _ \<Rightarrow> True)) leases"

context kernel_tables
begin

lemma set_neighs_routes:
  "set_neighs nl acc ns w = (res, w') \<Longrightarrow> routes w' = routes w"
proof (induction ns arbitrary: acc w)
  case (Cons n ns)
  then show ?case by (auto simp: try_do_cases dest!: neigh_set)
qed simp

lemma replace_keeps:
  assumes "r \<in> set W" "r' \<in> set W" "distinct (map (\<lambda>r. Dst_String (ro_Dst r)) W)" "canon_route r \<in> R"
  shows "canon_route r \<in> replace_route r' R"
proof (cases "r' = r")
  case False
  then have "\<not> same_dst (canon_route r) r'" using assms(1-3) by (auto simp: same_dst_def distinct_map dest: inj_onD)
  then show ?thesis using assms(4) by (simp add: replace_route_def)
qed (simp add: replace_route_def)

lemma lease_loop_keeps:
  assumes "lease_loop c rs ns leases w = (res, w')" "cv_NetlinkAdapter c = nl" "well_formed c leases"
    and "set (wanted_routes c leases) \<subseteq> set W" "distinct (map (\<lambda>r. Dst_String (ro_Dst r)) W)"
    and "r \<in> set W" "canon_route r \<in> routes w"
  shows "canon_route r \<in> routes w'"
  using assms(1,3,4,7)
proof (induction leases arbitrary: rs ns w)
  case (Cons l leases)
  note defs = wanted_routes_def peers_def map_filter_simps
  have wf: "well_formed c leases" using Cons.prems(2) by (simp add: well_formed_def)
  show ?case
  proof (cases "ParseCIDR (OverlaySubnet l)")
    case (Inl e)
    then show ?thesis using Cons.prems by (auto simp: try_do_def)
  next
    case (Inr p)
    obtain addr net where p: "p = (addr, net)" by (cases p)
    show ?thesis
    proof (cases "isLocal c net \<or> \<not> Contains (cv_OverlayNetwork c) (IPNet_IP net)")
      case True
      then have "lease_loop c rs ns leases w = (res, w')" using Cons.prems(1) Inr p
        by (cases "isLocal c net") (simp_all add: try_do_def)
      moreover have "peer_of c l = None" using True Inr p by (auto simp: peer_of_def)
      ultimately show ?thesis using Cons.IH wf Cons.prems(3,4) by (simp add: defs)
    next
      case False
      from Cons.prems(2) obtain u m where um: "ParseIP (UnderlayIP l) = Some u" "ParseMAC (OverlayHardwareAddr l) = Inr m"
        by (auto simp: well_formed_def split: sum.splits)
      have peer: "peer_of c l = Some (net, addr, u, m)" using Inr p False um by (simp add: peer_of_def)
      let ?r = "route_to c net addr"
      have sub: "?r \<in> set W" "set (wanted_routes c leases) \<subseteq> set W"
        using Cons.prems(3) peer by (auto simp: defs peer_route_def)
      have keep: "canon_route r \<in> replace_route ?r (routes w)" using assms(6) sub(1) assms(5) Cons.prems(4) by (rule replace_keeps)
      from Cons.prems(1) Inr p False um consider (1) e where "nl_RouteReplace nl ?r w = (Inl e, w')"
        | (2) w1 e where "nl_RouteReplace nl ?r w = (Inr (), w1)" "addNeighs c u addr m w1 = (Inl e, w')"
        | (3) w1 nn w2 where "nl_RouteReplace nl ?r w = (Inr (), w1)" "addNeighs c u addr m w1 = (Inr nn, w2)"
            "lease_loop c (rs @ [?r]) (ns @ nn) leases w2 = (res, w')"
        by (auto simp: try_do_cases addRoute_def Let_def assms(2))
      then show ?thesis
      proof cases
        case 1
        with route_replace [OF 1] Cons.prems(4) show ?thesis by simp
      next
        case 2
        with route_replace [OF 2(1)] set_neighs_routes [OF 2(2) [unfolded addNeighs_def assms(2)]] keep show ?thesis by simp
      next
        case 3
        with route_replace [OF 3(1)] set_neighs_routes [OF 3(2) [unfolded addNeighs_def assms(2)]] keep
        have "canon_route r \<in> routes w2" by simp
        with Cons.IH [OF 3(3) wf sub(2)] show ?thesis .
      qed
    qed
  qed
qed simp

lemma converge_keeps:
  assumes "Converge c leases w = (res, w')" "cv_NetlinkAdapter c = nl" "well_formed c leases" "peers_distinct c leases"
    and "r \<in> set (wanted_routes c leases)" "canon_route r \<in> routes w"
  shows "canon_route r \<in> routes w'"
proof -
  let ?i = "if_Index (cv_LocalVTEP c)"
  let ?P = "\<lambda>route. ro_LinkIndex route = ?i \<and> Contains (cv_OverlayNetwork c) (ro_Gw route)"
  let ?delr = "\<lambda>r. if ?P r then try_do (nl_RouteDel nl r) (errorf ''del route: '') ret else ret ()"
  let ?deln = "\<lambda>n. if ne_LinkIndex n = ?i then try_do (nl_NeighDel nl n)
      (errorf (''del neigh with ip/hwaddr '' @ Neigh_String n @ '': '')) ret else ret ()"
  have prev: "getPreviousState c w = (res0, w0) \<Longrightarrow> routes w0 = routes w" for res0 w0
    unfolding getPreviousState_def Let_def assms(2)
    by (auto simp: try_do_cases dest!: link_by_index route_list fdb_list arp_list)
  have loop: "lease_loop c [] [] leases w0 = (res0, w1) \<Longrightarrow> routes w0 = routes w \<Longrightarrow> canon_route r \<in> routes w1" for w0 res0 w1
    using lease_loop_keeps [OF _ assms(2,3) order_refl wanted_routes_distinct [OF assms(4)] assms(5)] assms(6) by simp
  have routes_kept: "for_each (getDeletedRoutes pr (wanted_routes c leases)) ?delr w1 = (res0, w2) \<Longrightarrow>
      canon_route r \<in> routes w1 \<Longrightarrow> canon_route r \<in> routes w2" for pr w1 res0 w2
  proof (erule for_each_preserves [where I = "\<lambda>v. canon_route r \<in> routes v"], assumption)
    fix x v res1 v'
    assume x: "x \<in> set (getDeletedRoutes pr (wanted_routes c leases))" "canon_route r \<in> routes v" "?delr x v = (res1, v')"
    have "x \<noteq> canon_route r" using x(1) assms(5) by (auto simp: getDeletedRoutes_filter list_all_iff)
    with x(2,3) show "canon_route r \<in> routes v'"
      by (auto simp: try_do_cases dest!: route_del split: if_splits)
  qed
  have neighs_kept: "for_each ns ?deln w1 = (res0, w2) \<Longrightarrow> canon_route r \<in> routes w1 \<Longrightarrow> canon_route r \<in> routes w2" for ns w1 res0 w2
    by (erule for_each_preserves [where I = "\<lambda>v. canon_route r \<in> routes v"])
       (auto simp: try_do_cases dest!: neigh_del split: if_splits)
  from assms(1) consider (a) e where "getPreviousState c w = (Inl e, w')"
    | (b) pr pn w0 e where "getPreviousState c w = (Inr (pr, pn), w0)" "lease_loop c [] [] leases w0 = (Inl e, w')"
    | (c) pr pn w0 rs ns w1 e where "getPreviousState c w = (Inr (pr, pn), w0)" "lease_loop c [] [] leases w0 = (Inr (rs, ns), w1)"
        "for_each (getDeletedRoutes pr rs) ?delr w1 = (Inl e, w')"
    | (d) pr pn w0 rs ns w1 w2 where "getPreviousState c w = (Inr (pr, pn), w0)" "lease_loop c [] [] leases w0 = (Inr (rs, ns), w1)"
        "for_each (getDeletedRoutes pr rs) ?delr w1 = (Inr (), w2)" "for_each (getDeletedNeighs pn ns) ?deln w2 = (res, w')"
    unfolding Converge_def Let_def assms(2) by (auto simp: try_do_cases)
  then show ?thesis
  proof cases
    case a
    with prev assms(6) show ?thesis by simp
  next
    case b
    with prev loop show ?thesis by simp
  next
    case c
    have "rs = wanted_routes c leases" using lease_loop_ok [OF c(2) assms(2)] by simp
    with c(3) routes_kept loop [OF c(2) prev [OF c(1)]] show ?thesis by blast
  next
    case d
    have "rs = wanted_routes c leases" using lease_loop_ok [OF d(2) assms(2)] by simp
    with d(3,4) routes_kept neighs_kept loop [OF d(2) prev [OF d(1)]] show ?thesis by blast
  qed
qed

end

section \<open>Properties of the converger\<close>


text \<open>
  C16.  A run never takes away the route of a peer that is still leased: a route that is installed and still
  wanted is there after the run, and also when the run fails half way.
\<close>

theorem converge_keeps_active_peers:
  assumes "kernel_tables (cv_NetlinkAdapter c) routes neighs" "Converge c leases w = (res, w')"
    and "well_formed c leases" "peers_distinct c leases"
    and "r \<in> set (wanted_routes c leases)" "canon_route r \<in> routes w"
  shows "canon_route r \<in> routes w'"
  by (rule kernel_tables.converge_keeps [OF assms(1,2) refl assms(3-6)])

section \<open>A concrete host\<close>

text \<open>
  A host with the device 9 for 10.255.30.0/24 in 10.255.0.0/16.  The device has a route to a peer that is gone
  and one to a peer that stays; the leases are those of the host itself, of the peer that stays and of a host
  of another network.
\<close>

definition v4_net :: "8 word \<Rightarrow> 8 word \<Rightarrow> 8 word \<Rightarrow> 8 word \<Rightarrow> int \<Rightarrow> IPNet" where
  "v4_net a b c d m = \<lparr>IPNet_IP = [a, b, c, d], IPNet_Mask = CIDRMask m 32\<rparr>"

definition test_converger :: "net_world Converger" where
  "test_converger =
     \<lparr>cv_OverlayNetwork = v4_net 10 255 0 0 16, cv_LocalSubnet = v4_net 10 255 30 0 24,
      cv_LocalVTEP = \<lparr>if_Index = 9, if_MTU = 1450, if_Name = ''silk-vtep'', if_HardwareAddr = [0xee, 0xee, 10, 255, 30, 0]\<rparr>,
      cv_NetlinkAdapter = as_netlinkAdapter ref_kernel\<rparr>"

definition test_leases :: "Lease list" where
  "test_leases =
     [\<lparr>UnderlayIP = ''10.0.0.1'', OverlaySubnet = ''10.255.30.0/24'', OverlayHardwareAddr = ''ee:ee:0a:ff:1e:00''\<rparr>,
      \<lparr>UnderlayIP = ''10.0.0.2'', OverlaySubnet = ''10.255.41.0/24'', OverlayHardwareAddr = ''ee:ee:0a:ff:29:00''\<rparr>,
      \<lparr>UnderlayIP = ''10.0.0.3'', OverlaySubnet = ''10.253.8.0/24'', OverlayHardwareAddr = ''ee:ee:0a:fd:08:00''\<rparr>]"

definition stay_route :: Route where
  "stay_route = route_to test_converger (v4_net 10 255 41 0 24) [10, 255, 41, 0]"

definition gone_route :: Route where
  "gone_route = route_to test_converger (v4_net 10 255 42 0 24) [10, 255, 42, 0]"

definition test_stack :: netstack where
  "test_stack = empty_stack
     \<lparr>ks_links := [\<lparr>lk_Index = 9, lk_Name = ''silk-vtep'', lk_HardwareAddr = [0xee, 0xee, 10, 255, 30, 0], lk_MTU = 1450, lk_Up = True,
        lk_kind = Device\<rparr>],
      ks_routes := [gone_route, stay_route],
      ks_neighs := [canon_neigh (arp_entry test_converger [10, 255, 42, 0] [0xee, 0xee, 10, 255, 42, 0]),
                    canon_neigh (fdb_entry test_converger [10, 0, 0, 9] [0xee, 0xee, 10, 255, 42, 0])]\<rparr>"

definition test_net :: "string list \<Rightarrow> net_world" where
  "test_net broken = \<lparr>nw_cur = 0, nw_stacks = \<lambda>_. test_stack, nw_next = 10, nw_pairs = [], nw_broken = broken\<rparr>"

lemma test_peers:
  "peers test_converger test_leases =
     [(v4_net 10 255 41 0 24, IPv4 10 255 41 0, IPv4 10 0 0 2, [0xee, 0xee, 10, 255, 41, 0])]"
  by code_simp

lemma test_peers_ok: "peers_distinct test_converger test_leases" "peers_v4 test_converger test_leases"
  by (simp_all add: peers_distinct_def peers_v4_def test_peers IPv4_def To4_def v4InV6Prefix_def)

lemma test_leases_well_formed: "well_formed test_converger test_leases"
  by code_simp


theorem converge_keeps_active_peers_witness:
  "\<exists>e w'. Converge test_converger test_leases (test_net [''NeighSet'']) = (Inl e, w') \<and> stay_route \<in> ref_routes w'"
proof -
  have "(case fst (Converge test_converger test_leases (test_net [''NeighSet''])) of Inl e \<Rightarrow> True | Inr _ \<Rightarrow> False)" by code_simp
  then obtain e w' where c: "Converge test_converger test_leases (test_net [''NeighSet'']) = (Inl e, w')"
    by (cases "Converge test_converger test_leases (test_net [''NeighSet''])") (auto split: sum.splits)
  have nl: "cv_NetlinkAdapter test_converger = as_netlinkAdapter ref_kernel" by (simp add: test_converger_def)
  let ?r = "route_to test_converger (v4_net 10 255 41 0 24) (IPv4 10 255 41 0)"
  have r: "?r \<in> set (wanted_routes test_converger test_leases)" by (simp add: wanted_routes_def test_peers peer_route_def)
  have s: "canon_route ?r = stay_route" by code_simp
  have "stay_route \<in> ref_routes (test_net [''NeighSet''])" by (simp add: ref_routes_def stack_def test_net_def test_stack_def)
  with converge_keeps_active_peers [of test_converger ref_routes ref_neighs, unfolded nl,
      OF ref_kernel.kernel_tables_axioms c test_leases_well_formed test_peers_ok(1) r] c s show ?thesis by auto
qed

end
