(* ===== verification/Lease_Store.thy ===== *)
theory Lease_Store
  imports Lease
begin

text \<open>
  The lease table and the interface \<^verbatim>\<open>databaseHandler\<close> through which the lease controller uses it
  (\<^verbatim>\<open>controller/leaser/lease_controller.go\<close>).  The locale \<open>lease_store\<close> states what the
  operations promise: the table \<open>tbl w\<close> of a world \<open>w\<close>, a clock, and \<open>up w\<close>, which says that
  statements do not fail for reasons of their own.  Other controllers work on the same table:
  before a statement takes effect they may have moved it along the relation \<open>env\<close>.  The locale
  \<open>exclusive_store\<close> is the case of a single controller.
\<close>

section \<open>The table\<close>

record subnet_row =
  row_lease :: Lease
  last_renewed_at :: int

text \<open>\<^verbatim>\<open>LIKE '%/32'\<close>.\<close>

definition single_subnet :: "string \<Rightarrow> bool" where
  "single_subnet s \<longleftrightarrow> suffix ''/32'' s"

abbreviation row_single :: "subnet_row \<Rightarrow> bool" where
  "row_single r \<equiv> single_subnet (OverlaySubnet (row_lease r))"

abbreviation row_for :: "string \<Rightarrow> subnet_row \<Rightarrow> bool" where
  "row_for u r \<equiv> UnderlayIP (row_lease r) = u"

text \<open>\<^verbatim>\<open>last_renewed_at + d <= now\<close>; the condition of the active leases is its negation.\<close>

definition expired :: "int \<Rightarrow> int \<Rightarrow> subnet_row \<Rightarrow> bool" where
  "expired d now r \<longleftrightarrow> last_renewed_at r + d \<le> now"

text \<open>The constraints of the table: three \<^verbatim>\<open>UNIQUE\<close> columns of bounded length.\<close>

definition conflicts :: "subnet_row list \<Rightarrow> Lease \<Rightarrow> bool" where
  "conflicts rows l \<longleftrightarrow> list_ex (\<lambda>r. UnderlayIP (row_lease r) = UnderlayIP l
     \<or> OverlaySubnet (row_lease r) = OverlaySubnet l
     \<or> OverlayHardwareAddr (row_lease r) = OverlayHardwareAddr l) rows"

definition fits_columns :: "Lease \<Rightarrow> bool" where
  "fits_columns l \<longleftrightarrow> length (UnderlayIP l) \<le> 15 \<and> length (OverlaySubnet l) \<le> 18
     \<and> length (OverlayHardwareAddr l) \<le> 17"

definition rows_ok :: "subnet_row list \<Rightarrow> bool" where
  "rows_ok rows \<longleftrightarrow> distinct (map (\<lambda>r. UnderlayIP (row_lease r)) rows)
     \<and> distinct (map (\<lambda>r. OverlaySubnet (row_lease r)) rows)
     \<and> distinct (map (\<lambda>r. OverlayHardwareAddr (row_lease r)) rows)
     \<and> list_all (\<lambda>r. fits_columns (row_lease r)) rows"

definition renew_row :: "string \<Rightarrow> int \<Rightarrow> subnet_row \<Rightarrow> subnet_row" where
  "renew_row u now r = (if row_for u r then r\<lparr>last_renewed_at := now\<rparr> else r)"

definition renew_rows :: "string \<Rightarrow> int \<Rightarrow> subnet_row list \<Rightarrow> subnet_row list" where
  "renew_rows u now rows = map (renew_row u now) rows"

definition delete_rows :: "string \<Rightarrow> subnet_row list \<Rightarrow> subnet_row list" where
  "delete_rows u rows = filter (\<lambda>r. \<not> row_for u r) rows"

abbreviation insert_row :: "Lease \<Rightarrow> int \<Rightarrow> subnet_row list \<Rightarrow> subnet_row list" where
  "insert_row l now rows \<equiv> rows @ [\<lparr>row_lease = l, last_renewed_at = now\<rparr>]"

section \<open>The interface\<close>

record 'w databaseHandler =
  dh_AddEntry :: "Lease \<Rightarrow> 'w \<Rightarrow> go_error option \<times> 'w"
  dh_DeleteEntry :: "string \<Rightarrow> 'w \<Rightarrow> go_error option \<times> 'w"
  dh_LeaseForUnderlayIP :: "string \<Rightarrow> 'w \<Rightarrow> Lease option result \<times> 'w"
  dh_LastRenewedAtForUnderlayIP :: "string \<Rightarrow> 'w \<Rightarrow> int result \<times> 'w"
  dh_RenewLeaseForUnderlayIP :: "string \<Rightarrow> 'w \<Rightarrow> go_error option \<times> 'w"
  dh_All :: "'w \<Rightarrow> Lease list result \<times> 'w"
  dh_AllBlockSubnets :: "'w \<Rightarrow> Lease list result \<times> 'w"
  dh_AllSingleIPSubnets :: "'w \<Rightarrow> Lease list result \<times> 'w"
  dh_AllActive :: "int \<Rightarrow> 'w \<Rightarrow> Lease list result \<times> 'w"
  dh_OldestExpiredBlockSubnet :: "int \<Rightarrow> 'w \<Rightarrow> Lease option result \<times> 'w"
  dh_OldestExpiredSingleIP :: "int \<Rightarrow> 'w \<Rightarrow> Lease option result \<times> 'w"

section \<open>Lemmas on the table\<close>

lemma conflicts_iff:
  "conflicts rows l \<longleftrightarrow> (\<exists>r\<in>set rows. UnderlayIP (row_lease r) = UnderlayIP l
     \<or> OverlaySubnet (row_lease r) = OverlaySubnet l
     \<or> OverlayHardwareAddr (row_lease r) = OverlayHardwareAddr l)"
  by (auto simp: conflicts_def list_ex_iff)

lemma rows_ok_Nil [simp]: "rows_ok []"
  by (simp add: rows_ok_def)

lemma rows_ok_insert [intro]:
  assumes "rows_ok rows" and "\<not> conflicts rows l" and "fits_columns l"
  shows "rows_ok (insert_row l now rows)"
  using assms by (auto simp: rows_ok_def conflicts_iff)

lemma rows_ok_delete [intro]: "rows_ok rows \<Longrightarrow> rows_ok (delete_rows u rows)"
  by (auto simp: rows_ok_def delete_rows_def list_all_iff distinct_map_filter)

lemma renew_row_lease [simp]: "row_lease (renew_row u now r) = row_lease r"
  by (simp add: renew_row_def)

lemma map_row_lease_renew [simp]: "map row_lease (renew_rows u now rows) = map row_lease rows"
  by (simp add: renew_rows_def)

lemma rows_ok_leases: "map row_lease rows = map row_lease rows' \<Longrightarrow> rows_ok rows = rows_ok rows'"
proof -
  assume eq: "map row_lease rows = map row_lease rows'"
  have "map (f \<circ> row_lease) rows = map (f \<circ> row_lease) rows'" for f :: "Lease \<Rightarrow> string"
    using arg_cong [OF eq, of "map f"] by simp
  moreover have "list_all (\<lambda>r. P (row_lease r)) xs = list_all P (map row_lease xs)"
    for P and xs :: "subnet_row list"
    by (simp add: list.pred_map comp_def)
  ultimately show ?thesis using eq by (simp add: rows_ok_def comp_def)
qed

lemma rows_ok_renew [simp]: "rows_ok (renew_rows u now rows) = rows_ok rows"
  by (rule rows_ok_leases) simp

lemma set_delete_rows [simp]: "r \<in> set (delete_rows u rows) \<longleftrightarrow> r \<in> set rows \<and> \<not> row_for u r"
  by (auto simp: delete_rows_def)

lemma delete_rows_absent: "(\<And>r. r \<in> set rows \<Longrightarrow> \<not> row_for u r) \<Longrightarrow> delete_rows u rows = rows"
  by (simp add: delete_rows_def)

lemma rows_ok_same_underlay:
  assumes "rows_ok rows" and "r \<in> set rows" and "r' \<in> set rows" and "row_for (UnderlayIP (row_lease r')) r"
  shows "r = r'"
  using assms by (auto simp: rows_ok_def distinct_map dest: inj_onD)

lemma rows_ok_same_subnet:
  assumes "rows_ok rows" and "r \<in> set rows" and "r' \<in> set rows"
    and "OverlaySubnet (row_lease r) = OverlaySubnet (row_lease r')"
  shows "r = r'"
  using assms by (auto simp: rows_ok_def distinct_map dest: inj_onD)

lemma rows_ok_unique:
  assumes "rows_ok rows" "r \<in> set rows" "r' \<in> set rows"
  shows "r = r' \<or> UnderlayIP (row_lease r) \<noteq> UnderlayIP (row_lease r')
     \<and> OverlaySubnet (row_lease r) \<noteq> OverlaySubnet (row_lease r')
     \<and> OverlayHardwareAddr (row_lease r) \<noteq> OverlayHardwareAddr (row_lease r')"
  using assms by (auto simp: rows_ok_def distinct_map dest: inj_onD)

section \<open>The contract\<close>

text \<open>
  \<open>during tbl clock up env w t now w'\<close>: a call that starts in \<open>w\<close> and returns in \<open>w'\<close> runs its
  statement on the table \<open>t\<close> at the time \<open>now\<close>.
\<close>

definition during ::
  "('w \<Rightarrow> subnet_row list) \<Rightarrow> ('w \<Rightarrow> int) \<Rightarrow> ('w \<Rightarrow> bool) \<Rightarrow> (subnet_row list \<Rightarrow> subnet_row list \<Rightarrow> bool)
    \<Rightarrow> 'w \<Rightarrow> subnet_row list \<Rightarrow> int \<Rightarrow> 'w \<Rightarrow> bool" where
  "during tbl clock up env w t now w' \<longleftrightarrow>
     env (tbl w) t \<and> clock w \<le> now \<and> now \<le> clock w' \<and> (up w \<longrightarrow> up w')"

text \<open>A listing returns the selected leases in an unspecified order, and fails only when the service does.\<close>

definition lists_rows :: "bool \<Rightarrow> Lease list result \<Rightarrow> subnet_row list \<Rightarrow> bool" where
  "lists_rows healthy r rows \<longleftrightarrow>
     (case r of Inl _ \<Rightarrow> \<not> healthy | Inr ls \<Rightarrow> mset ls = mset (map row_lease rows))"

text \<open>A search for the oldest row: \<open>None\<close> when there is no row, else a row with the least time.\<close>

definition finds_oldest :: "bool \<Rightarrow> Lease option result \<Rightarrow> subnet_row list \<Rightarrow> bool" where
  "finds_oldest healthy r rows \<longleftrightarrow>
     (case r of Inl _ \<Rightarrow> \<not> healthy
      | Inr None \<Rightarrow> rows = []
      | Inr (Some l) \<Rightarrow> \<exists>x\<in>set rows. row_lease x = l \<and> (\<forall>y\<in>set rows. last_renewed_at x \<le> last_renewed_at y))"

definition finds_row :: "bool \<Rightarrow> Lease option result \<Rightarrow> subnet_row list \<Rightarrow> bool" where
  "finds_row healthy r rows \<longleftrightarrow>
     (case r of Inl _ \<Rightarrow> \<not> healthy
      | Inr None \<Rightarrow> rows = []
      | Inr (Some l) \<Rightarrow> \<exists>x\<in>set rows. row_lease x = l)"

definition finds_time :: "bool \<Rightarrow> int result \<Rightarrow> subnet_row list \<Rightarrow> bool" where
  "finds_time healthy r rows \<longleftrightarrow>
     (case r of Inl _ \<Rightarrow> healthy \<longrightarrow> rows = [] | Inr i \<Rightarrow> \<exists>x\<in>set rows. last_renewed_at x = i)"

text \<open>
  Changes.  When a change reports an error of the service the table may or may not have
  changed: the connection can be lost after the statement was executed.
\<close>

definition adds_row :: "bool \<Rightarrow> go_error option \<Rightarrow> Lease \<Rightarrow> int \<Rightarrow> subnet_row list \<Rightarrow> subnet_row list \<Rightarrow> bool" where
  "adds_row healthy e l now t t' \<longleftrightarrow>
     (case e of
        None \<Rightarrow> \<not> conflicts t l \<and> fits_columns l \<and> t' = insert_row l now t
      | Some _ \<Rightarrow>
          (if conflicts t l \<or> \<not> fits_columns l then t' = t
           else \<not> healthy \<and> (t' = t \<or> t' = insert_row l now t)))"

definition deletes_rows :: "bool \<Rightarrow> go_error option \<Rightarrow> string \<Rightarrow> subnet_row list \<Rightarrow> subnet_row list \<Rightarrow> bool" where
  "deletes_rows healthy e u t t' \<longleftrightarrow>
     (if e = None then list_ex (row_for u) t \<and> t' = delete_rows u t
      else if e = Some RecordNotAffectedError then \<not> list_ex (row_for u) t \<and> t' = t
      else \<not> healthy \<and> (t' = t \<or> t' = delete_rows u t))"

definition renews_rows :: "bool \<Rightarrow> go_error option \<Rightarrow> string \<Rightarrow> int \<Rightarrow> subnet_row list \<Rightarrow> subnet_row list \<Rightarrow> bool" where
  "renews_rows healthy e u now t t' \<longleftrightarrow>
     (case e of None \<Rightarrow> t' = renew_rows u now t
      | Some _ \<Rightarrow> \<not> healthy \<and> (t' = t \<or> t' = renew_rows u now t))"

locale lease_store =
  fixes dh :: "'w databaseHandler"
    and tbl :: "'w \<Rightarrow> subnet_row list"
    and clock :: "'w \<Rightarrow> int"
    and up :: "'w \<Rightarrow> bool"
    and env :: "subnet_row list \<Rightarrow> subnet_row list \<Rightarrow> bool"
  assumes env_ok: "env t t' \<Longrightarrow> rows_ok t \<Longrightarrow> rows_ok t'"
    and AddEntry: "dh_AddEntry dh l w = (e, w') \<Longrightarrow>
      \<exists>t now. during tbl clock up env w t now w' \<and> adds_row (up w) e l now t (tbl w')"
    and DeleteEntry: "dh_DeleteEntry dh u w = (e, w') \<Longrightarrow>
      \<exists>t now. during tbl clock up env w t now w' \<and> deletes_rows (up w) e u t (tbl w')"
    and RenewLease: "dh_RenewLeaseForUnderlayIP dh u w = (e, w') \<Longrightarrow>
      \<exists>t now. during tbl clock up env w t now w' \<and> renews_rows (up w) e u now t (tbl w')"
    and LeaseForUnderlayIP: "dh_LeaseForUnderlayIP dh u w = (r, w') \<Longrightarrow>
      \<exists>now. during tbl clock up env w (tbl w') now w' \<and> finds_row (up w) r (filter (row_for u) (tbl w'))"
    and LastRenewedAt: "dh_LastRenewedAtForUnderlayIP dh u w = (i, w') \<Longrightarrow>
      \<exists>now. during tbl clock up env w (tbl w') now w' \<and> finds_time (up w) i (filter (row_for u) (tbl w'))"
    and All: "dh_All dh w = (rs, w') \<Longrightarrow>
      \<exists>now. during tbl clock up env w (tbl w') now w' \<and> lists_rows (up w) rs (tbl w')"
    and AllBlockSubnets: "dh_AllBlockSubnets dh w = (rs, w') \<Longrightarrow>
      \<exists>now. during tbl clock up env w (tbl w') now w'
        \<and> lists_rows (up w) rs (filter (\<lambda>x. \<not> row_single x) (tbl w'))"
    and AllSingleIPSubnets: "dh_AllSingleIPSubnets dh w = (rs, w') \<Longrightarrow>
      \<exists>now. during tbl clock up env w (tbl w') now w' \<and> lists_rows (up w) rs (filter row_single (tbl w'))"
    and AllActive: "dh_AllActive dh d w = (rs, w') \<Longrightarrow>
      \<exists>now. during tbl clock up env w (tbl w') now w'
        \<and> lists_rows (up w) rs (filter (\<lambda>x. \<not> expired d now x) (tbl w'))"
    and OldestExpiredBlockSubnet: "dh_OldestExpiredBlockSubnet dh d w = (r, w') \<Longrightarrow>
      \<exists>now. during tbl clock up env w (tbl w') now w'
        \<and> finds_oldest (up w) r (filter (\<lambda>x. \<not> row_single x \<and> expired d now x) (tbl w'))"
    and OldestExpiredSingleIP: "dh_OldestExpiredSingleIP dh d w = (r, w') \<Longrightarrow>
      \<exists>now. during tbl clock up env w (tbl w') now w'
        \<and> finds_oldest (up w) r (filter (\<lambda>x. row_single x \<and> expired d now x) (tbl w'))"

text \<open>A store that no other controller uses.\<close>

locale exclusive_store = lease_store +
  assumes exclusive: "env = (=)"

end
