(* ===== verification/CIDR_Pool.thy ===== *)
theory CIDR_Pool
  imports Go_Net
begin

text \<open>
  The pool of subnets the controller leases from: \<^verbatim>\<open>controller/leaser/cidrpool.go\<close> with the
  address arithmetic of the vendored \<^verbatim>\<open>ziutek/utils/netaddr\<close> package.

  A pool holds the texts of its blocks and of its single addresses.  Go's \<^verbatim>\<open>int\<close> and \<^verbatim>\<open>uint\<close>
  have 64 bits; the loop that fills the block pool need not end (a block size of 0), so it
  is a partial function.  The random choice and Go's unspecified map order are parameters
  (\<open>go_runtime\<close>).
\<close>

section \<open>Address arithmetic (netaddr)\<close>

definition IsIPv4 :: "IP \<Rightarrow> bool" where
  "IsIPv4 ip \<longleftrightarrow> length ip = 4 \<or> (take 10 ip = replicate 10 0 \<and> ip ! 10 = 0xff \<and> ip ! 11 = 0xff)"

definition ipToI32 :: "IP \<Rightarrow> 32 word" where
  "ipToI32 ip = (let ip = To4 ip in
     push_bit 24 (ucast (ip ! 0)) OR push_bit 16 (ucast (ip ! 1)) OR push_bit 8 (ucast (ip ! 2)) OR ucast (ip ! 3))"

definition i32ToIP :: "32 word \<Rightarrow> IP" where
  "i32ToIP a = IPv4 (ucast (drop_bit 24 a)) (ucast (drop_bit 16 a)) (ucast (drop_bit 8 a)) (ucast a)"

definition ipToU64 :: "byte list \<Rightarrow> 64 word" where
  "ipToU64 ip =
     push_bit 56 (ucast (ip ! 0)) OR push_bit 48 (ucast (ip ! 1)) OR push_bit 40 (ucast (ip ! 2)) OR
     push_bit 32 (ucast (ip ! 3)) OR push_bit 24 (ucast (ip ! 4)) OR push_bit 16 (ucast (ip ! 5)) OR
     push_bit 8 (ucast (ip ! 6)) OR ucast (ip ! 7)"

definition u64ToIP :: "64 word \<Rightarrow> byte list" where
  "u64ToIP a = map (\<lambda>k. ucast (drop_bit k a)) [56, 48, 40, 32, 24, 16, 8, 0]"

text \<open>The sum is formed in 64-bit \<^verbatim>\<open>int\<close> and truncated to 32 bits, hence the sum modulo \<open>2^32\<close>.\<close>

definition IPAdd :: "IP \<Rightarrow> int \<Rightarrow> IP" where
  "IPAdd ip offset =
     (if IsIPv4 ip then
        let a = sint (ipToI32 (drop (length ip - 4) ip)) in i32ToIP (word_of_int (a + offset))
      else
        let a = ipToU64 (take 8 ip);
            b = ipToU64 (drop 8 ip);
            o' = (word_of_int offset :: 64 word);
            a = (if - 1 - b < o' then a + 1 else a);
            b = b + o';
            a = (if offset < 0 then a + - 1 else a)
        in u64ToIP a @ u64ToIP b)"

section \<open>The pool\<close>

record CIDRPool =
  blockPool :: "string list"
  singlePool :: "string list"

text \<open>\<^verbatim>\<open>1 << n\<close> of type \<^verbatim>\<open>int\<close>, and addition of \<^verbatim>\<open>int\<close>s.\<close>

definition shl1 :: "64 word \<Rightarrow> int" where
  "shl1 n = (if unat n \<ge> 64 then 0 else sint (push_bit (unat n) (1 :: 64 word)))"

definition int_add :: "int \<Rightarrow> int \<Rightarrow> int" where
  "int_add a b = sint (word_of_int (a + b) :: 64 word)"

partial_function (option) blockPool_loop ::
  "IP \<Rightarrow> 64 word \<Rightarrow> int \<Rightarrow> int \<Rightarrow> int \<Rightarrow> string list \<Rightarrow> string list option" where
  "blockPool_loop ipStart cidrMaskBlock fullRange blockSize i pool =
     (if i < fullRange then
        blockPool_loop ipStart cidrMaskBlock fullRange blockSize (int_add i blockSize)
          (key_insert (IP_String (IPAdd ipStart i) @ ''/'' @ itoa (unat cidrMaskBlock)) pool)
      else Some pool)"

declare blockPool_loop.simps [code]

definition generateBlockPool :: "IP \<Rightarrow> 64 word \<Rightarrow> 64 word \<Rightarrow> string list option" where
  "generateBlockPool ipStart cidrMask cidrMaskBlock =
     (let fullRange = shl1 (32 - cidrMask); blockSize = shl1 (32 - cidrMaskBlock)
      in blockPool_loop ipStart cidrMaskBlock fullRange blockSize blockSize [])"

text \<open>Here \<^verbatim>\<open>i++\<close> cannot overflow: \<open>i < blockSize\<close> holds before it.\<close>

function singlePool_loop :: "IP \<Rightarrow> int \<Rightarrow> int \<Rightarrow> string list \<Rightarrow> string list" where
  "singlePool_loop ipStart blockSize i pool =
     (if i < blockSize then
        singlePool_loop ipStart blockSize (i + 1) (key_insert (IP_String (IPAdd ipStart i) @ ''/32'') pool)
      else pool)"
  by pat_completeness auto
termination
  by (relation "measure (\<lambda>(ip, b, i, pool). nat (b - i))") auto

declare singlePool_loop.simps [simp del]

definition generateSingleIPPool :: "IP \<Rightarrow> 64 word \<Rightarrow> string list" where
  "generateSingleIPPool ipStart cidrMaskBlock =
     (let blockSize = shl1 (32 - cidrMaskBlock) in singlePool_loop ipStart blockSize 1 [])"

text \<open>
  \<open>None\<close>: the construction does not return; \<open>Some (Inl e)\<close>: it panics with \<open>e\<close>.
\<close>

definition NewCIDRPool :: "string \<Rightarrow> int \<Rightarrow> CIDRPool result option" where
  "NewCIDRPool subnetRange subnetMask =
     (case ParseCIDR subnetRange of
        Inl err \<Rightarrow> Some (Inl err)
      | Inr (_, ipCIDR) \<Rightarrow>
          let cidrMask = fst (Mask_Size (IPNet_Mask ipCIDR)) in
          (case generateBlockPool (IPNet_IP ipCIDR) (of_nat cidrMask) (word_of_int subnetMask) of
             None \<Rightarrow> None
           | Some blocks \<Rightarrow>
               Some (Inr \<lparr>blockPool = blocks,
                          singlePool = generateSingleIPPool (IPNet_IP ipCIDR) (word_of_int subnetMask)\<rparr>)))"

definition GetBlockPool :: "CIDRPool \<Rightarrow> string list" where
  "GetBlockPool c = blockPool c"

definition GetSinglePool :: "CIDRPool \<Rightarrow> string list" where
  "GetSinglePool c = singlePool c"

definition BlockPoolSize :: "CIDRPool \<Rightarrow> nat" where
  "BlockPoolSize c = length (blockPool c)"

definition SingleIPPoolSize :: "CIDRPool \<Rightarrow> nat" where
  "SingleIPPoolSize c = length (singlePool c)"

section \<open>Choosing from the pool\<close>

text \<open>
  What the choice takes from the Go runtime: \<open>Intn\<close> is \<^verbatim>\<open>rand.Intn\<close>, \<open>MapOrder\<close> the order in
  which a \<^verbatim>\<open>range\<close> over a map visits the keys.  Both may depend on, and advance, hidden state.
\<close>

record 'w go_runtime =
  Intn :: "nat \<Rightarrow> 'w \<Rightarrow> nat \<times> 'w"
  MapOrder :: "string list \<Rightarrow> 'w \<Rightarrow> string list \<times> 'w"

fun pick_loop :: "nat \<Rightarrow> nat \<Rightarrow> string list \<Rightarrow> string" where
  "pick_loop i n [] = []"
| "pick_loop i n (subnet # r) = (if i = n then subnet else pick_loop i (Suc n) r)"

definition getAvailable :: "'w go_runtime \<Rightarrow> string list \<Rightarrow> string list \<Rightarrow> 'w \<Rightarrow> string \<times> 'w" where
  "getAvailable rt taken pool w =
     (let available = foldl (\<lambda>av subnet. filter (\<lambda>k. k \<noteq> subnet) av) pool taken in
      if length available = 0 then ([], w)
      else case Intn rt (length available) w of (i, w) \<Rightarrow>
           case MapOrder rt available w of (ks, w) \<Rightarrow> (pick_loop i 0 ks, w))"

definition GetAvailableBlock :: "'w go_runtime \<Rightarrow> CIDRPool \<Rightarrow> string list \<Rightarrow> 'w \<Rightarrow> string \<times> 'w" where
  "GetAvailableBlock rt c taken w = getAvailable rt taken (blockPool c) w"

definition GetAvailableSingleIP :: "'w go_runtime \<Rightarrow> CIDRPool \<Rightarrow> string list \<Rightarrow> 'w \<Rightarrow> string \<times> 'w" where
  "GetAvailableSingleIP rt c taken w = getAvailable rt taken (singlePool c) w"

definition IsMember :: "CIDRPool \<Rightarrow> string \<Rightarrow> bool" where
  "IsMember c subnet \<longleftrightarrow> subnet \<in> set (blockPool c) \<or> subnet \<in> set (singlePool c)"

text \<open>What the choice relies on: \<^verbatim>\<open>rand.Intn(n)\<close> is below \<open>n\<close> and a map range visits each key once.\<close>

definition runtime_ok :: "'w go_runtime \<Rightarrow> bool" where
  "runtime_ok rt \<longleftrightarrow> (\<forall>n w. 0 < n \<longrightarrow> fst (Intn rt n w) < n)
     \<and> (\<forall>ks w. mset (fst (MapOrder rt ks w)) = mset ks)"

section \<open>Lemmas on address arithmetic\<close>

lemma IPAdd_bytes32: "IPAdd (bytes32 b) i = v4InV6Prefix @ bytes32 (b + word_of_int i)"
proof -
  have "ipToI32 (bytes32 b) = b"
    using word32_bytes32 [of b] by (simp add: ipToI32_def word32_def)
  moreover have "word_of_int (sint b + i) = b + word_of_int i"
    by (simp add: wi_hom_add [symmetric])
  ultimately show ?thesis
    by (simp add: IPAdd_def IsIPv4_def i32ToIP_def IPv4_def) (simp add: bytes32_def)
qed

lemma IPAdd_text:
  "IP_String (IPAdd (bytes32 b) i) @ ''/'' @ itoa n = cidr_text (b + word_of_int i) n"
  by (simp add: IPAdd_bytes32 IP_String_v4 cidr_text_def)

lemma IPAdd_text32: "IP_String (IPAdd (bytes32 b) i) @ ''/32'' = cidr_text (b + word_of_int i) 32"
proof -
  have "itoa 32 = ''32''" by code_simp
  then show ?thesis using IPAdd_text [of b i 32] by simp
qed

lemma shl1_small:
  assumes "k \<le> 32" shows "shl1 (32 - of_nat k) = 2 ^ (32 - k)"
proof -
  have "\<forall>k \<in> set [0..<33]. shl1 (32 - of_nat k) = 2 ^ (32 - k)" by code_simp
  then show ?thesis using assms by (rule all_upto_32)
qed

lemma int_add_small: "0 \<le> a \<Longrightarrow> 0 \<le> b \<Longrightarrow> a + b < 2 ^ 63 \<Longrightarrow> int_add a b = a + b"
  unfolding int_add_def by (simp only: signed_of_int) (simp add: signed_take_bit_int_eq_self)

section \<open>Lemmas on the pool loops\<close>

lemma foldl_key_insert:
  assumes "distinct (pool @ map t js)"
  shows "foldl (\<lambda>p j. key_insert (t j) p) pool js = pool @ map t js"
  using assms
proof (induction js arbitrary: pool)
  case (Cons j js)
  then have "key_insert (t j) pool = pool @ [t j]" by (simp add: key_insert_fresh)
  with Cons show ?case by simp
qed simp

lemma upt_0_Suc: "[0..<Suc n] = 0 # map Suc [0..<n]"
  by (simp add: map_Suc_upt upt_conv_Cons)

lemma blockPool_loop_unroll:
  assumes "0 < bs" "bs \<le> 2 ^ 32" "fr \<le> 2 ^ 32" "0 \<le> i"
    and "\<And>k. k < n \<Longrightarrow> i + int k * bs < fr" "fr \<le> i + int n * bs"
  shows "blockPool_loop ip m fr bs i pool
       = Some (foldl (\<lambda>p k. key_insert (IP_String (IPAdd ip (i + int k * bs)) @ ''/'' @ itoa (unat m)) p) pool [0..<n])"
  using assms
proof (induction n arbitrary: i pool)
  case 0
  then show ?case by (subst blockPool_loop.simps) simp
next
  case (Suc n)
  have i: "i < fr" using Suc.prems(5) [of 0] by simp
  have add: "int_add i bs = i + bs" using Suc.prems i by (intro int_add_small) auto
  have step: "i + bs + int k * bs < fr" if "k < n" for k
    using Suc.prems(5) [of "Suc k"] that by (simp add: algebra_simps)
  have IH: "blockPool_loop ip m fr bs (i + bs) q
      = Some (foldl (\<lambda>p k. key_insert (IP_String (IPAdd ip (i + bs + int k * bs)) @ ''/'' @ itoa (unat m)) p) q [0..<n])" for q
    using Suc.prems(1-4,6) step by (intro Suc.IH) (auto simp: algebra_simps)
  show ?case
    using i by (subst blockPool_loop.simps)
      (simp add: add IH upt_0_Suc foldl_map distrib_right add.assoc del: upt_Suc)
qed

lemma singlePool_loop_unroll:
  assumes "int n = bs - i"
  shows "singlePool_loop ip bs i pool
       = foldl (\<lambda>p k. key_insert (IP_String (IPAdd ip (i + int k)) @ ''/32'') p) pool [0..<n]"
  using assms
proof (induction n arbitrary: i pool)
  case 0
  then show ?case by (subst singlePool_loop.simps) simp
next
  case (Suc n)
  then have "i < bs" and "int n = bs - (i + 1)" by simp_all
  then show ?case
    using Suc.IH [of "i + 1"] by (subst singlePool_loop.simps)
      (simp add: upt_0_Suc foldl_map algebra_simps del: upt_Suc)
qed

text \<open>
  Shifting an address by \<open>k\<close> blocks of \<open>2 ^ (32 - m)\<close> addresses, for the block numbers of a
  network with prefix \<open>c\<close>, never wraps around, and different numbers give different addresses.
\<close>

lemma offset_inj:
  assumes "(of_nat (k * s) :: 32 word) = of_nat (j * s)" "k * s < 2 ^ 32" "j * s < 2 ^ 32" "0 < s"
  shows "k = j"
proof -
  have "k * s = j * s"
    using assms(1-3) take_bit_nat_eq_self [of "k * s" 32] take_bit_nat_eq_self [of "j * s" 32]
    by (simp only: word_of_nat_eq_iff) simp
  then show ?thesis using assms(4) by simp
qed

lemma distinct_offsets:
  assumes "N * s \<le> 2 ^ 32" "0 < s"
  shows "distinct (map (\<lambda>k. cidr_text ((b :: 32 word) + of_nat (k * s)) n) [a..<N])"
proof -
  have lt: "k * s < 2 ^ 32" if "k < N" for k
  proof -
    have "k * s < N * s" using that assms(2) by simp
    with assms(1) show ?thesis by (rule less_le_trans [rotated])
  qed
  have "inj_on (\<lambda>k. cidr_text (b + of_nat (k * s)) n) (set [a..<N])"
    using lt assms(2) by (auto intro!: inj_onI elim!: offset_inj simp del: of_nat_mult)
  then show ?thesis by (simp add: distinct_map)
qed

lemma Mask_Size_CIDRMask: "c \<le> 32 \<Longrightarrow> Mask_Size (CIDRMask (int c) 32) = (c, 32)"
  by (simp add: Mask_Size_def simpleMaskLength_CIDRMask CIDRMask_32_length)

lemma pow32_le: "(2 :: nat) ^ (32 - k) \<le> 4294967296"
  using power_increasing [of "32 - k" 32 "2 :: nat"] by simp

lemma map_Suc_index: "map (\<lambda>k. f (Suc k)) [0..<n] = map f [1..<Suc n]"
proof -
  have "map (\<lambda>k. f (Suc k)) [0..<n] = map f (map Suc [0..<n])" by simp
  then show ?thesis by (simp add: map_Suc_upt)
qed

lemma offset_shift:
  "map (\<lambda>k. cidr_text (b + of_nat (Suc k * s)) n) [0..<N] = map (\<lambda>k. cidr_text (b + of_nat (k * s)) n) [1..<Suc N]"
  by (rule map_Suc_index)

lemma generateBlockPool_v4:
  assumes "c \<le> 32" "m \<le> 32"
  shows "generateBlockPool (bytes32 b) (of_nat c) (of_nat m)
       = Some (map (\<lambda>k. cidr_text (b + of_nat (k * 2 ^ (32 - m))) m) [1..<2 ^ (m - c)])"
proof -
  define S :: nat where "S = 2 ^ (32 - m)"
  define F :: nat where "F = 2 ^ (32 - c)"
  define n :: nat where "n = 2 ^ (m - c) - 1"
  have n1: "Suc n = 2 ^ (m - c)" by (simp add: n_def)
  have S: "0 < S" "S \<le> 2 ^ 32" and F: "F \<le> 2 ^ 32"
    by (simp_all add: S_def F_def pow32_le)
  have FS: "F = Suc n * S" if "c \<le> m"
    using that assms by (simp add: n1 S_def F_def flip: power_add)
  have SF: "n = 0 \<and> F \<le> S" if "m \<le> c"
    using that by (simp add: n_def S_def F_def power_increasing)
  have len: "Suc n * S \<le> 2 ^ 32"
    using FS SF S(2) F by (cases "c \<le> m") auto
  have um: "unat (of_nat m :: 64 word) = m"
    using assms(2) by (simp add: unat_of_nat take_bit_nat_eq_self)
  have idx: "int S + int k * int S = int (Suc k * S)" for k by (simp add: algebra_simps)
  have lt: "int S + int k * int S < int F" if "k < n" for k
  proof -
    have "c \<le> m" using SF that by linarith
    moreover have "Suc k * S < Suc n * S" using that S(1) by simp
    ultimately show ?thesis using FS by (simp only: idx of_nat_less_iff)
  qed
  have ge: "int F \<le> int S + int n * int S"
    using FS SF by (simp only: idx of_nat_le_iff) (cases "c \<le> m"; simp)
  have "blockPool_loop (bytes32 b) (of_nat m) (int F) (int S) (int S) []
      = Some (foldl (\<lambda>p k. key_insert (IP_String (IPAdd (bytes32 b) (int S + int k * int S)) @ ''/'' @ itoa (unat (of_nat m :: 64 word))) p) [] [0..<n])"
    by (rule blockPool_loop_unroll) (use S F lt ge in auto)
  also have "foldl (\<lambda>p k. key_insert (IP_String (IPAdd (bytes32 b) (int S + int k * int S)) @ ''/'' @ itoa (unat (of_nat m :: 64 word))) p) [] [0..<n]
      = foldl (\<lambda>p k. key_insert (cidr_text (b + of_nat (Suc k * S)) m) p) [] [0..<n]"
    by (simp only: um IPAdd_text idx of_int_of_nat_eq)
  also have "\<dots> = map (\<lambda>k. cidr_text (b + of_nat (Suc k * S)) m) [0..<n]"
    using distinct_offsets [OF len S(1), of b m 1]
    by (subst foldl_key_insert) (simp_all only: offset_shift append_Nil)
  also have "\<dots> = map (\<lambda>k. cidr_text (b + of_nat (k * S)) m) [1..<2 ^ (m - c)]"
    by (simp only: offset_shift n1)
  finally show ?thesis
    using assms by (simp add: generateBlockPool_def Let_def shl1_small S_def F_def)
qed

lemma generateSingleIPPool_v4:
  assumes "m \<le> 32"
  shows "generateSingleIPPool (bytes32 b) (of_nat m)
       = map (\<lambda>k. cidr_text (b + of_nat k) 32) [1..<2 ^ (32 - m)]"
proof -
  define S :: nat where "S = 2 ^ (32 - m)"
  define n :: nat where "n = S - 1"
  have S: "S = Suc n" "S \<le> 2 ^ 32" by (simp_all add: S_def n_def pow32_le)
  have ds: "distinct (map (\<lambda>k. cidr_text (b + of_nat (k * 1)) 32) [1..<Suc n])"
    by (rule distinct_offsets) (use S in simp_all)
  have "singlePool_loop (bytes32 b) (int S) 1 []
      = foldl (\<lambda>p k. key_insert (IP_String (IPAdd (bytes32 b) (1 + int k)) @ ''/32'') p) [] [0..<n]"
    by (rule singlePool_loop_unroll) (simp add: S)
  also have "\<dots> = foldl (\<lambda>p k. key_insert (cidr_text (b + of_nat (Suc k * 1)) 32) p) [] [0..<n]"
  proof -
    have "1 + int k = int (Suc k * 1)" for k by simp
    then show ?thesis by (simp only: IPAdd_text32 of_int_of_nat_eq)
  qed
  also have "\<dots> = map (\<lambda>k. cidr_text (b + of_nat (Suc k * 1)) 32) [0..<n]"
    using ds by (subst foldl_key_insert) (simp_all only: offset_shift append_Nil)
  also have "\<dots> = map (\<lambda>k. cidr_text (b + of_nat k) 32) [1..<S]"
    using map_Suc_index [of "\<lambda>k. cidr_text (b + of_nat k) 32" n] by (simp only: S mult_1_right)
  finally show ?thesis
    using assms by (simp add: generateSingleIPPool_def Let_def shl1_small S_def)
qed

lemma NewCIDRPool_v4:
  assumes "ParseCIDR subnetRange = Inr (ip, cidr_net w c)" "c \<le> 32" "m \<le> 32"
  shows "NewCIDRPool subnetRange (int m) = Some (Inr
     \<lparr>blockPool = map (\<lambda>k. cidr_text ((w AND mask32 c) + of_nat (k * 2 ^ (32 - m))) m) [1..<2 ^ (m - c)],
      singlePool = map (\<lambda>k. cidr_text ((w AND mask32 c) + of_nat k) 32) [1..<2 ^ (32 - m)]\<rparr>)"
  using assms generateBlockPool_v4 [of c m] generateSingleIPPool_v4 [of m]
  by (simp add: NewCIDRPool_def cidr_net_def Mask_Size_CIDRMask)

text \<open>A CIDR text whose mask has four bytes denotes an IPv4 network.\<close>

lemma ParseCIDR_v4_sound:
  assumes "ParseCIDR s = Inr (ip, net)" "length (IPNet_Mask net) = 4"
  obtains w n where "n \<le> 32" "ip = v4InV6Prefix @ bytes32 w" "net = cidr_net w n"
proof -
  define addr where "addr = takeWhile (\<lambda>c. c \<noteq> CHR ''/'') s"
  define mtxt where "mtxt = tl (dropWhile (\<lambda>c. c \<noteq> CHR ''/'') s)"
  obtain n i ok where d: "dtoi mtxt = (n, i, ok)" by (metis prod_cases3)
  have "parseIPv4 addr \<noteq> None"
  proof
    assume none: "parseIPv4 addr = None"
    have "length (CIDRMask n 128) = 16" if "0 \<le> n" "n \<le> 128"
      using that by (simp add: CIDRMask_def)
    then show False
      using assms d none
      by (auto simp: ParseCIDR_def Let_def addr_def mtxt_def split: if_splits option.splits)
  qed
  then obtain ip4 where p4: "parseIPv4 addr = Some ip4" by blast
  then obtain p where p: "length p = 4" "ip4 = v4InV6Prefix @ p" by (rule parseIPv4_sound)
  from assms(1) d p4 have n: "0 \<le> n" "n \<le> 32" and ip: "ip = ip4"
    and net: "net = \<lparr>IPNet_IP = IP_Mask ip4 (CIDRMask n 32), IPNet_Mask = CIDRMask n 32\<rparr>"
    by (auto simp: ParseCIDR_def Let_def addr_def mtxt_def split: if_splits)
  have "net = cidr_net (word32 p) (nat n)"
    using net n p map2_and_bytes32 [of "word32 p" "mask32 (nat n)"] CIDRMask_bytes32 [of "nat n"]
    by (simp add: cidr_net_def IP_Mask_v4)
  then show ?thesis using that [of "nat n" "word32 p"] n ip p by simp
qed

section \<open>What the pools contain\<close>

text \<open>
  Arithmetic of a base address aligned to \<open>2 ^ (32 - c)\<close>: adding less than the size of the
  network does not wrap.
\<close>

lemma aligned_offset:
  assumes "c \<le> 32" "d < 2 ^ (32 - c)"
  shows "unat ((w AND mask32 c) + of_nat d) = unat (w AND mask32 c) + d"
proof -
  have w: "unat w < 2 ^ c * 2 ^ (32 - c)"
    using unsigned_less [of w, where 'a = nat] assms(1) by (simp flip: power_add)
  then have "unat w div 2 ^ (32 - c) < 2 ^ c" by (simp add: less_mult_imp_div_less)
  then have "Suc (unat w div 2 ^ (32 - c)) * 2 ^ (32 - c) \<le> 2 ^ c * 2 ^ (32 - c)"
    by (intro mult_le_mono1) simp
  also have "\<dots> = 2 ^ 32" using assms(1) by (simp flip: power_add)
  finally have "unat (w AND mask32 c) + 2 ^ (32 - c) \<le> 2 ^ 32"
    using assms(1) by (simp add: unat_and_mask32)
  then have "unat (w AND mask32 c) + d < 2 ^ 32" using assms(2) by linarith
  moreover from this have "unat (of_nat d :: 32 word) = d"
    by (simp add: unat_of_nat take_bit_nat_eq_self)
  ultimately show ?thesis by (simp add: unat_word_ariths)
qed

text \<open>
  The blocks of a pool are numbered: with \<open>S = 2 ^ (32 - m)\<close>, block \<open>k\<close> holds the addresses
  whose quotient by \<open>S\<close> is \<open>B + k\<close>; block 0, which is not in the block pool, holds the single
  addresses.
\<close>

lemma block_member:
  assumes "ParseCIDR subnetRange = Inr (ip, cidr_net w c)" "c \<le> m" "m \<le> 32"
    and "NewCIDRPool subnetRange (int m) = Some (Inr pool)" "s \<in> set (blockPool pool)"
  obtains k where "0 < k" "k < 2 ^ (m - c)"
    "s = cidr_text ((w AND mask32 c) + of_nat (k * 2 ^ (32 - m))) m"
    "\<And>x. Contains (cidr_net ((w AND mask32 c) + of_nat (k * 2 ^ (32 - m))) m) (bytes32 x)
        \<longleftrightarrow> unat x div 2 ^ (32 - m) = unat w div 2 ^ (32 - c) * 2 ^ (m - c) + k"
proof -
  have c32: "c \<le> 32" using assms by simp
  have split: "(2 :: nat) ^ (32 - c) = 2 ^ (m - c) * 2 ^ (32 - m)"
    using assms by (simp flip: power_add)
  have "blockPool pool = map (\<lambda>k. cidr_text ((w AND mask32 c) + of_nat (k * 2 ^ (32 - m))) m) [1..<2 ^ (m - c)]"
    using NewCIDRPool_v4 [OF assms(1) c32 assms(3)] assms(4) by (simp del: of_nat_mult)
  with assms(5) obtain k where "k \<in> set [1..<2 ^ (m - c)]"
    and s: "s = cidr_text ((w AND mask32 c) + of_nat (k * 2 ^ (32 - m))) m"
    by (simp only: set_map) (erule imageE)
  then have k: "0 < k" "k < 2 ^ (m - c)" by simp_all
  have "k * 2 ^ (32 - m) < 2 ^ (32 - c)" using k split by simp
  from aligned_offset [OF c32 this, of w]
  have "unat ((w AND mask32 c) + of_nat (k * 2 ^ (32 - m)))
      = (unat w div 2 ^ (32 - c) * 2 ^ (m - c) + k) * 2 ^ (32 - m)"
    using c32 by (simp add: unat_and_mask32 split algebra_simps del: of_nat_mult)
  then have "Contains (cidr_net ((w AND mask32 c) + of_nat (k * 2 ^ (32 - m))) m) (bytes32 x)
      \<longleftrightarrow> unat x div 2 ^ (32 - m) = unat w div 2 ^ (32 - c) * 2 ^ (m - c) + k" for x
    using assms(3) by (auto simp: Contains_cidr_net simp del: of_nat_mult)
  with k s show ?thesis by (rule that)
qed

lemma single_member:
  assumes "ParseCIDR subnetRange = Inr (ip, cidr_net w c)" "c \<le> m" "m \<le> 32"
    and "NewCIDRPool subnetRange (int m) = Some (Inr pool)" "s \<in> set (singlePool pool)"
  obtains k where "0 < k" "k < 2 ^ (32 - m)" "s = cidr_text ((w AND mask32 c) + of_nat k) 32"
    "\<And>x. Contains (cidr_net ((w AND mask32 c) + of_nat k) 32) (bytes32 x)
        \<longleftrightarrow> unat x = unat w div 2 ^ (32 - c) * 2 ^ (m - c) * 2 ^ (32 - m) + k"
proof -
  have c32: "c \<le> 32" using assms by simp
  have split: "(2 :: nat) ^ (32 - c) = 2 ^ (m - c) * 2 ^ (32 - m)"
    using assms by (simp flip: power_add)
  have "singlePool pool = map (\<lambda>k. cidr_text ((w AND mask32 c) + of_nat k) 32) [1..<2 ^ (32 - m)]"
    using NewCIDRPool_v4 [OF assms(1) c32 assms(3)] assms(4) by (simp del: of_nat_mult)
  with assms(5) obtain k where "k \<in> set [1..<2 ^ (32 - m)]" and s: "s = cidr_text ((w AND mask32 c) + of_nat k) 32"
    by (simp only: set_map) (erule imageE)
  then have k: "0 < k" "k < 2 ^ (32 - m)" by simp_all
  have "(2 :: nat) ^ (32 - m) \<le> 2 ^ (32 - c)" using assms(2) by (simp add: power_increasing)
  with k have "k < 2 ^ (32 - c)" by linarith
  from aligned_offset [OF c32 this, of w]
  have "unat ((w AND mask32 c) + of_nat k) = unat w div 2 ^ (32 - c) * 2 ^ (m - c) * 2 ^ (32 - m) + k"
    using c32 by (simp add: unat_and_mask32 split algebra_simps)
  then have "Contains (cidr_net ((w AND mask32 c) + of_nat k) 32) (bytes32 x)
      \<longleftrightarrow> unat x = unat w div 2 ^ (32 - c) * 2 ^ (m - c) * 2 ^ (32 - m) + k" for x
    by (auto simp: Contains_cidr_net)
  with k s show ?thesis by (rule that)
qed

text \<open>
  Both kinds at once: a member parses to the network of a number in \<open>blk\<close> (the block the
  address lies in) and \<open>off\<close> (\<open>None\<close>: all of the block, \<open>Some j\<close>: one address of it).
\<close>

lemma pool_member:
  assumes "ParseCIDR subnetRange = Inr (ip, cidr_net w c)" "c \<le> m" "m \<le> 32"
    and "NewCIDRPool subnetRange (int m) = Some (Inr pool)" "IsMember pool s"
  obtains v n net where "n \<le> 32" "s = cidr_text v n" "net = cidr_net v n" "ParseCIDR s = Inr (v4InV6Prefix @ bytes32 v, net)"
    "\<And>x. Contains net (bytes32 x) \<Longrightarrow> Contains (cidr_net w c) (bytes32 x)"
proof -
  have c32: "c \<le> 32" using assms by simp
  have split: "(2 :: nat) ^ (32 - c) = 2 ^ (32 - m) * 2 ^ (m - c)"
    using assms by (simp flip: power_add)
  have inside: "unat w div 2 ^ (32 - c) = unat x div 2 ^ (32 - c)"
    if "unat x div 2 ^ (32 - m) = unat w div 2 ^ (32 - c) * 2 ^ (m - c) + k" "k < 2 ^ (m - c)" for x :: "32 word" and k
  proof -
    have "unat x div 2 ^ (32 - c) = unat x div 2 ^ (32 - m) div 2 ^ (m - c)"
      by (simp only: split div_mult2_eq)
    then show ?thesis using that by simp
  qed
  from assms(5) consider "s \<in> set (blockPool pool)" | "s \<in> set (singlePool pool)"
    by (auto simp: IsMember_def)
  then show ?thesis
  proof cases
    case 1
    with assms(1-4) obtain k where k: "k < 2 ^ (m - c)"
      and s: "s = cidr_text ((w AND mask32 c) + of_nat (k * 2 ^ (32 - m))) m"
      and con: "\<And>x. Contains (cidr_net ((w AND mask32 c) + of_nat (k * 2 ^ (32 - m))) m) (bytes32 x)
        \<longleftrightarrow> unat x div 2 ^ (32 - m) = unat w div 2 ^ (32 - c) * 2 ^ (m - c) + k"
      by (rule block_member) blast
    show ?thesis
      using that [OF assms(3) s refl] assms(3) s con k inside c32
      by (simp add: ParseCIDR_cidr_text Contains_cidr_net [of c] del: of_nat_mult)
  next
    case 2
    with assms(1-4) obtain k where k: "k < 2 ^ (32 - m)"
      and s: "s = cidr_text ((w AND mask32 c) + of_nat k) 32"
      and con: "\<And>x. Contains (cidr_net ((w AND mask32 c) + of_nat k) 32) (bytes32 x)
        \<longleftrightarrow> unat x = unat w div 2 ^ (32 - c) * 2 ^ (m - c) * 2 ^ (32 - m) + k"
      by (rule single_member) blast
    have "Contains (cidr_net w c) (bytes32 x)" if "Contains (cidr_net ((w AND mask32 c) + of_nat k) 32) (bytes32 x)" for x
      using that con [of x] inside [of x 0] k c32 by (simp add: Contains_cidr_net)
    then show ?thesis
      using that [OF _ s refl] s by (simp add: ParseCIDR_cidr_text)
  qed
qed

lemma pool_member_disjoint:
  assumes "ParseCIDR subnetRange = Inr (ip, cidr_net w c)" "c \<le> m" "m \<le> 32"
    and "NewCIDRPool subnetRange (int m) = Some (Inr pool)" "IsMember pool (cidr_text u a)" "IsMember pool (cidr_text v b)"
    and "Contains (cidr_net u a) (bytes32 x)" "Contains (cidr_net v b) (bytes32 x)"
  shows "cidr_text u a = cidr_text v b"
proof -
  let ?B = "unat w div 2 ^ (32 - c) * 2 ^ (m - c)"
  let ?S = "(2 :: nat) ^ (32 - m)"
  have blk: "\<exists>k. 0 < k \<and> cidr_text u a = cidr_text ((w AND mask32 c) + of_nat (k * ?S)) m \<and> unat x div ?S = ?B + k"
    if "cidr_text u a \<in> set (blockPool pool)" "Contains (cidr_net u a) (bytes32 x)" for u a
    using assms(1-4) that(1) by (rule block_member) (use that(2) in \<open>auto simp del: of_nat_mult\<close>)
  have sgl: "\<exists>k. cidr_text u a = cidr_text ((w AND mask32 c) + of_nat k) 32 \<and> unat x = ?B * ?S + k \<and> unat x div ?S = ?B"
    if "cidr_text u a \<in> set (singlePool pool)" "Contains (cidr_net u a) (bytes32 x)" for u a
    using assms(1-4) that(1) by (rule single_member) (use that(2) in auto)
  show ?thesis
    using assms(5-8) blk [of u a] blk [of v b] sgl [of u a] sgl [of v b]
    by (auto simp: IsMember_def simp del: of_nat_mult)
qed

text \<open>
  C7.  The pools divide the overlay network into disjoint subnets.  For an IPv4 network no smaller than a block,
  building the pool returns; every member of the block pool and of the single-address pool
  is a CIDR text whose addresses all lie in the overlay network, and two different members
  have no address in common.
\<close>

theorem pool_partition:
  assumes "ParseCIDR subnetRange = Inr (ip, overlay)" "length (IPNet_Mask overlay) = 4"
    and "fst (Mask_Size (IPNet_Mask overlay)) \<le> m" "m \<le> 32"
  shows "\<exists>pool. NewCIDRPool subnetRange (int m) = Some (Inr pool) \<and>
    (\<forall>s. IsMember pool s \<longrightarrow> (\<exists>a net. ParseCIDR s = Inr (a, net) \<and>
        (\<forall>x. Contains net (bytes32 x) \<longrightarrow> Contains overlay (bytes32 x)))) \<and>
    (\<forall>s t a net b net'. IsMember pool s \<longrightarrow> IsMember pool t \<longrightarrow> s \<noteq> t \<longrightarrow>
        ParseCIDR s = Inr (a, net) \<longrightarrow> ParseCIDR t = Inr (b, net') \<longrightarrow>
        (\<forall>x. \<not> (Contains net (bytes32 x) \<and> Contains net' (bytes32 x))))"
proof -
  obtain w c where c: "c \<le> 32" and ov: "overlay = cidr_net w c"
    using assms(1,2) by (rule ParseCIDR_v4_sound)
  have range: "ParseCIDR subnetRange = Inr (ip, cidr_net w c)" using assms(1) ov by simp
  have cm: "c \<le> m" using assms(3) c by (simp add: ov cidr_net_def Mask_Size_CIDRMask)
  obtain pool where pool: "NewCIDRPool subnetRange (int m) = Some (Inr pool)"
    using NewCIDRPool_v4 [OF range c assms(4)] by blast
  have in_net: "\<exists>a net. ParseCIDR s = Inr (a, net) \<and>
      (\<forall>x. Contains net (bytes32 x) \<longrightarrow> Contains overlay (bytes32 x))" if "IsMember pool s" for s
    using range cm assms(4) pool that by (rule pool_member) (auto simp: ov)
  have disj: "\<not> (Contains net (bytes32 x) \<and> Contains net' (bytes32 x))"
    if st: "IsMember pool s" "IsMember pool t" "s \<noteq> t"
      and p: "ParseCIDR s = Inr (a, net)" "ParseCIDR t = Inr (b, net')" for s t a net b net' x
  proof -
    obtain u n where s: "n \<le> 32" "s = cidr_text u n"
      using range cm assms(4) pool st(1) by (rule pool_member) blast
    obtain v k where t: "k \<le> 32" "t = cidr_text v k"
      using range cm assms(4) pool st(2) by (rule pool_member) blast
    have "net = cidr_net u n" "net' = cidr_net v k" using p s t by (simp_all add: ParseCIDR_cidr_text)
    then show ?thesis
      using pool_member_disjoint [OF range cm assms(4) pool, of u n v k x] st s t by blast
  qed
  show ?thesis using pool in_net disj by blast
qed

theorem pool_partition_witness:
  "\<exists>pool. NewCIDRPool ''10.255.0.9/28'' 30 = Some (Inr pool) \<and>
     (\<forall>s. IsMember pool s \<longrightarrow> (\<exists>a net. ParseCIDR s = Inr (a, net)))"
proof -
  have p: "ParseCIDR ''10.255.0.9/28''
      = Inr (IPv4 10 255 0 9, \<lparr>IPNet_IP = [10, 255, 0, 0], IPNet_Mask = [255, 255, 255, 240]\<rparr>)"
    by code_simp
  have m: "fst (Mask_Size (IPNet_Mask \<lparr>IPNet_IP = [10, 255, 0, 0], IPNet_Mask = [255, 255, 255, 240]\<rparr>)) \<le> 30"
    by code_simp
  show ?thesis using pool_partition [OF p _ m] by fastforce
qed

text \<open>
  C30.  Pool sizes: the block pool has \<open>2 ^ (m - c) - 1\<close> different members (the first block of
  the network is kept back) and the single-address pool, which is the kept-back block
  without its first address, has \<open>2 ^ (32 - m) - 1\<close>.
\<close>

theorem pool_sizes:
  assumes "ParseCIDR subnetRange = Inr (ip, overlay)" "length (IPNet_Mask overlay) = 4" "m \<le> 32"
    and "NewCIDRPool subnetRange (int m) = Some (Inr pool)"
  shows "BlockPoolSize pool = 2 ^ (m - fst (Mask_Size (IPNet_Mask overlay))) - 1 \<and> distinct (blockPool pool)
       \<and> SingleIPPoolSize pool = 2 ^ (32 - m) - 1 \<and> distinct (singlePool pool)"
proof -
  obtain w c where c: "c \<le> 32" and ov: "overlay = cidr_net w c"
    using assms(1,2) by (rule ParseCIDR_v4_sound)
  have range: "ParseCIDR subnetRange = Inr (ip, cidr_net w c)" using assms(1) ov by simp
  note new = NewCIDRPool_v4 [OF range c assms(3)]
  have b: "blockPool pool = map (\<lambda>k. cidr_text ((w AND mask32 c) + of_nat (k * 2 ^ (32 - m))) m) [1..<2 ^ (m - c)]"
    and s: "singlePool pool = map (\<lambda>k. cidr_text ((w AND mask32 c) + of_nat (k * 1)) 32) [1..<2 ^ (32 - m)]"
    using new assms(4) by (simp_all del: of_nat_mult)
  have sz: "(2 :: nat) ^ (m - c) * 2 ^ (32 - m) \<le> 2 ^ 32" 
  proof -
    have "(2 :: nat) ^ (m - c) * 2 ^ (32 - m) \<le> 2 ^ m * 2 ^ (32 - m)"
      by (intro mult_le_mono1 power_increasing) auto
    then show ?thesis using assms(3) by (simp flip: power_add)
  qed
  have "distinct (blockPool pool)" unfolding b using sz by (intro distinct_offsets) simp_all
  moreover have "distinct (singlePool pool)" unfolding s using pow32_le [of m] by (intro distinct_offsets) simp_all
  ultimately show ?thesis
    using c by (simp add: b s BlockPoolSize_def SingleIPPoolSize_def ov cidr_net_def Mask_Size_CIDRMask)
qed

theorem pool_sizes_witness:
  "NewCIDRPool ''10.255.0.9/28'' 30 = Some (Inr
     \<lparr>blockPool = [''10.255.0.4/30'', ''10.255.0.8/30'', ''10.255.0.12/30''],
      singlePool = [''10.255.0.1/32'', ''10.255.0.2/32'', ''10.255.0.3/32'']\<rparr>)
   \<and> BlockPoolSize \<lparr>blockPool = [''10.255.0.4/30'', ''10.255.0.8/30'', ''10.255.0.12/30''],
      singlePool = [''10.255.0.1/32'', ''10.255.0.2/32'', ''10.255.0.3/32'']\<rparr> = 2 ^ (30 - 28) - 1"
proof -
  have p: "ParseCIDR ''10.255.0.9/28''
      = Inr (IPv4 10 255 0 9, \<lparr>IPNet_IP = [10, 255, 0, 0], IPNet_Mask = [255, 255, 255, 240]\<rparr>)"
    by code_simp
  have new: "NewCIDRPool ''10.255.0.9/28'' (int 30) = Some (Inr
     \<lparr>blockPool = [''10.255.0.4/30'', ''10.255.0.8/30'', ''10.255.0.12/30''],
      singlePool = [''10.255.0.1/32'', ''10.255.0.2/32'', ''10.255.0.3/32'']\<rparr>)"
    by code_simp
  have m: "fst (Mask_Size [255, 255, 255, 240 :: byte]) = 28" by code_simp
  show ?thesis using pool_sizes [OF p _ _ new] new m by simp
qed

section \<open>The choice\<close>

lemma delete_all: "foldl (\<lambda>av s. filter (\<lambda>k. k \<noteq> s) av) pool taken = filter (\<lambda>k. k \<notin> set taken) pool"
  by (induction taken arbitrary: pool) (auto simp: conj_commute intro!: filter_cong)

lemma pick_loop_nth: "n \<le> i \<Longrightarrow> i - n < length ks \<Longrightarrow> pick_loop i n ks = ks ! (i - n)"
proof (induction ks arbitrary: n)
  case (Cons k ks)
  show ?case
  proof (cases "i = n")
    case False
    then have "i - n = Suc (i - Suc n)" using Cons.prems by simp
    then show ?thesis using Cons False by simp
  qed simp
qed simp

lemma getAvailable_spec:
  assumes "runtime_ok rt" "getAvailable rt taken pool w = (s, w')"
  shows "(s = [] \<and> set pool \<subseteq> set taken \<and> w' = w) \<or> (s \<in> set pool \<and> s \<notin> set taken)"
proof -
  define av where "av = filter (\<lambda>k. k \<notin> set taken) pool"
  show ?thesis
  proof (cases "av = []")
    case True
    then show ?thesis
      using assms(2) by (auto simp: getAvailable_def delete_all av_def [symmetric])
         (auto simp: av_def filter_empty_conv)
  next
    case False
    obtain i w1 where i: "Intn rt (length av) w = (i, w1)" by force
    obtain ks w2 where ks: "MapOrder rt av w1 = (ks, w2)" by force
    have "i < length av" using assms(1) False i by (auto simp: runtime_ok_def) (metis fst_conv length_greater_0_conv)
    moreover have ms: "mset ks = mset av" using assms(1) ks by (auto simp: runtime_ok_def) (metis fst_conv)
    ultimately have "i < length ks" by (metis mset_eq_length)
    then have "pick_loop i 0 ks \<in> set ks" by (simp add: pick_loop_nth)
    moreover have "s = pick_loop i 0 ks"
      using assms(2) False i ks by (simp add: getAvailable_def delete_all av_def [symmetric])
    ultimately have "s \<in> set av" using ms by (metis mset_eq_setD)
    then show ?thesis by (simp add: av_def)
  qed
qed

section \<open>Prefix lengths outside the address\<close>

lemma blockPool_loop_diverges:
  assumes "0 < fr" shows "blockPool_loop ip m fr 0 0 pool = None"
proof (rule ccontr)
  assume "blockPool_loop ip m fr 0 0 pool \<noteq> None"
  then obtain r where ret: "blockPool_loop ip m fr 0 0 pool = Some r" by blast
  have "\<not> (0 < fr \<and> (0 :: int) = 0 \<and> (0 :: int) = 0)"
  proof (rule blockPool_loop.raw_induct [where P = "\<lambda>ip m fr bs i pool r. \<not> (0 < fr \<and> bs = 0 \<and> i = 0)", OF _ ret])
    fix f ip m fr bs i pool r
    assume IH: "\<And>ip m fr bs i pool r. f ip m fr bs i pool = Some r \<Longrightarrow> \<not> (0 < fr \<and> bs = 0 \<and> i = 0)"
      and eq: "(if i < fr then f ip m fr bs (int_add i bs)
          (key_insert (IP_String (IPAdd ip i) @ ''/'' @ itoa (unat m)) pool) else Some pool) = Some r"
    show "\<not> (0 < fr \<and> bs = 0 \<and> i = 0)"
    proof
      assume z: "0 < fr \<and> bs = 0 \<and> i = 0"
      then have "f ip m fr bs 0 (key_insert (IP_String (IPAdd ip i) @ ''/'' @ itoa (unat m)) pool) = Some r"
        using eq by (simp add: int_add_def)
      with IH z show False by blast
    qed
  qed
  with assms show False by simp
qed

lemma NewCIDRPool_diverges:
  assumes "ParseCIDR subnetRange = Inr (ip, overlay)" "length (IPNet_Mask overlay) = 4"
    and "32 < m" "m < 2 ^ 63"
  shows "NewCIDRPool subnetRange m = None"
proof -
  obtain w c where c: "c \<le> 32" and ov: "overlay = cidr_net w c"
    using assms(1,2) by (rule ParseCIDR_v4_sound)
  have "unat (32 - (word_of_int m :: 64 word)) \<ge> 64"
  proof -
    have "32 - (word_of_int m :: 64 word) = word_of_int (32 - m)" by simp
    then have "uint (32 - (word_of_int m :: 64 word)) = (32 - m) mod 2 ^ 64"
      by (simp only: uint_word_of_int) simp
    also have "\<dots> = (32 - m + 2 ^ 64) mod 2 ^ 64" by (rule mod_add_self2 [symmetric])
    also have "\<dots> = 32 - m + 2 ^ 64"
      using assms(3,4) by (intro mod_pos_pos_trivial) auto
    finally have "64 \<le> uint (32 - (word_of_int m :: 64 word))"
      using assms(3,4) by (simp only:) simp
    then show ?thesis by (simp only: unat_eq_nat_uint)
  qed
  then have "shl1 (32 - word_of_int m) = 0" by (simp add: shl1_def)
  moreover have "0 < shl1 (32 - of_nat c)" using c by (simp add: shl1_small)
  ultimately show ?thesis
    using assms(1) c
    by (simp add: NewCIDRPool_def generateBlockPool_def Let_def blockPool_loop_diverges ov cidr_net_def Mask_Size_CIDRMask)
qed

text \<open>
  C31.  A configured subnet prefix length above 32 makes the controller hang while it builds
  the pool: \<^verbatim>\<open>1 << (32 - cidrMaskBlock)\<close> shifts by a wrapped-around unsigned count and is 0, so
  the loop over the blocks never advances.  (Nothing rejects such a value: the configuration
  is only checked for being non-zero.)
\<close>

theorem pool_prefix_above_32_diverges:
  assumes "ParseCIDR subnetRange = Inr (ip, overlay)" "length (IPNet_Mask overlay) = 4"
    and "32 < m" "m < 2 ^ 63"
  shows "NewCIDRPool subnetRange m = None"
  using assms by (rule NewCIDRPool_diverges)

theorem pool_prefix_above_32_diverges_witness: "NewCIDRPool ''10.255.0.0/16'' 33 = None"
proof -
  have p: "ParseCIDR ''10.255.0.0/16''
      = Inr (IPv4 10 255 0 0, \<lparr>IPNet_IP = [10, 255, 0, 0], IPNet_Mask = [255, 255, 0, 0]\<rparr>)"
    by code_simp
  show ?thesis using pool_prefix_above_32_diverges [OF p] by simp
qed

end
