(* ===== verification/Lease_Controller.thy ===== *)
theory Lease_Controller
  imports Lease_Store Hwaddr CIDR_Pool
begin

text \<open>
  The lease controller, \<^verbatim>\<open>controller/leaser/lease_controller.go\<close>: acquiring, renewing, releasing
  and listing leases.  Its collaborators are the fields of the record \<open>LeaseController\<close>, one
  record of operations per Go interface; the lemmas are proved in the locale
  \<open>lease_controller\<close>, which joins the contract of the store (\<open>lease_store\<close>) with that of the
  pool (\<open>subnet_pool\<close>).
\<close>

section \<open>Definitions\<close>

record 'w cidrPool =
  cp_GetAvailableBlock :: "string list \<Rightarrow> 'w \<Rightarrow> string \<times> 'w"
  cp_GetAvailableSingleIP :: "string list \<Rightarrow> 'w \<Rightarrow> string \<times> 'w"
  cp_IsMember :: "string \<Rightarrow> bool"

record 'w LeaseController =
  lc_DatabaseHandler :: "'w databaseHandler"
  lc_HardwareAddressGenerator :: "IP \<Rightarrow> HardwareAddr result"
  lc_AcquireSubnetLeaseAttempts :: int
  lc_CIDRPool :: "'w cidrPool"
  lc_LeaseValidator :: "Lease \<Rightarrow> go_error option"
  lc_LeaseExpirationSeconds :: int

definition ReleaseSubnetLease :: "'w LeaseController \<Rightarrow> string \<Rightarrow> 'w \<Rightarrow> go_error option \<times> 'w" where
  "ReleaseSubnetLease c underlayIP w =
     (case dh_DeleteEntry (lc_DatabaseHandler c) underlayIP w of (err, w) \<Rightarrow>
        if err = Some RecordNotAffectedError then (None, w)
        else case err of
          Some e \<Rightarrow> (Some (ErrorString (''release lease: '' @ Error e)), w)
        | None \<Rightarrow> (err, w))"

definition tryAcquireAvailableSingleIPSubnet :: "'w LeaseController \<Rightarrow> string \<Rightarrow> 'w \<Rightarrow> string result \<times> 'w" where
  "tryAcquireAvailableSingleIPSubnet c underlayIP w =
     (case dh_AllSingleIPSubnets (lc_DatabaseHandler c) w of
        (Inl err, w) \<Rightarrow> (Inl (ErrorString (''getting all single ip subnets: '' @ Error err)), w)
      | (Inr leases, w) \<Rightarrow>
          let taken = map OverlaySubnet leases in
          (case cp_GetAvailableSingleIP (lc_CIDRPool c) taken w of (subnet, w) \<Rightarrow>
             if subnet = [] then
               (case dh_OldestExpiredSingleIP (lc_DatabaseHandler c) (lc_LeaseExpirationSeconds c) w of
                  (Inl err, w) \<Rightarrow> (Inl (ErrorString (''get oldest expired single ip: '' @ Error err)), w)
                | (Inr None, w) \<Rightarrow> (Inr [], w)
                | (Inr (Some lease), w) \<Rightarrow>
                    (case dh_DeleteEntry (lc_DatabaseHandler c) (UnderlayIP lease) w of
                       (Some err, w) \<Rightarrow> (Inl (ErrorString (''delete expired subnet: '' @ Error err)), w)
                     | (None, w) \<Rightarrow> (Inr (OverlaySubnet lease), w)))
             else (Inr subnet, w)))"

definition tryAcquireAvailableBlockSubnet :: "'w LeaseController \<Rightarrow> string \<Rightarrow> 'w \<Rightarrow> string result \<times> 'w" where
  "tryAcquireAvailableBlockSubnet c underlayIP w =
     (case dh_AllBlockSubnets (lc_DatabaseHandler c) w of
        (Inl err, w) \<Rightarrow> (Inl (ErrorString (''getting all subnets: '' @ Error err)), w)
      | (Inr leases, w) \<Rightarrow>
          let taken = map OverlaySubnet leases in
          (case cp_GetAvailableBlock (lc_CIDRPool c) taken w of (subnet, w) \<Rightarrow>
             if subnet = [] then
               (case dh_OldestExpiredBlockSubnet (lc_DatabaseHandler c) (lc_LeaseExpirationSeconds c) w of
                  (Inl err, w) \<Rightarrow> (Inl (ErrorString (''get oldest expired: '' @ Error err)), w)
                | (Inr None, w) \<Rightarrow> (Inr [], w)
                | (Inr (Some lease), w) \<Rightarrow>
                    (case dh_DeleteEntry (lc_DatabaseHandler c) (UnderlayIP lease) w of
                       (Some err, w) \<Rightarrow> (Inl (ErrorString (''delete expired subnet: '' @ Error err)), w)
                     | (None, w) \<Rightarrow> (Inr (OverlaySubnet lease), w)))
             else (Inr subnet, w)))"

text \<open>The pair \<^verbatim>\<open>(nil, nil)\<close> is \<open>Inr None\<close>.\<close>

definition tryAcquireLease :: "'w LeaseController \<Rightarrow> string \<Rightarrow> bool \<Rightarrow> 'w \<Rightarrow> Lease option result \<times> 'w" where
  "tryAcquireLease c underlayIP singleOverlayIP w =
     (case (if singleOverlayIP then tryAcquireAvailableSingleIPSubnet c underlayIP w
            else tryAcquireAvailableBlockSubnet c underlayIP w) of
        (Inl err, w) \<Rightarrow> (Inl err, w)
      | (Inr subnet, w) \<Rightarrow>
          if subnet = [] then (Inr None, w)
          else case ParseCIDR subnet of
            Inl err \<Rightarrow> (Inl (ErrorString (''parse subnet: '' @ Error err)), w)
          | Inr (vtepIP, _) \<Rightarrow>
              (case lc_HardwareAddressGenerator c vtepIP of
                 Inl err \<Rightarrow> (Inl (ErrorString (''generate hardware address: '' @ Error err)), w)
               | Inr hwAddr \<Rightarrow>
                   let lease = \<lparr>UnderlayIP = underlayIP, OverlaySubnet = subnet,
                                OverlayHardwareAddr = HardwareAddr_String hwAddr\<rparr> in
                   (case dh_AddEntry (lc_DatabaseHandler c) lease w of
                      (Some err, w) \<Rightarrow> (Inl (ErrorString (''adding lease entry: '' @ Error err)), w)
                    | (None, w) \<Rightarrow> (Inr (Some lease), w))))"

text \<open>
  The loop over the attempts; \<open>r\<close> is what the previous attempt left in \<^verbatim>\<open>lease\<close> and \<^verbatim>\<open>err\<close>
  (both \<^verbatim>\<open>nil\<close> before the first).
\<close>

fun acquire_loop ::
  "nat \<Rightarrow> 'w LeaseController \<Rightarrow> string \<Rightarrow> bool \<Rightarrow> Lease option result \<Rightarrow> 'w \<Rightarrow> Lease option result \<times> 'w" where
  "acquire_loop 0 c underlayIP singleOverlayIP r w = (r, w)"
| "acquire_loop (Suc k) c underlayIP singleOverlayIP r w =
     (case tryAcquireLease c underlayIP singleOverlayIP w of
        (Inr (Some lease), w) \<Rightarrow> (Inr (Some lease), w)
      | (r, w) \<Rightarrow> acquire_loop k c underlayIP singleOverlayIP r w)"

text \<open>\<^verbatim>\<open>net.ParseIP(s).To4()\<close>: a text that does not parse is the address \<^verbatim>\<open>nil\<close>.\<close>

definition ParseIP_To4 :: "string \<Rightarrow> IP" where
  "ParseIP_To4 s = (case ParseIP s of None \<Rightarrow> To4 [] | Some ip \<Rightarrow> To4 ip)"

definition AcquireSubnetLease :: "'w LeaseController \<Rightarrow> string \<Rightarrow> bool \<Rightarrow> 'w \<Rightarrow> Lease option result \<times> 'w" where
  "AcquireSubnetLease c underlayIP singleOverlayIP w =
     (if ParseIP_To4 underlayIP = [] then (Inl (ErrorString (''invalid ipv4 address: '' @ underlayIP)), w)
      else case dh_LeaseForUnderlayIP (lc_DatabaseHandler c) underlayIP w of
        (Inl err, w) \<Rightarrow> (Inl (ErrorString (''getting lease for underlay ip: '' @ Error err)), w)
      | (Inr None, w) \<Rightarrow>
          acquire_loop (nat (lc_AcquireSubnetLeaseAttempts c)) c underlayIP singleOverlayIP (Inr None) w
      | (Inr (Some lease), w) \<Rightarrow>
          if cp_IsMember (lc_CIDRPool c) (OverlaySubnet lease) then (Inr (Some lease), w)
          else case dh_DeleteEntry (lc_DatabaseHandler c) underlayIP w of
            (Some err, w) \<Rightarrow>
              (Inl (ErrorString (''deleting lease for underlay ip '' @ underlayIP @ '': '' @ Error err)), w)
          | (None, w) \<Rightarrow>
              acquire_loop (nat (lc_AcquireSubnetLeaseAttempts c)) c underlayIP singleOverlayIP (Inr None) w)"

text \<open>The second half of a renewal, after the lease has been found or added.\<close>

definition renew_entry :: "'w LeaseController \<Rightarrow> string \<Rightarrow> 'w \<Rightarrow> go_error option \<times> 'w" where
  "renew_entry c underlayIP w =
     (case dh_RenewLeaseForUnderlayIP (lc_DatabaseHandler c) underlayIP w of
        (Some err, w) \<Rightarrow> (Some (ErrorString (''renewing lease for underlay ip: '' @ Error err)), w)
      | (None, w) \<Rightarrow>
          (case dh_LastRenewedAtForUnderlayIP (lc_DatabaseHandler c) underlayIP w of
             (Inl err, w) \<Rightarrow> (Some (ErrorString (''getting last renewed at: '' @ Error err)), w)
           | (Inr lastRenewedAt, w) \<Rightarrow> (None, w)))"

definition RenewSubnetLease :: "'w LeaseController \<Rightarrow> Lease \<Rightarrow> 'w \<Rightarrow> go_error option \<times> 'w" where
  "RenewSubnetLease c lease w =
     (case lc_LeaseValidator c lease of
        Some err \<Rightarrow> (Some (NonRetriableError (Error err)), w)
      | None \<Rightarrow>
          (case dh_LeaseForUnderlayIP (lc_DatabaseHandler c) (UnderlayIP lease) w of
             (Inl err, w) \<Rightarrow> (Some (ErrorString (''getting lease for underlay ip: '' @ Error err)), w)
           | (Inr None, w) \<Rightarrow>
               (case dh_AddEntry (lc_DatabaseHandler c) lease w of
                  (Some err, w) \<Rightarrow> (Some (NonRetriableError (Error err)), w)
                | (None, w) \<Rightarrow> renew_entry c (UnderlayIP lease) w)
           | (Inr (Some existingLease), w) \<Rightarrow>
               if lease \<noteq> existingLease then (Some (NonRetriableError ''lease mismatch''), w)
               else renew_entry c (UnderlayIP lease) w))"

definition RoutableLeases :: "'w LeaseController \<Rightarrow> 'w \<Rightarrow> Lease list result \<times> 'w" where
  "RoutableLeases c w =
     (case dh_AllActive (lc_DatabaseHandler c) (lc_LeaseExpirationSeconds c) w of
        (Inl err, w) \<Rightarrow> (Inl (ErrorString (''getting all leases: '' @ Error err)), w)
      | (Inr leases, w) \<Rightarrow> (Inr leases, w))"

text \<open>The pool as the interface of the lease controller, with the runtime that makes its choices.\<close>

definition as_cidrPool :: "'w go_runtime \<Rightarrow> CIDRPool \<Rightarrow> 'w cidrPool" where
  "as_cidrPool rt pool =
     \<lparr>cp_GetAvailableBlock = GetAvailableBlock rt pool,
      cp_GetAvailableSingleIP = GetAvailableSingleIP rt pool,
      cp_IsMember = IsMember pool\<rparr>"

text \<open>
  Notions of the contracts below.  \<open>runtime_same same rt\<close>: the choices of the runtime change
  nothing that \<open>same\<close> observes.  \<open>quiet\<close>: nothing has happened to the store.  \<open>take_subnet\<close>: the
  two searches for a subnet are one search with different operations of the store and the pool.
\<close>

definition runtime_same :: "('w \<Rightarrow> 'w \<Rightarrow> bool) \<Rightarrow> 'w go_runtime \<Rightarrow> bool" where
  "runtime_same same rt \<longleftrightarrow> (\<forall>w. same w w) \<and> (\<forall>u v w. same u v \<longrightarrow> same v w \<longrightarrow> same u w)
     \<and> (\<forall>n w. same w (snd (Intn rt n w))) \<and> (\<forall>ks w. same w (snd (MapOrder rt ks w)))"

definition quiet :: "('w \<Rightarrow> subnet_row list) \<Rightarrow> ('w \<Rightarrow> int) \<Rightarrow> ('w \<Rightarrow> bool) \<Rightarrow> 'w \<Rightarrow> 'w \<Rightarrow> bool" where
  "quiet tbl clock up w w' \<longleftrightarrow> tbl w' = tbl w \<and> clock w \<le> clock w' \<and> (up w \<longrightarrow> up w')"

definition take_subnet ::
  "('w \<Rightarrow> Lease list result \<times> 'w) \<Rightarrow> (string list \<Rightarrow> 'w \<Rightarrow> string \<times> 'w) \<Rightarrow> ('w \<Rightarrow> Lease option result \<times> 'w)
    \<Rightarrow> (string \<Rightarrow> 'w \<Rightarrow> go_error option \<times> 'w) \<Rightarrow> string \<Rightarrow> string \<Rightarrow> 'w \<Rightarrow> string result \<times> 'w" where
  "take_subnet leased pick oldest delete msg1 msg2 w =
     (case leased w of
        (Inl err, w) \<Rightarrow> (Inl (ErrorString (msg1 @ Error err)), w)
      | (Inr leases, w) \<Rightarrow>
          (case pick (map OverlaySubnet leases) w of (subnet, w) \<Rightarrow>
             if subnet = [] then
               (case oldest w of
                  (Inl err, w) \<Rightarrow> (Inl (ErrorString (msg2 @ Error err)), w)
                | (Inr None, w) \<Rightarrow> (Inr [], w)
                | (Inr (Some lease), w) \<Rightarrow>
                    (case delete (UnderlayIP lease) w of
                       (Some err, w) \<Rightarrow> (Inl (ErrorString (''delete expired subnet: '' @ Error err)), w)
                     | (None, w) \<Rightarrow> (Inr (OverlaySubnet lease), w)))
             else (Inr subnet, w)))"

section \<open>The contract of the pool\<close>

text \<open>
  \<open>same w w'\<close> says that a choice leaves alone everything the client cares for.  Two members
  that start at the same address are the same subnet.
\<close>

locale subnet_pool =
  fixes cp :: "'w cidrPool"
    and blocks :: "string list"
    and singles :: "string list"
    and same :: "'w \<Rightarrow> 'w \<Rightarrow> bool"
  assumes GetAvailableBlock: "cp_GetAvailableBlock cp taken w = (s, w') \<Longrightarrow>
      same w w' \<and> (s = [] \<and> set blocks \<subseteq> set taken \<or> s \<in> set blocks \<and> s \<notin> set taken)"
    and GetAvailableSingleIP: "cp_GetAvailableSingleIP cp taken w = (s, w') \<Longrightarrow>
      same w w' \<and> (s = [] \<and> set singles \<subseteq> set taken \<or> s \<in> set singles \<and> s \<notin> set taken)"
    and IsMember: "cp_IsMember cp s \<longleftrightarrow> s \<in> set blocks \<or> s \<in> set singles"
    and member_text: "s \<in> set blocks \<or> s \<in> set singles \<Longrightarrow> \<exists>v n. n \<le> 32 \<and> s = cidr_text v n"
    and member_base: "cidr_text v m \<in> set blocks \<union> set singles \<Longrightarrow> cidr_text v n \<in> set blocks \<union> set singles \<Longrightarrow> m = n"
    and singles_single: "s \<in> set singles \<Longrightarrow> single_subnet s"

lemma getAvailable_same:
  assumes "runtime_same same rt" "getAvailable rt taken pool w = (s, w')"
  shows "same w w'"
proof -
  have refl: "same w w" for w using assms(1) by (simp add: runtime_same_def)
  have step: "same w (snd (MapOrder rt ks (snd (Intn rt n w))))" for w n ks
    using assms(1) unfolding runtime_same_def by blast
  show ?thesis using assms(2) refl [of w] step [of w]
    by (auto simp: getAvailable_def Let_def split: if_splits prod.splits) (metis snd_conv)+
qed

lemma suffix_cidr_text_32: "single_subnet (cidr_text v 32)"
proof -
  have "itoa 32 = ''32''" by code_simp
  then show ?thesis by (simp add: single_subnet_def cidr_text_def suffix_def)
qed

text \<open>The pool of the program has these properties, whatever the overlay network.\<close>

lemma pool_subnet_pool:
  assumes range: "ParseCIDR subnetRange = Inr (ip, overlay)" "length (IPNet_Mask overlay) = 4"
    and len: "fst (Mask_Size (IPNet_Mask overlay)) \<le> m" "m \<le> 32"
    and pool: "NewCIDRPool subnetRange (int m) = Some (Inr pool)"
    and rt: "runtime_ok rt" "runtime_same same rt"
  shows "subnet_pool (as_cidrPool rt pool) (blockPool pool) (singlePool pool) same"
proof -
  obtain w c where c: "c \<le> 32" and ov: "overlay = cidr_net w c"
    using range by (rule ParseCIDR_v4_sound)
  have rng: "ParseCIDR subnetRange = Inr (ip, cidr_net w c)" using range(1) ov by simp
  have cm: "c \<le> m" using len(1) c by (simp add: ov cidr_net_def Mask_Size_CIDRMask)
  note member = pool_member [OF rng cm len(2) pool]
  show ?thesis
  proof
    fix taken v s v' assume "cp_GetAvailableBlock (as_cidrPool rt pool) taken v = (s, v')"
    then have "getAvailable rt taken (blockPool pool) v = (s, v')"
      by (simp add: as_cidrPool_def GetAvailableBlock_def)
    then show "same v v' \<and> (s = [] \<and> set (blockPool pool) \<subseteq> set taken \<or> s \<in> set (blockPool pool) \<and> s \<notin> set taken)"
      using getAvailable_same [OF rt(2)] getAvailable_spec [OF rt(1)] by blast
  next
    fix taken v s v' assume "cp_GetAvailableSingleIP (as_cidrPool rt pool) taken v = (s, v')"
    then have "getAvailable rt taken (singlePool pool) v = (s, v')"
      by (simp add: as_cidrPool_def GetAvailableSingleIP_def)
    then show "same v v' \<and> (s = [] \<and> set (singlePool pool) \<subseteq> set taken \<or> s \<in> set (singlePool pool) \<and> s \<notin> set taken)"
      using getAvailable_same [OF rt(2)] getAvailable_spec [OF rt(1)] by blast
  next
    fix s show "cp_IsMember (as_cidrPool rt pool) s \<longleftrightarrow> s \<in> set (blockPool pool) \<or> s \<in> set (singlePool pool)"
      by (simp add: as_cidrPool_def IsMember_def)
  next
    fix s assume "s \<in> set (blockPool pool) \<or> s \<in> set (singlePool pool)"
    then have "IsMember pool s" by (simp add: IsMember_def)
    from member [OF this] show "\<exists>v n. n \<le> 32 \<and> s = cidr_text v n" by metis
  next
    fix v a b assume "cidr_text v a \<in> set (blockPool pool) \<union> set (singlePool pool)"
      and "cidr_text v b \<in> set (blockPool pool) \<union> set (singlePool pool)"
    then have m: "IsMember pool (cidr_text v a)" "IsMember pool (cidr_text v b)" by (auto simp: IsMember_def)
    have "a \<le> 32" "b \<le> 32" using member [OF m(1)] member [OF m(2)] by (metis cidr_text_eq_iff)+
    then have "Contains (cidr_net v a) (bytes32 v)" "Contains (cidr_net v b) (bytes32 v)"
      by (simp_all add: Contains_cidr_net)
    from pool_member_disjoint [OF rng cm len(2) pool m this] show "a = b" by simp
  next
    fix s assume "s \<in> set (singlePool pool)"
    then show "single_subnet s"
      by (rule single_member [OF rng cm len(2) pool]) (simp add: suffix_cidr_text_32)
  qed
qed

section \<open>One attempt\<close>

lemma tryAcquireAvailable_take:
  "tryAcquireAvailableSingleIPSubnet c u w =
     take_subnet (dh_AllSingleIPSubnets (lc_DatabaseHandler c)) (cp_GetAvailableSingleIP (lc_CIDRPool c))
       (dh_OldestExpiredSingleIP (lc_DatabaseHandler c) (lc_LeaseExpirationSeconds c))
       (dh_DeleteEntry (lc_DatabaseHandler c))
       ''getting all single ip subnets: '' ''get oldest expired single ip: '' w"
  "tryAcquireAvailableBlockSubnet c u w =
     take_subnet (dh_AllBlockSubnets (lc_DatabaseHandler c)) (cp_GetAvailableBlock (lc_CIDRPool c))
       (dh_OldestExpiredBlockSubnet (lc_DatabaseHandler c) (lc_LeaseExpirationSeconds c))
       (dh_DeleteEntry (lc_DatabaseHandler c))
       ''getting all subnets: '' ''get oldest expired: '' w"
  unfolding tryAcquireAvailableSingleIPSubnet_def tryAcquireAvailableBlockSubnet_def take_subnet_def Let_def
  by (rule refl)+

locale lease_controller =
  lease_store "lc_DatabaseHandler c" tbl clock up env +
  subnet_pool "lc_CIDRPool c" blocks singles "quiet tbl clock up"
  for c :: "'w LeaseController" and tbl clock up env blocks singles +
  assumes hardware: "lc_HardwareAddressGenerator c = GenerateForVTEP"
    and validator: "lc_LeaseValidator c = Validate"

locale exclusive_controller =
  lease_controller c tbl clock up env blocks singles +
  exclusive_store "lc_DatabaseHandler c" tbl clock up env
  for c :: "'w LeaseController" and tbl clock up env blocks singles

section \<open>Any number of controllers\<close>

text \<open>
  What holds although other controllers change the table between the statements: the table's
  constraints are kept, and a lease that is handed out stands in the table.
\<close>

lemma adds_row_ok: "adds_row h e l now t t' \<Longrightarrow> rows_ok t \<Longrightarrow> rows_ok t'"
  by (auto simp: adds_row_def split: option.splits if_splits)

lemma deletes_rows_ok: "deletes_rows h e u t t' \<Longrightarrow> rows_ok t \<Longrightarrow> rows_ok t'"
  by (auto simp: deletes_rows_def split: if_splits)

lemma renews_rows_ok: "renews_rows h e u now t t' \<Longrightarrow> rows_ok t \<Longrightarrow> rows_ok t'"
  by (auto simp: renews_rows_def split: option.splits)

context lease_controller
begin

lemma during_ok: "during tbl clock up env w t now w' \<Longrightarrow> rows_ok (tbl w) \<Longrightarrow> rows_ok t"
  by (auto simp: during_def dest: env_ok)

lemma store_ok:
  "dh_AddEntry (lc_DatabaseHandler c) l w = (e, w') \<Longrightarrow> rows_ok (tbl w) \<Longrightarrow> rows_ok (tbl w')"
  "dh_DeleteEntry (lc_DatabaseHandler c) u w = (e, w') \<Longrightarrow> rows_ok (tbl w) \<Longrightarrow> rows_ok (tbl w')"
  "dh_RenewLeaseForUnderlayIP (lc_DatabaseHandler c) u w = (e, w') \<Longrightarrow> rows_ok (tbl w) \<Longrightarrow> rows_ok (tbl w')"
  "dh_LeaseForUnderlayIP (lc_DatabaseHandler c) u w = (r, w') \<Longrightarrow> rows_ok (tbl w) \<Longrightarrow> rows_ok (tbl w')"
  "dh_LastRenewedAtForUnderlayIP (lc_DatabaseHandler c) u w = (i, w') \<Longrightarrow> rows_ok (tbl w) \<Longrightarrow> rows_ok (tbl w')"
  "dh_AllBlockSubnets (lc_DatabaseHandler c) w = (rs, w') \<Longrightarrow> rows_ok (tbl w) \<Longrightarrow> rows_ok (tbl w')"
  "dh_AllSingleIPSubnets (lc_DatabaseHandler c) w = (rs, w') \<Longrightarrow> rows_ok (tbl w) \<Longrightarrow> rows_ok (tbl w')"
  "dh_AllActive (lc_DatabaseHandler c) d w = (rs, w') \<Longrightarrow> rows_ok (tbl w) \<Longrightarrow> rows_ok (tbl w')"
  "dh_OldestExpiredBlockSubnet (lc_DatabaseHandler c) d w = (r, w') \<Longrightarrow> rows_ok (tbl w) \<Longrightarrow> rows_ok (tbl w')"
  "dh_OldestExpiredSingleIP (lc_DatabaseHandler c) d w = (r, w') \<Longrightarrow> rows_ok (tbl w) \<Longrightarrow> rows_ok (tbl w')"
  using AddEntry [of l w e w'] DeleteEntry [of u w e w'] RenewLease [of u w e w']
    LeaseForUnderlayIP [of u w r w'] LastRenewedAt [of u w i w'] AllBlockSubnets [of w rs w']
    AllSingleIPSubnets [of w rs w'] AllActive [of d w rs w'] OldestExpiredBlockSubnet [of d w r w']
    OldestExpiredSingleIP [of d w r w']
  by (blast dest: during_ok adds_row_ok deletes_rows_ok renews_rows_ok)+

lemma pick_ok:
  "cp_GetAvailableBlock (lc_CIDRPool c) taken w = (s, w') \<Longrightarrow> tbl w' = tbl w"
  "cp_GetAvailableSingleIP (lc_CIDRPool c) taken w = (s, w') \<Longrightarrow> tbl w' = tbl w"
  using GetAvailableBlock GetAvailableSingleIP unfolding quiet_def by blast+

lemma take_subnet_ok:
  assumes "take_subnet leased pick oldest (dh_DeleteEntry (lc_DatabaseHandler c)) m1 m2 w = (r, w')"
    and "rows_ok (tbl w)"
    and "\<And>w rs w'. leased w = (rs, w') \<Longrightarrow> rows_ok (tbl w) \<Longrightarrow> rows_ok (tbl w')"
    and "\<And>taken w s w'. pick taken w = (s, w') \<Longrightarrow> tbl w' = tbl w"
    and "\<And>w l w'. oldest w = (l, w') \<Longrightarrow> rows_ok (tbl w) \<Longrightarrow> rows_ok (tbl w')"
  shows "rows_ok (tbl w')"
proof -
  obtain rs w1 where 1: "leased w = (rs, w1)" by fastforce
  note ok1 = assms(3) [OF 1 assms(2)]
  show ?thesis
  proof (cases rs)
    case (Inl e)
    with assms(1) 1 ok1 show ?thesis by (simp add: take_subnet_def)
  next
    case (Inr ls)
    obtain s w2 where 2: "pick (map OverlaySubnet ls) w1 = (s, w2)" by fastforce
    obtain l w3 where 3: "oldest w2 = (l, w3)" by fastforce
    have ok2: "rows_ok (tbl w2)" using assms(4) [OF 2] ok1 by simp
    note ok3 = assms(5) [OF 3 ok2]
    from assms(1) 1 2 3 Inr ok2 ok3 show ?thesis
      by (auto simp: take_subnet_def split: if_splits sum.splits option.splits prod.splits dest: store_ok(2))
  qed
qed

lemma tryAcquireLease_ok:
  assumes "tryAcquireLease c u single w = (r, w')" and "rows_ok (tbl w)"
  shows "rows_ok (tbl w')"
proof -
  let ?search = "if single then tryAcquireAvailableSingleIPSubnet c u w else tryAcquireAvailableBlockSubnet c u w"
  obtain s w1 where 1: "?search = (s, w1)" by fastforce
  then have ok1: "rows_ok (tbl w1)"
    using take_subnet_ok [OF _ assms(2) store_ok(7) pick_ok(2) store_ok(10)]
      take_subnet_ok [OF _ assms(2) store_ok(6) pick_ok(1) store_ok(9)]
    unfolding tryAcquireAvailable_take by (cases single) auto
  from assms(1) 1 ok1 show ?thesis
    by (auto simp: tryAcquireLease_def Let_def split: if_splits sum.splits option.splits prod.splits dest: store_ok(1))
qed

text \<open>A lease that an attempt returns has just been inserted.\<close>

lemma tryAcquireLease_holds:
  assumes "tryAcquireLease c u single w = (Inr (Some l), w')"
  shows "UnderlayIP l = u \<and> l \<in> row_lease ` set (tbl w')"
proof -
  let ?search = "if single then tryAcquireAvailableSingleIPSubnet c u w else tryAcquireAvailableBlockSubnet c u w"
  obtain s w1 where 1: "?search = (s, w1)" by fastforce
  from assms 1 have "UnderlayIP l = u" "dh_AddEntry (lc_DatabaseHandler c) l w1 = (None, w')"
    by (auto simp: tryAcquireLease_def Let_def split: if_splits sum.splits option.splits prod.splits)
  then show ?thesis using AddEntry [of l w1 None w'] by (auto simp: adds_row_def)
qed

lemma acquire_loop_ok:
  "acquire_loop k c u single r0 w = (r, w') \<Longrightarrow> rows_ok (tbl w) \<Longrightarrow> rows_ok (tbl w')"
  by (induction k arbitrary: r0 w)
     (auto split: prod.splits sum.splits option.splits dest: tryAcquireLease_ok)

lemma acquire_loop_holds:
  "acquire_loop k c u single r0 w = (Inr (Some l), w') \<Longrightarrow> r0 \<noteq> Inr (Some l) \<Longrightarrow>
     UnderlayIP l = u \<and> l \<in> row_lease ` set (tbl w')"
proof (induction k arbitrary: r0 w)
  case (Suc k)
  obtain r1 w1 where 1: "tryAcquireLease c u single w = (r1, w1)" by fastforce
  show ?case
  proof (cases "\<exists>l'. r1 = Inr (Some l')")
    case True
    with Suc.prems 1 tryAcquireLease_holds show ?thesis by auto
  next
    case False
    then have "acquire_loop k c u single r1 w1 = (Inr (Some l), w')"
      using Suc.prems(1) 1 by (auto split: sum.splits option.splits)
    with Suc.IH False show ?thesis by blast
  qed
qed simp

lemma acquire_ok:
  assumes "AcquireSubnetLease c u single w = (r, w')" and "rows_ok (tbl w)"
  shows "rows_ok (tbl w')"
  using assms
  by (auto simp: AcquireSubnetLease_def split: if_splits sum.splits option.splits prod.splits
           dest: store_ok acquire_loop_ok)

lemma acquire_holds:
  assumes "AcquireSubnetLease c u single w = (Inr (Some l), w')"
  shows "UnderlayIP l = u \<and> l \<in> row_lease ` set (tbl w')"
proof -
  obtain r w1 where 1: "dh_LeaseForUnderlayIP (lc_DatabaseHandler c) u w = (r, w1)" by fastforce
  show ?thesis
  proof (cases "\<exists>l'. r = Inr (Some l') \<and> cp_IsMember (lc_CIDRPool c) (OverlaySubnet l')")
    case True
    with assms 1 have "r = Inr (Some l)" "w' = w1"
      by (auto simp: AcquireSubnetLease_def split: if_splits)
    with LeaseForUnderlayIP [OF 1] show ?thesis by (auto simp: finds_row_def)
  next
    case False
    with assms 1 obtain w2 where
      "acquire_loop (nat (lc_AcquireSubnetLeaseAttempts c)) c u single (Inr None) w2 = (Inr (Some l), w')"
      by (auto simp: AcquireSubnetLease_def split: if_splits sum.splits option.splits prod.splits)
    from acquire_loop_holds [OF this] show ?thesis by simp
  qed
qed

lemma renew_ok:
  assumes "RenewSubnetLease c l w = (e, w')" and "rows_ok (tbl w)"
  shows "rows_ok (tbl w')"
  using assms
  by (auto simp: RenewSubnetLease_def renew_entry_def split: if_splits sum.splits option.splits prod.splits
           dest!: store_ok)

lemma release_ok:
  assumes "ReleaseSubnetLease c u w = (e, w')" and "rows_ok (tbl w)"
  shows "rows_ok (tbl w')"
  using assms by (auto simp: ReleaseSubnetLease_def split: if_splits option.splits prod.splits dest: store_ok)

lemma routable_ok:
  assumes "RoutableLeases c w = (e, w')" and "rows_ok (tbl w)"
  shows "rows_ok (tbl w')"
  using assms by (auto simp: RoutableLeases_def split: sum.splits prod.splits dest: store_ok)

end

end
