(* ===== verification/Lease_Controller_Exclusive.thy ===== *)
theory Lease_Controller_Exclusive
  imports Lease_Controller
begin

text \<open>
  The lease controller when it is the only one that works on the table (locale
  \<open>exclusive_controller\<close>): what each request does to the table, on every branch.  Acquiring finds
  a free subnet or takes over the oldest expired one, never touches a lease of another host
  that has not expired, keeps the table a table of issued leases, and fails only when the pool
  is exhausted; renewing, releasing and listing are characterised completely.
\<close>

section \<open>Notions of the specification\<close>

text \<open>The kinds of subnets: \<open>single\<close> is the flag of the request.\<close>

definition pool_of :: "string list \<Rightarrow> string list \<Rightarrow> bool \<Rightarrow> string list" where
  "pool_of blocks singles single = (if single then singles else blocks)"

definition of_kind :: "bool \<Rightarrow> subnet_row \<Rightarrow> bool" where
  "of_kind single r \<longleftrightarrow> row_single r = single"

abbreviation row_subnets :: "subnet_row list \<Rightarrow> string set" where
  "row_subnets rows \<equiv> (\<lambda>r. OverlaySubnet (row_lease r)) ` set rows"

text \<open>
  The search for a subnet on the table \<open>T\<close>: it finds a subnet of the pool that no lease
  of this kind has; or, with all of them leased, it removes the oldest expired lease of this kind and takes over
  its subnet; or there is neither.
\<close>

definition finds_free :: "string list \<Rightarrow> (subnet_row \<Rightarrow> bool) \<Rightarrow> subnet_row list \<Rightarrow> string \<Rightarrow> subnet_row list \<Rightarrow> bool" where
  "finds_free P K T s T' \<longleftrightarrow> s \<in> set P \<and> s \<notin> row_subnets (filter K T) \<and> T' = T"

definition takes_over ::
  "string list \<Rightarrow> (subnet_row \<Rightarrow> bool) \<Rightarrow> int \<Rightarrow> int \<Rightarrow> subnet_row list \<Rightarrow> string \<Rightarrow> subnet_row list \<Rightarrow> bool" where
  "takes_over P K d now T s T' \<longleftrightarrow> set P \<subseteq> row_subnets (filter K T) \<and>
     (\<exists>x\<in>set T. K x \<and> expired d now x \<and> s = OverlaySubnet (row_lease x)
        \<and> (\<forall>y\<in>set T. K y \<and> expired d now y \<longrightarrow> last_renewed_at x \<le> last_renewed_at y)
        \<and> T' = delete_rows (UnderlayIP (row_lease x)) T)"

definition exhausted :: "string list \<Rightarrow> (subnet_row \<Rightarrow> bool) \<Rightarrow> int \<Rightarrow> int \<Rightarrow> subnet_row list \<Rightarrow> bool" where
  "exhausted P K d now T \<longleftrightarrow> set P \<subseteq> row_subnets (filter K T) \<and> (\<forall>x\<in>set T. \<not> (K x \<and> expired d now x))"

text \<open>The lease that is written for a host and a subnet.\<close>

definition lease_of :: "string \<Rightarrow> string \<Rightarrow> Lease option" where
  "lease_of u s =
     (case ParseCIDR s of
        Inl _ \<Rightarrow> None
      | Inr (ip, _) \<Rightarrow>
          (case GenerateForVTEP ip of
             Inl _ \<Rightarrow> None
           | Inr hw \<Rightarrow> Some \<lparr>UnderlayIP = u, OverlaySubnet = s, OverlayHardwareAddr = HardwareAddr_String hw\<rparr>))"

text \<open>A table of leases that were issued from the pool.\<close>

definition issued_rows :: "string list \<Rightarrow> string list \<Rightarrow> subnet_row list \<Rightarrow> bool" where
  "issued_rows blocks singles T \<longleftrightarrow>
     list_all (\<lambda>x. (OverlaySubnet (row_lease x) \<in> set blocks \<or> OverlaySubnet (row_lease x) \<in> set singles)
                 \<and> lease_of (UnderlayIP (row_lease x)) (OverlaySubnet (row_lease x)) = Some (row_lease x)) T"

text \<open>
  How the table and the clock move while a host \<open>u\<close> acquires a lease: the rows of the other hosts are
  kept unless they have expired by the end, and no other host gains a row.
\<close>

definition spares :: "int \<Rightarrow> string \<Rightarrow> subnet_row list \<Rightarrow> int \<Rightarrow> subnet_row list \<Rightarrow> bool" where
  "spares d u T now T' \<longleftrightarrow>
     (\<forall>x\<in>set T. \<not> row_for u x \<and> \<not> expired d now x \<longrightarrow> x \<in> set T') \<and>
     (\<forall>x\<in>set T'. \<not> row_for u x \<longrightarrow> x \<in> set T)"

section \<open>Lemmas\<close>

lemma expired_mono: "expired d now x \<Longrightarrow> now \<le> now' \<Longrightarrow> expired d now' x"
  by (simp add: expired_def)

lemma exhausted_mono: "exhausted P K d now T \<Longrightarrow> now' \<le> now \<Longrightarrow> exhausted P K d now' T"
  by (auto simp: exhausted_def dest: expired_mono)

context exclusive_controller
begin

lemma during_exclusive:
  "during tbl clock up env w t now w' \<longleftrightarrow> t = tbl w \<and> clock w \<le> now \<and> now \<le> clock w' \<and> (up w \<longrightarrow> up w')"
  by (auto simp: during_def exclusive)

lemma takeover_exclusive:
  assumes "(case oldest w of
      (Inl err, w) \<Rightarrow> (Inl (ErrorString (m2 @ Error err)), w)
    | (Inr None, w) \<Rightarrow> (Inr [], w)
    | (Inr (Some lease), w) \<Rightarrow>
        (case dh_DeleteEntry (lc_DatabaseHandler c) (UnderlayIP lease) w of
           (Some err, w) \<Rightarrow> (Inl (ErrorString (''delete expired subnet: '' @ Error err)), w)
         | (None, w) \<Rightarrow> (Inr (OverlaySubnet lease), w))) = (r, w')"
    and oldest: "\<And>l w'. oldest w = (l, w') \<Longrightarrow>
      \<exists>now. during tbl clock up env w (tbl w') now w'
        \<and> finds_oldest (up w) l (filter (\<lambda>x. K x \<and> expired d now x) (tbl w'))"
    and sub: "set P \<subseteq> row_subnets (filter K (tbl w))"
  shows "(up w \<longrightarrow> up w') \<and>
    (\<exists>now. clock w \<le> now \<and> now \<le> clock w' \<and>
      (case r of
         Inl _ \<Rightarrow> \<not> up w \<and> (tbl w' = tbl w \<or> (\<exists>s. takes_over P K d now (tbl w) s (tbl w')))
       | Inr s \<Rightarrow> takes_over P K d now (tbl w) s (tbl w') \<or> s = [] \<and> exhausted P K d now (tbl w) \<and> tbl w' = tbl w))"
proof -
  obtain ol w3 where 3: "oldest w = (ol, w3)" by fastforce
  from oldest [OF 3] obtain now where l3: "tbl w3 = tbl w" "clock w \<le> now" "now \<le> clock w3" "up w \<longrightarrow> up w3"
    "finds_oldest (up w) ol (filter (\<lambda>x. K x \<and> expired d now x) (tbl w))" by (auto simp: during_exclusive)
  consider (fail) e where "ol = Inl e" | (none) "ol = Inr None" | (some) x where "ol = Inr (Some x)"
    by (metis sumE option.exhaust)
  then show ?thesis
  proof cases
    case fail
    with assms(1) 3 l3 show ?thesis by (auto simp: finds_oldest_def intro!: exI [of _ now])
  next
    case none
    with l3(5) sub have "exhausted P K d now (tbl w)"
      by (auto simp: exhausted_def finds_oldest_def filter_empty_conv)
    with assms(1) 3 none l3 show ?thesis by (auto intro!: exI [of _ now])
  next
    case (some l)
    with l3(5) obtain x where x: "x \<in> set (tbl w)" "K x" "expired d now x" "row_lease x = l"
      "\<forall>y\<in>set (tbl w). K y \<and> expired d now y \<longrightarrow> last_renewed_at x \<le> last_renewed_at y"
      by (auto simp: finds_oldest_def)
    obtain e w4 where 4: "dh_DeleteEntry (lc_DatabaseHandler c) (UnderlayIP l) w3 = (e, w4)" by fastforce
    from DeleteEntry [OF 4] l3 x(1,4) have l4: "now \<le> clock w4" "up w \<longrightarrow> up w4" "e \<noteq> Some RecordNotAffectedError"
      "e = None \<Longrightarrow> tbl w4 = delete_rows (UnderlayIP l) (tbl w)"
      "e \<noteq> None \<Longrightarrow> \<not> up w3 \<and> (tbl w4 = tbl w \<or> tbl w4 = delete_rows (UnderlayIP l) (tbl w))"
      by (auto simp: during_exclusive deletes_rows_def list_ex_iff split: if_splits)
    have over: "takes_over P K d now (tbl w) (OverlaySubnet l) (delete_rows (UnderlayIP l) (tbl w))"
      unfolding takes_over_def using sub x by blast
    from assms(1) 3 4 some l3 l4 over show ?thesis by (cases e) (auto intro!: exI [of _ now])
  qed
qed

lemma take_subnet_exclusive:
  assumes "take_subnet leased pick oldest (dh_DeleteEntry (lc_DatabaseHandler c)) m1 m2 w = (r, w')"
    and leased: "\<And>w rs w'. leased w = (rs, w') \<Longrightarrow>
      \<exists>now. during tbl clock up env w (tbl w') now w' \<and> lists_rows (up w) rs (filter K (tbl w'))"
    and pick: "\<And>taken w s w'. pick taken w = (s, w') \<Longrightarrow>
      quiet tbl clock up w w' \<and> (s = [] \<and> set P \<subseteq> set taken \<or> s \<in> set P \<and> s \<notin> set taken)"
    and oldest: "\<And>w l w'. oldest w = (l, w') \<Longrightarrow>
      \<exists>now. during tbl clock up env w (tbl w') now w'
        \<and> finds_oldest (up w) l (filter (\<lambda>x. K x \<and> expired d now x) (tbl w'))"
    and "[] \<notin> set P"
  shows "clock w \<le> clock w' \<and> (up w \<longrightarrow> up w') \<and>
    (\<exists>now. clock w \<le> now \<and> now \<le> clock w' \<and>
      (case r of
         Inl _ \<Rightarrow> \<not> up w \<and> (tbl w' = tbl w \<or> (\<exists>s. takes_over P K d now (tbl w) s (tbl w')))
       | Inr s \<Rightarrow> finds_free P K (tbl w) s (tbl w') \<or> takes_over P K d now (tbl w) s (tbl w')
           \<or> s = [] \<and> exhausted P K d now (tbl w) \<and> tbl w' = tbl w))"
proof -
  obtain rs w1 where 1: "leased w = (rs, w1)" by fastforce
  from leased [OF 1] have l1: "tbl w1 = tbl w" "clock w \<le> clock w1" "up w \<longrightarrow> up w1"
    "lists_rows (up w) rs (filter K (tbl w))" by (auto simp: during_exclusive)
  show ?thesis
  proof (cases rs)
    case (Inl e)
    with assms(1) 1 l1 show ?thesis by (auto simp: take_subnet_def lists_rows_def)
  next
    case (Inr ls)
    with l1(4) have "mset ls = mset (map row_lease (filter K (tbl w)))" by (simp add: lists_rows_def)
    then have "set ls = set (map row_lease (filter K (tbl w)))" by (rule mset_eq_setD)
    then have taken: "set (map OverlaySubnet ls) = row_subnets (filter K (tbl w))" by (simp add: image_image)
    obtain s w2 where 2: "pick (map OverlaySubnet ls) w1 = (s, w2)" by fastforce
    from pick [OF 2] have l2: "tbl w2 = tbl w" "clock w \<le> clock w2" "up w \<longrightarrow> up w2"
      "s = [] \<and> set P \<subseteq> row_subnets (filter K (tbl w)) \<or> s \<in> set P \<and> s \<notin> row_subnets (filter K (tbl w))"
      using l1(1-3) unfolding taken by (auto simp: quiet_def)
    show ?thesis
    proof (cases "s = []")
      case False
      with assms(1) 1 2 Inr l2 show ?thesis by (auto simp: take_subnet_def finds_free_def)
    next
      case True
      with l2(4) assms(5) have sub: "set P \<subseteq> row_subnets (filter K (tbl w2))" by (auto simp: l2(1))
      have run: "(case oldest w2 of
          (Inl err, w) \<Rightarrow> (Inl (ErrorString (m2 @ Error err)), w)
        | (Inr None, w) \<Rightarrow> (Inr [], w)
        | (Inr (Some lease), w) \<Rightarrow>
            (case dh_DeleteEntry (lc_DatabaseHandler c) (UnderlayIP lease) w of
               (Some err, w) \<Rightarrow> (Inl (ErrorString (''delete expired subnet: '' @ Error err)), w)
             | (None, w) \<Rightarrow> (Inr (OverlaySubnet lease), w))) = (r, w')"
        using assms(1) 1 2 Inr True by (simp add: take_subnet_def)
      from takeover_exclusive [where oldest = oldest and w = w2 and K = K and d = d and P = P, OF run oldest sub] obtain now where t: "up w2 \<longrightarrow> up w'" "clock w2 \<le> now" "now \<le> clock w'"
        "case r of
           Inl _ \<Rightarrow> \<not> up w2 \<and> (tbl w' = tbl w2 \<or> (\<exists>s. takes_over P K d now (tbl w2) s (tbl w')))
         | Inr s \<Rightarrow> takes_over P K d now (tbl w2) s (tbl w') \<or> s = [] \<and> exhausted P K d now (tbl w2) \<and> tbl w' = tbl w2" by auto
      with l2 show ?thesis by (intro conjI exI [of _ now]) (auto split: sum.splits)
    qed
  qed
qed

end

lemma lease_of_fields: "lease_of u s = Some l \<Longrightarrow> UnderlayIP l = u \<and> OverlaySubnet l = s"
  by (auto simp: lease_of_def split: sum.splits prod.splits)

lemma lease_of_cidr_text:
  "n \<le> 32 \<Longrightarrow> lease_of u (cidr_text v n) = Some \<lparr>UnderlayIP = u, OverlaySubnet = cidr_text v n,
     OverlayHardwareAddr = HardwareAddr_String ([0xee, 0xee] @ bytes32 v)\<rparr>"
  using GenerateForVTEP_v4 [of "bytes32 v"] by (simp add: lease_of_def ParseCIDR_cidr_text)

lemma length_cidr_text: "n \<le> 32 \<Longrightarrow> length (cidr_text v n) \<le> 18"
proof -
  assume "n \<le> 32"
  have "\<forall>n \<in> set [0..<33]. length (itoa n) \<le> 2" by code_simp
  then have "length (itoa n) \<le> 2" using \<open>n \<le> 32\<close> by (rule all_upto_32)
  then show ?thesis using dotted_length [of "bytes32 v"] by (simp add: cidr_text_def)
qed

lemma lease_of_fits:
  assumes "lease_of u (cidr_text v n) = Some l" "n \<le> 32" "length u \<le> 15"
  shows "fits_columns l"
  using assms length_cidr_text [of n v]
  by (auto simp: lease_of_cidr_text fits_columns_def length_HardwareAddr_String)

context lease_controller
begin

lemma pool_not_Nil: "[] \<notin> set (pool_of blocks singles single)"
proof -
  have "\<not> (\<exists>v n. n \<le> 32 \<and> [] = cidr_text v n)" using cidr_text_not_Nil by metis
  then show ?thesis using member_text [of "[]"] by (auto simp: pool_of_def)
qed

text \<open>One attempt: the search, then the insertion.\<close>

lemma tryAcquireLease_cases:
  assumes "(if single then tryAcquireAvailableSingleIPSubnet c u w else tryAcquireAvailableBlockSubnet c u w) = (r, w1)"
  shows "tryAcquireLease c u single w =
     (case r of
        Inl err \<Rightarrow> (Inl err, w1)
      | Inr s \<Rightarrow>
          if s = [] then (Inr None, w1)
          else case lease_of u s of
            None \<Rightarrow> (fst (tryAcquireLease c u single w), w1)
          | Some l \<Rightarrow>
              (case dh_AddEntry (lc_DatabaseHandler c) l w1 of
                 (Some err, w) \<Rightarrow> (Inl (ErrorString (''adding lease entry: '' @ Error err)), w)
               | (None, w) \<Rightarrow> (Inr (Some l), w)))"
  unfolding tryAcquireLease_def assms
  by (simp add: lease_of_def hardware Let_def split: sum.splits prod.splits option.splits)

lemma tryAcquireLease_unparsed:
  assumes "(if single then tryAcquireAvailableSingleIPSubnet c u w else tryAcquireAvailableBlockSubnet c u w) = (Inr s, w1)"
    and "s \<noteq> []" and "lease_of u s = None"
  shows "\<exists>e. tryAcquireLease c u single w = (Inl e, w1)"
  unfolding tryAcquireLease_def assms(1) using assms(2,3)
  by (auto simp: lease_of_def hardware split: sum.splits prod.splits)

end

context exclusive_controller
begin

lemma search_exclusive:
  assumes "(if single then tryAcquireAvailableSingleIPSubnet c u w else tryAcquireAvailableBlockSubnet c u w) = (r, w')"
  shows "clock w \<le> clock w' \<and> (up w \<longrightarrow> up w') \<and>
    (\<exists>now. clock w \<le> now \<and> now \<le> clock w' \<and>
      (let P = pool_of blocks singles single; K = of_kind single; d = lc_LeaseExpirationSeconds c in
       case r of
         Inl _ \<Rightarrow> \<not> up w \<and> (tbl w' = tbl w \<or> (\<exists>s. takes_over P K d now (tbl w) s (tbl w')))
       | Inr s \<Rightarrow> finds_free P K (tbl w) s (tbl w') \<or> takes_over P K d now (tbl w) s (tbl w')
           \<or> s = [] \<and> exhausted P K d now (tbl w) \<and> tbl w' = tbl w))"
proof (cases single)
  case True
  have K: "of_kind True = (\<lambda>x. row_single x)" by (simp add: of_kind_def fun_eq_iff)
  have "tryAcquireAvailableSingleIPSubnet c u w = (r, w')" using assms True by simp
  from take_subnet_exclusive [OF this [unfolded tryAcquireAvailable_take] AllSingleIPSubnets GetAvailableSingleIP OldestExpiredSingleIP]
  show ?thesis using True pool_not_Nil [of True] by (simp add: Let_def pool_of_def K)
next
  case False
  have K: "of_kind False = (\<lambda>x. \<not> row_single x)" by (simp add: of_kind_def fun_eq_iff)
  have "tryAcquireAvailableBlockSubnet c u w = (r, w')" using assms False by simp
  from take_subnet_exclusive [OF this [unfolded tryAcquireAvailable_take] AllBlockSubnets GetAvailableBlock OldestExpiredBlockSubnet]
  show ?thesis using False pool_not_Nil [of False] by (simp add: Let_def pool_of_def K)
qed

end

lemma spares_refl [simp]: "spares d u T now T"
  by (simp add: spares_def)

lemma spares_trans:
  "spares d u T now T' \<Longrightarrow> spares d u T' now' T'' \<Longrightarrow> now \<le> now' \<Longrightarrow> spares d u T now' T''"
  unfolding spares_def using expired_mono by blast

lemma spares_insert: "UnderlayIP l = u \<Longrightarrow> spares d u T now (insert_row l now' T)"
  by (auto simp: spares_def)

lemma spares_delete: "spares d u T now (delete_rows u T)"
  by (auto simp: spares_def)

lemma takes_over_spares:
  assumes "takes_over P K d now T s T'" "rows_ok T" "now \<le> now'"
  shows "spares d u T now' T'"
proof -
  from assms(1) obtain x where x: "x \<in> set T" "expired d now x" "T' = delete_rows (UnderlayIP (row_lease x)) T"
    by (auto simp: takes_over_def)
  have "y = x" if "y \<in> set T" "row_for (UnderlayIP (row_lease x)) y" for y
    using rows_ok_same_underlay [OF assms(2) that(1) x(1) that(2)] .
  then show ?thesis using x(2,3) assms(3) by (auto simp: spares_def dest: expired_mono)
qed

lemma takes_over_ok: "takes_over P K d now T s T' \<Longrightarrow> rows_ok T \<Longrightarrow> rows_ok T'"
  by (auto simp: takes_over_def)

context exclusive_controller
begin

abbreviation searched :: "bool \<Rightarrow> int \<Rightarrow> subnet_row list \<Rightarrow> string \<Rightarrow> subnet_row list \<Rightarrow> bool" where
  "searched single now T s T' \<equiv>
     finds_free (pool_of blocks singles single) (of_kind single) T s T' \<or>
     takes_over (pool_of blocks singles single) (of_kind single) (lc_LeaseExpirationSeconds c) now T s T'"

lemma attempt_exclusive:
  assumes "tryAcquireLease c u single w = (r, w')"
  obtains now s T where "clock w \<le> now" "now \<le> clock w'" "up w \<longrightarrow> up w'"
    and "T = tbl w \<or> searched single now (tbl w) s T"
    and "tbl w' = T \<or> (\<exists>l now'. lease_of u s = Some l \<and> searched single now (tbl w) s T \<and> \<not> conflicts T l \<and> fits_columns l
           \<and> now \<le> now' \<and> now' \<le> clock w' \<and> tbl w' = insert_row l now' T)"
    and "\<And>l. r = Inr (Some l) \<Longrightarrow> lease_of u s = Some l \<and> searched single now (tbl w) s T
           \<and> (\<exists>now'. now \<le> now' \<and> now' \<le> clock w' \<and> tbl w' = insert_row l now' T \<and> \<not> conflicts T l \<and> fits_columns l)"
    and "r = Inr None \<Longrightarrow> tbl w' = T \<and> (s = [] \<and> searched single now (tbl w) s T \<or> T = tbl w \<and>
           exhausted (pool_of blocks singles single) (of_kind single) (lc_LeaseExpirationSeconds c) now (tbl w))"
    and "\<And>e. r = Inl e \<Longrightarrow> \<not> up w \<or> s \<noteq> [] \<and> searched single now (tbl w) s T
           \<and> (case lease_of u s of None \<Rightarrow> True | Some l \<Rightarrow> conflicts T l \<or> \<not> fits_columns l)"
proof -
  obtain q w1 where 1: "(if single then tryAcquireAvailableSingleIPSubnet c u w
      else tryAcquireAvailableBlockSubnet c u w) = (q, w1)" by fastforce
  have "\<exists>now. clock w \<le> now \<and> now \<le> clock w1 \<and> (up w \<longrightarrow> up w1) \<and>
    (\<forall>e. q = Inl e \<longrightarrow> \<not> up w \<and> (tbl w1 = tbl w \<or> (\<exists>s. searched single now (tbl w) s (tbl w1)))) \<and>
    (\<forall>s. q = Inr s \<longrightarrow> searched single now (tbl w) s (tbl w1) \<or> s = [] \<and>
      exhausted (pool_of blocks singles single) (of_kind single) (lc_LeaseExpirationSeconds c) now (tbl w) \<and> tbl w1 = tbl w)"
    using search_exclusive [OF 1] unfolding Let_def by (cases q; simp) blast+
  then obtain now where m1: "clock w \<le> now" "now \<le> clock w1" "up w \<longrightarrow> up w1" and
    err: "\<And>e. q = Inl e \<Longrightarrow> \<not> up w \<and> (tbl w1 = tbl w \<or> (\<exists>s. searched single now (tbl w) s (tbl w1)))" and
    ok: "\<And>s. q = Inr s \<Longrightarrow> searched single now (tbl w) s (tbl w1) \<or> s = [] \<and>
      exhausted (pool_of blocks singles single) (of_kind single) (lc_LeaseExpirationSeconds c) now (tbl w) \<and> tbl w1 = tbl w"
    by blast
  note att = tryAcquireLease_cases [OF 1]
  show thesis
  proof (cases q)
    case (Inl e)
    then have r: "r = Inl e" "w' = w1" using assms att by auto
    from err [OF Inl] obtain s where "\<not> up w" "tbl w1 = tbl w \<or> searched single now (tbl w) s (tbl w1)" by blast
    then show thesis using r m1 by (intro that [where now = now and T = "tbl w1" and s = s]) auto
  next
    case q: (Inr s)
    show thesis
    proof (cases "s = []")
      case True
      then have r: "r = Inr None" "w' = w1" using assms att q by auto
      with ok [OF q] True m1 show thesis by (intro that [where now = now and T = "tbl w1" and s = s]) auto
    next
      case False
      with ok [OF q] have got: "searched single now (tbl w) s (tbl w1)" by simp
      show thesis
      proof (cases "lease_of u s")
        case None
        with tryAcquireLease_unparsed [OF 1 [unfolded q] False] assms obtain e where "r = Inl e" "w' = w1" by auto
        with False None got m1 show thesis by (intro that [where now = now and T = "tbl w1" and s = s]) auto
      next
        case (Some l)
        obtain e w2 where 2: "dh_AddEntry (lc_DatabaseHandler c) l w1 = (e, w2)" by fastforce
        from AddEntry [OF 2] obtain now' where
          m2: "clock w1 \<le> now'" "now' \<le> clock w2" "up w1 \<longrightarrow> up w2" and add: "adds_row (up w1) e l now' (tbl w1) (tbl w2)"
          by (auto simp: during_exclusive)
        have w2: "w' = w2" and r: "r = (case e of None \<Rightarrow> Inr (Some l) | Some err \<Rightarrow> Inl (ErrorString (''adding lease entry: '' @ Error err)))"
          using assms att q False Some 2 by (auto split: option.splits)
        show thesis
          using m1 m2 add got False Some r
          by (intro that [where now = now and T = "tbl w1" and s = s]) (auto simp: w2 adds_row_def split: option.splits if_splits)
      qed
    qed
  qed
qed

end

lemma issued_rowsD:
  assumes "issued_rows blocks singles T" "x \<in> set T"
  shows "OverlaySubnet (row_lease x) \<in> set blocks \<or> OverlaySubnet (row_lease x) \<in> set singles"
    and "lease_of (UnderlayIP (row_lease x)) (OverlaySubnet (row_lease x)) = Some (row_lease x)"
  using assms by (auto simp: issued_rows_def list_all_iff)

lemma issued_rows_subset:
  "issued_rows blocks singles T \<Longrightarrow> set T' \<subseteq> set T \<Longrightarrow> issued_rows blocks singles T'"
  by (auto simp: issued_rows_def list_all_iff)

lemma issued_rows_insert:
  assumes "issued_rows blocks singles T" "lease_of u s = Some l" "s \<in> set blocks \<or> s \<in> set singles"
  shows "issued_rows blocks singles (insert_row l now T)"
  using assms lease_of_fields [OF assms(2)] by (simp add: issued_rows_def)

lemma takes_over_subset: "takes_over P K d now T s T' \<Longrightarrow> set T' \<subseteq> set T \<and> s \<in> row_subnets T"
  by (auto simp: takes_over_def)

lemma pool_of_member: "s \<in> set (pool_of blocks singles single) \<Longrightarrow> s \<in> set blocks \<or> s \<in> set singles"
  by (auto simp: pool_of_def split: if_splits)

context lease_controller
begin

lemma issued_no_conflict:
  assumes "issued_rows blocks singles T" "s \<in> set blocks \<or> s \<in> set singles" "s \<notin> row_subnets T"
    and "\<And>x. x \<in> set T \<Longrightarrow> \<not> row_for u x" "lease_of u s = Some l"
  shows "\<not> conflicts T l"
proof
  assume "conflicts T l"
  then obtain x where x: "x \<in> set T" and "OverlaySubnet (row_lease x) = OverlaySubnet l
      \<or> OverlayHardwareAddr (row_lease x) = OverlayHardwareAddr l"
    using assms(4) lease_of_fields [OF assms(5)] by (auto simp: conflicts_iff)
  then have hw: "OverlayHardwareAddr (row_lease x) = OverlayHardwareAddr l"
    using assms(3) x lease_of_fields [OF assms(5)] by (metis image_eqI)
  note mem = issued_rowsD [OF assms(1) x]
  from member_text [OF mem(1)] obtain v m where v: "m \<le> 32" "OverlaySubnet (row_lease x) = cidr_text v m" by blast
  from member_text [OF assms(2)] obtain y n where y: "n \<le> 32" "s = cidr_text y n" by blast
  have "OverlayHardwareAddr (row_lease x) = HardwareAddr_String ([0xee, 0xee] @ bytes32 v)"
    using mem(2) v by (simp add: lease_of_cidr_text Lease_eq_iff)
  moreover have "OverlayHardwareAddr l = HardwareAddr_String ([0xee, 0xee] @ bytes32 y)"
    using assms(5) y by (auto simp: lease_of_cidr_text)
  ultimately have "[0xee, 0xee] @ bytes32 v = [0xee, 0xee] @ bytes32 y"
    using hw by (intro HardwareAddr_String_inj) simp_all
  then have "v = y" by simp
  then have "m = n" using member_base [of v m n] mem(1) assms(2) v y by auto
  with \<open>v = y\<close> v y x assms(3) show False by force
qed

end

context exclusive_controller
begin

lemma searched_ok: "searched single now T s T' \<Longrightarrow> rows_ok T \<Longrightarrow> rows_ok T'"
  by (auto simp: finds_free_def dest: takes_over_ok)

lemma searched_member:
  assumes "searched single now T s T'" "issued_rows blocks singles T"
  shows "s \<in> set blocks \<or> s \<in> set singles" and "s \<noteq> []" and "set T' \<subseteq> set T"
proof -
  show mem: "s \<in> set blocks \<or> s \<in> set singles"
    using assms issued_rowsD(1) [OF assms(2)] takes_over_subset pool_of_member
    unfolding finds_free_def by blast
  from member_text [OF mem] show "s \<noteq> []" using cidr_text_not_Nil by metis
  show "set T' \<subseteq> set T" using assms(1) by (auto simp: finds_free_def dest!: takes_over_subset)
qed

lemma attempt_spares:
  assumes "tryAcquireLease c u single w = (r, w')" "rows_ok (tbl w)"
  shows "clock w \<le> clock w' \<and> spares (lc_LeaseExpirationSeconds c) u (tbl w) (clock w') (tbl w')"
  using assms(1)
proof (rule attempt_exclusive)
  fix now s T
  assume le: "clock w \<le> now" "now \<le> clock w'"
    and T: "T = tbl w \<or> searched single now (tbl w) s T"
    and fin: "tbl w' = T \<or> (\<exists>l now'. lease_of u s = Some l \<and> searched single now (tbl w) s T \<and> \<not> conflicts T l \<and> fits_columns l
           \<and> now \<le> now' \<and> now' \<le> clock w' \<and> tbl w' = insert_row l now' T)"
  have "spares (lc_LeaseExpirationSeconds c) u (tbl w) (clock w') T"
    using T assms(2) le by (auto simp: finds_free_def intro: takes_over_spares)
  moreover have "spares (lc_LeaseExpirationSeconds c) u T (clock w') (tbl w')"
    using fin lease_of_fields [of u s] by (auto intro!: spares_insert)
  ultimately show ?thesis using le by (auto intro: spares_trans)
qed

lemma attempt_issued:
  assumes "tryAcquireLease c u single w = (r, w')" "issued_rows blocks singles (tbl w)"
  shows "issued_rows blocks singles (tbl w')"
  using assms(1)
proof (rule attempt_exclusive)
  fix now s T
  assume T: "T = tbl w \<or> searched single now (tbl w) s T"
    and fin: "tbl w' = T \<or> (\<exists>l now'. lease_of u s = Some l \<and> searched single now (tbl w) s T \<and> \<not> conflicts T l \<and> fits_columns l
           \<and> now \<le> now' \<and> now' \<le> clock w' \<and> tbl w' = insert_row l now' T)"
  from T have "set T \<subseteq> set (tbl w)" using searched_member(3) [OF _ assms(2)] by blast
  with assms(2) have iT: "issued_rows blocks singles T" by (rule issued_rows_subset)
  show ?thesis
  proof (cases "tbl w' = T")
    case False
    with fin obtain l now' where l: "lease_of u s = Some l" "searched single now (tbl w) s T" "tbl w' = insert_row l now' T"
      by blast
    show ?thesis unfolding l(3)
      using iT l(1) searched_member(1) [OF l(2) assms(2)] by (rule issued_rows_insert)
  qed (simp add: iT)
qed

lemma attempt_complete:
  assumes "tryAcquireLease c u single w = (r, w')" "up w" "rows_ok (tbl w)" "issued_rows blocks singles (tbl w)"
    and "\<And>x. x \<in> set (tbl w) \<Longrightarrow> \<not> row_for u x" "length u \<le> 15" "\<And>s. s \<in> set blocks \<Longrightarrow> \<not> single_subnet s"
  shows "up w' \<and> clock w \<le> clock w' \<and> ((\<exists>l. r = Inr (Some l)) \<or> r = Inr None \<and> tbl w' = tbl w \<and>
    exhausted (pool_of blocks singles single) (of_kind single) (lc_LeaseExpirationSeconds c) (clock w) (tbl w))"
  using assms(1)
proof (rule attempt_exclusive)
  fix now s T
  assume le: "clock w \<le> now" "now \<le> clock w'" and up: "up w \<longrightarrow> up w'"
    and none: "r = Inr None \<Longrightarrow> tbl w' = T \<and> (s = [] \<and> searched single now (tbl w) s T \<or> T = tbl w \<and>
           exhausted (pool_of blocks singles single) (of_kind single) (lc_LeaseExpirationSeconds c) now (tbl w))"
    and err: "\<And>e. r = Inl e \<Longrightarrow> \<not> up w \<or> s \<noteq> [] \<and> searched single now (tbl w) s T
           \<and> (case lease_of u s of None \<Rightarrow> True | Some l \<Rightarrow> conflicts T l \<or> \<not> fits_columns l)"
  note mem = searched_member(1) [OF _ assms(4)] and ne = searched_member(2) [OF _ assms(4)]
  have "r \<noteq> Inl e" for e
  proof
    assume "r = Inl e"
    with err assms(2) have got: "searched single now (tbl w) s T"
      and bad: "case lease_of u s of None \<Rightarrow> True | Some l \<Rightarrow> conflicts T l \<or> \<not> fits_columns l" by auto
    from member_text [OF mem [OF got]] obtain v n where v: "n \<le> 32" "s = cidr_text v n" by blast
    then obtain l where l: "lease_of u s = Some l" by (simp add: lease_of_cidr_text)
    note sub = searched_member(3) [OF got assms(4)]
    have new: "s \<notin> row_subnets T"
    proof (cases "finds_free (pool_of blocks singles single) (of_kind single) (tbl w) s T")
      case True
      then have "single_subnet s = single" using assms(7) singles_single
        by (auto simp: finds_free_def pool_of_def split: if_splits)
      with True show ?thesis by (auto simp: finds_free_def of_kind_def)
    next
      case False
      with got obtain x where x: "x \<in> set (tbl w)" "s = OverlaySubnet (row_lease x)"
        "T = delete_rows (UnderlayIP (row_lease x)) (tbl w)" by (auto simp: takes_over_def)
      show ?thesis
      proof
        assume "s \<in> row_subnets T"
        then obtain y where y: "y \<in> set (tbl w)" "\<not> row_for (UnderlayIP (row_lease x)) y" "OverlaySubnet (row_lease y) = s"
          unfolding x(3) by auto
        then have "y = x" using rows_ok_same_subnet [OF assms(3) y(1) x(1)] x(2) by simp
        with y(2) show False by simp
      qed
    qed
    have "\<not> conflicts T l"
      using issued_rows_subset [OF assms(4) sub] mem [OF got] new
    proof (rule issued_no_conflict)
      show "\<not> row_for u x" if "x \<in> set T" for x using that sub assms(5) by blast
    qed (rule l)
    moreover have "fits_columns l" using lease_of_fits l v assms(6) by blast
    ultimately show False using bad l by simp
  qed
  then obtain ol where r: "r = Inr ol" by (cases r) auto
  show ?thesis
  proof (cases ol)
    case None
    with none r ne have "tbl w' = T" "T = tbl w"
      "exhausted (pool_of blocks singles single) (of_kind single) (lc_LeaseExpirationSeconds c) now (tbl w)" by auto
    with exhausted_mono [OF _ le(1)] r None le up assms(2) show ?thesis by auto
  qed (use r le up assms(2) in auto)
qed

end

lemma renew_insert:
  assumes "\<And>x. x \<in> set T \<Longrightarrow> \<not> row_for (UnderlayIP l) x"
  shows "renew_rows (UnderlayIP l) now (insert_row l now' T) = insert_row l now T"
proof -
  have "map (renew_row (UnderlayIP l) now) T = T" using assms by (intro map_idI) (simp add: renew_row_def)
  then show ?thesis by (simp add: renew_rows_def renew_row_def)
qed

context exclusive_controller
begin

text \<open>What the first two steps of \<^verbatim>\<open>AcquireSubnetLease\<close> leave to the loop.\<close>

lemma acquire_start:
  assumes "AcquireSubnetLease c u single w = (r, w')"
  obtains (refused) e where "ParseIP_To4 u = []" "r = Inl e" "w' = w"
  | (found) x where "ParseIP_To4 u \<noteq> []" "x \<in> set (tbl w)" "row_for u x" "cp_IsMember (lc_CIDRPool c) (OverlaySubnet (row_lease x))"
      "r = Inr (Some (row_lease x))" "tbl w' = tbl w" "clock w \<le> clock w'" "up w \<longrightarrow> up w'"
  | (failed) e where "r = Inl e" "\<not> up w" "tbl w' = tbl w \<or> tbl w' = delete_rows u (tbl w)" "clock w \<le> clock w'"
  | (loop) w1 where "ParseIP_To4 u \<noteq> []"
      "acquire_loop (nat (lc_AcquireSubnetLeaseAttempts c)) c u single (Inr None) w1 = (r, w')"
      "tbl w1 = delete_rows u (tbl w)" "clock w \<le> clock w1" "up w \<longrightarrow> up w1"
      "(\<forall>x\<in>set (tbl w). \<not> row_for u x) \<or>
       (\<exists>x\<in>set (tbl w). row_for u x \<and> \<not> cp_IsMember (lc_CIDRPool c) (OverlaySubnet (row_lease x)))"
proof (cases "ParseIP_To4 u = []")
  case True
  with assms show thesis by (intro refused) (auto simp: AcquireSubnetLease_def)
next
  case ip: False
  obtain q w1 where 1: "dh_LeaseForUnderlayIP (lc_DatabaseHandler c) u w = (q, w1)" by fastforce
  from LeaseForUnderlayIP [OF 1] have f: "tbl w1 = tbl w" "clock w \<le> clock w1" "up w \<longrightarrow> up w1"
    "finds_row (up w) q (filter (row_for u) (tbl w))" by (auto simp: during_exclusive)
  consider (e) e where "q = Inl e" | (n) "q = Inr None" | (s) l where "q = Inr (Some l)"
    by (metis sumE option.exhaust)
  then show thesis
  proof cases
    case e
    with assms 1 f ip show thesis by (intro failed) (auto simp: AcquireSubnetLease_def finds_row_def)
  next
    case n
    with f have none: "\<forall>x\<in>set (tbl w). \<not> row_for u x" by (auto simp: finds_row_def filter_empty_conv)
    then have "tbl w1 = delete_rows u (tbl w)" using f(1) by (simp add: delete_rows_absent)
    with none assms 1 f ip n show thesis by (intro loop) (auto simp: AcquireSubnetLease_def)
  next
    case (s l)
    with f obtain x where x: "x \<in> set (tbl w)" "row_for u x" "row_lease x = l" by (auto simp: finds_row_def)
    show thesis
    proof (cases "cp_IsMember (lc_CIDRPool c) (OverlaySubnet l)")
      case True
      with assms 1 f ip s x show thesis by (intro found [of x]) (auto simp: AcquireSubnetLease_def)
    next
      case False
      obtain e w2 where 2: "dh_DeleteEntry (lc_DatabaseHandler c) u w1 = (e, w2)" by fastforce
      from DeleteEntry [OF 2] f x(1,2) have d: "clock w \<le> clock w2" "up w \<longrightarrow> up w2"
        "e = None \<longrightarrow> tbl w2 = delete_rows u (tbl w)"
        "e \<noteq> None \<longrightarrow> \<not> up w \<and> (tbl w2 = tbl w \<or> tbl w2 = delete_rows u (tbl w))"
        by (auto simp: during_exclusive deletes_rows_def list_ex_iff split: if_splits)
      show thesis
      proof (cases e)
        case None
        with assms 1 2 ip s False d x show thesis by (intro loop [of w2]) (auto simp: AcquireSubnetLease_def)
      next
        case (Some err)
        with assms 1 2 ip s False d show thesis by (intro failed) (auto simp: AcquireSubnetLease_def)
      qed
    qed
  qed
qed

lemma acquire_loop_spares:
  "acquire_loop k c u single r0 w = (r, w') \<Longrightarrow> rows_ok (tbl w) \<Longrightarrow>
     clock w \<le> clock w' \<and> spares (lc_LeaseExpirationSeconds c) u (tbl w) (clock w') (tbl w')"
proof (induction k arbitrary: r0 w)
  case (Suc k)
  obtain r1 w1 where 1: "tryAcquireLease c u single w = (r1, w1)" by fastforce
  note a = attempt_spares [OF 1 Suc.prems(2)] and ok = tryAcquireLease_ok [OF 1 Suc.prems(2)]
  show ?case
  proof (cases "\<exists>l. r1 = Inr (Some l)")
    case True
    with a Suc.prems(1) 1 show ?thesis by auto
  next
    case False
    then have "acquire_loop k c u single r1 w1 = (r, w')"
      using Suc.prems(1) 1 by (auto split: sum.splits option.splits)
    from Suc.IH [OF this ok] a show ?thesis by (auto intro: spares_trans)
  qed
qed simp

lemma acquire_loop_issued:
  "acquire_loop k c u single r0 w = (r, w') \<Longrightarrow> issued_rows blocks singles (tbl w) \<Longrightarrow> issued_rows blocks singles (tbl w')"
proof (induction k arbitrary: r0 w)
  case (Suc k)
  obtain r1 w1 where 1: "tryAcquireLease c u single w = (r1, w1)" by fastforce
  note a = attempt_issued [OF 1 Suc.prems(2)]
  show ?case using Suc.prems(1) Suc.IH [OF _ a] a 1 by (auto split: sum.splits option.splits)
qed simp

lemma acquire_loop_complete:
  assumes "acquire_loop (Suc k) c u single r0 w = (r, w')" "up w" "rows_ok (tbl w)" "issued_rows blocks singles (tbl w)"
    and "\<And>x. x \<in> set (tbl w) \<Longrightarrow> \<not> row_for u x" "length u \<le> 15" "\<And>s. s \<in> set blocks \<Longrightarrow> \<not> single_subnet s"
  shows "(\<exists>l. r = Inr (Some l)) \<or> r = Inr None \<and> tbl w' = tbl w \<and>
    exhausted (pool_of blocks singles single) (of_kind single) (lc_LeaseExpirationSeconds c) (clock w) (tbl w)"
  using assms(1-5)
proof (induction k arbitrary: r0 w)
  case 0
  obtain r1 w1 where 1: "tryAcquireLease c u single w = (r1, w1)" by fastforce
  from attempt_complete [OF 1 0(2-5) assms(6,7)] 0(1) 1 show ?case by (auto split: sum.splits option.splits)
next
  case (Suc k)
  obtain r1 w1 where 1: "tryAcquireLease c u single w = (r1, w1)" by fastforce
  note a = attempt_complete [OF 1 Suc.prems(2-5) assms(6,7)]
  show ?case
  proof (cases "\<exists>l. r1 = Inr (Some l)")
    case True
    with Suc.prems(1) 1 show ?thesis by auto
  next
    case False
    with a have w1: "up w1" "tbl w1 = tbl w" and ex:
      "exhausted (pool_of blocks singles single) (of_kind single) (lc_LeaseExpirationSeconds c) (clock w) (tbl w)" by auto
    have "acquire_loop (Suc k) c u single r1 w1 = (r, w')"
      using Suc.prems(1) 1 False by (auto split: sum.splits option.splits simp del: acquire_loop.simps(2) simp: acquire_loop.simps(2) [of "Suc k"])
    from Suc.IH [OF this] w1 Suc.prems(3-5) have "(\<exists>l. r = Inr (Some l)) \<or> r = Inr None \<and> tbl w' = tbl w" by auto
    with ex show ?thesis by blast
  qed
qed

lemma acquire_spares:
  assumes "AcquireSubnetLease c u single w = (r, w')" "rows_ok (tbl w)"
  shows "spares (lc_LeaseExpirationSeconds c) u (tbl w) (clock w') (tbl w')"
  using assms(1)
proof (cases rule: acquire_start)
  case (loop w1)
  have "rows_ok (tbl w1)" using assms(2) loop(3) by auto
  from acquire_loop_spares [OF loop(2) this] show ?thesis
    unfolding loop(3) using spares_trans [OF spares_delete] by blast
qed (use spares_delete in auto)

lemma acquire_issued:
  assumes "AcquireSubnetLease c u single w = (r, w')" "issued_rows blocks singles (delete_rows u (tbl w))"
    and "r = Inr (Some l)"
  shows "OverlaySubnet l \<in> set blocks \<or> OverlaySubnet l \<in> set singles"
  using assms(1)
proof (cases rule: acquire_start)
  case (found x)
  then show ?thesis using assms(3) by (simp add: IsMember)
next
  case (loop w1)
  have "issued_rows blocks singles (tbl w')" using acquire_loop_issued [OF loop(2)] loop(3) assms(2) by simp
  moreover have "l \<in> row_lease ` set (tbl w')" using acquire_holds assms(1,3) by blast
  ultimately show ?thesis using issued_rowsD(1) by blast
qed (use assms(3) in auto)

lemma acquire_complete:
  assumes "AcquireSubnetLease c u single w = (r, w')" "ParseIP_To4 u \<noteq> []" "length u \<le> 15" "up w" "rows_ok (tbl w)"
    and "issued_rows blocks singles (delete_rows u (tbl w))" "\<And>s. s \<in> set blocks \<Longrightarrow> \<not> single_subnet s"
    and "0 < lc_AcquireSubnetLeaseAttempts c"
  shows "(\<exists>l. r = Inr (Some l)) \<or> r = Inr None \<and> tbl w' = delete_rows u (tbl w) \<and>
    exhausted (pool_of blocks singles single) (of_kind single) (lc_LeaseExpirationSeconds c) (clock w) (delete_rows u (tbl w))"
  using assms(1)
proof (cases rule: acquire_start)
  case (loop w1)
  obtain k where k: "nat (lc_AcquireSubnetLeaseAttempts c) = Suc k" using assms(8) by (metis gr0_implies_Suc zero_less_nat_eq)
  have "rows_ok (tbl w1)" using assms(5) loop(3) by auto
  then have "(\<exists>l. r = Inr (Some l)) \<or> r = Inr None \<and> tbl w' = tbl w1 \<and>
      exhausted (pool_of blocks singles single) (of_kind single) (lc_LeaseExpirationSeconds c) (clock w1) (tbl w1)"
    using loop(3,5) assms(3,4,6,7) by (intro acquire_loop_complete [OF loop(2) [unfolded k]]) auto
  then show ?thesis using exhausted_mono [OF _ loop(4)] by (auto simp: loop(3))
qed (use assms(2,4) in auto)

lemma acquire_loop_clock: "acquire_loop k c u single r0 w = (r, w') \<Longrightarrow> clock w \<le> clock w'"
proof (induction k arbitrary: r0 w)
  case (Suc k)
  obtain r1 w1 where 1: "tryAcquireLease c u single w = (r1, w1)" by fastforce
  have "clock w \<le> clock w1" using 1 by (rule attempt_exclusive) simp
  then show ?case using Suc.prems Suc.IH [of r1 w1] 1 by (auto split: sum.splits option.splits)
qed simp

lemma acquire_clock:
  assumes "AcquireSubnetLease c u single w = (r, w')" shows "clock w \<le> clock w'"
  using assms by (cases rule: acquire_start) (auto dest: acquire_loop_clock)

text \<open>A host that has a lease of the pool gets it back; its time stamp stays.\<close>

lemma acquire_existing:
  assumes "AcquireSubnetLease c u single w = (r, w')" "ParseIP_To4 u \<noteq> []" "up w" "rows_ok (tbl w)"
    and "x \<in> set (tbl w)" "row_for u x" "cp_IsMember (lc_CIDRPool c) (OverlaySubnet (row_lease x))"
  shows "r = Inr (Some (row_lease x)) \<and> tbl w' = tbl w"
proof -
  have only: "y = x" if "y \<in> set (tbl w)" "row_for u y" for y
    using rows_ok_same_underlay [OF assms(4) that(1) assms(5)] that(2) assms(6) by simp
  from assms(1) show ?thesis
  proof (cases rule: acquire_start)
    case (found y)
    then show ?thesis using only [of y] by simp
  next
    case (loop w1)
    from loop(6) show ?thesis
    proof (elim disjE bexE conjE)
      assume "\<forall>x\<in>set (tbl w). \<not> row_for u x"
      then show ?thesis using assms(5,6) by blast
    next
      fix y assume "y \<in> set (tbl w)" "row_for u y" "\<not> cp_IsMember (lc_CIDRPool c) (OverlaySubnet (row_lease y))"
      then show ?thesis using only [of y] assms(7) by simp
    qed
  qed (use assms(2,3) in simp_all)
qed

text \<open>Renewing, releasing and listing.\<close>

lemma renew_entry_exclusive:
  assumes "renew_entry c u w = (e, w')" "x \<in> set (tbl w)" "row_for u x"
  obtains now where "clock w \<le> now" "now \<le> clock w'" "up w \<longrightarrow> up w' \<and> e = None"
    "tbl w' = renew_rows u now (tbl w) \<or> e \<noteq> None \<and> tbl w' = tbl w" "\<And>err. e = Some err \<Longrightarrow> \<not> isNonRetriable err"
proof -
  obtain e1 w1 where 1: "dh_RenewLeaseForUnderlayIP (lc_DatabaseHandler c) u w = (e1, w1)" by fastforce
  from RenewLease [OF 1] obtain now where r: "clock w \<le> now" "now \<le> clock w1" "up w \<longrightarrow> up w1"
    "renews_rows (up w) e1 u now (tbl w) (tbl w1)" by (auto simp: during_exclusive)
  show thesis
  proof (cases e1)
    case (Some err)
    with assms(1) 1 r show thesis by (intro that [of now]) (auto simp: renew_entry_def renews_rows_def)
  next
    case None
    with r have t1: "tbl w1 = renew_rows u now (tbl w)" by (simp add: renews_rows_def)
    obtain i w2 where 2: "dh_LastRenewedAtForUnderlayIP (lc_DatabaseHandler c) u w1 = (i, w2)" by fastforce
    from LastRenewedAt [OF 2] have l: "tbl w2 = tbl w1" "clock w1 \<le> clock w2" "up w1 \<longrightarrow> up w2"
      "finds_time (up w1) i (filter (row_for u) (tbl w1))" by (auto simp: during_exclusive)
    have "renew_row u now x \<in> set (filter (row_for u) (tbl w1))"
      using assms(2,3) by (simp add: t1 renew_rows_def)
    then have "filter (row_for u) (tbl w1) \<noteq> []" by (metis empty_iff list.set(1))
    with assms(1) 1 2 None r t1 l show thesis
      by (intro that [of now]) (auto simp: renew_entry_def finds_time_def split: sum.splits)
  qed
qed

lemma renew_added:
  assumes "(case dh_AddEntry (lc_DatabaseHandler c) l w of
      (Some err, w) \<Rightarrow> (Some (NonRetriableError (Error err)), w)
    | (None, w) \<Rightarrow> renew_entry c (UnderlayIP l) w) = (e, w')"
    and none: "\<forall>x\<in>set (tbl w). \<not> row_for (UnderlayIP l) x"
  obtains (added) now where "\<not> conflicts (tbl w) l" "fits_columns l" "clock w \<le> now" "now \<le> clock w'"
      "up w \<longrightarrow> e = None" "tbl w' = insert_row l now (tbl w) \<or> e \<noteq> None \<and> tbl w' = tbl w"
  | (rejected) err where "e = Some err" "isNonRetriable err" "tbl w' = tbl w" "conflicts (tbl w) l \<or> \<not> fits_columns l"
proof -
  obtain e2 w2 where 2: "dh_AddEntry (lc_DatabaseHandler c) l w = (e2, w2)" by fastforce
  from AddEntry [OF 2] obtain n2 where a: "clock w \<le> n2" "n2 \<le> clock w2" "up w \<longrightarrow> up w2"
    "adds_row (up w) e2 l n2 (tbl w) (tbl w2)" by (auto simp: during_exclusive)
  show thesis
  proof (cases e2)
    case (Some err)
    with assms(1) 2 have e: "e = Some (NonRetriableError (Error err))" "w' = w2" by auto
    show thesis
    proof (cases "conflicts (tbl w) l \<or> \<not> fits_columns l")
      case True
      with Some a have "tbl w2 = tbl w" by (simp add: adds_row_def)
      with e True show thesis by (intro rejected) auto
    next
      case False
      with Some a have "\<not> up w" "tbl w2 = tbl w \<or> tbl w2 = insert_row l n2 (tbl w)" by (auto simp: adds_row_def)
      with e False a show thesis by (intro added [of n2]) auto
    qed
  next
    case None
    with a have t2: "tbl w2 = insert_row l n2 (tbl w)" "\<not> conflicts (tbl w) l" "fits_columns l" by (auto simp: adds_row_def)
    have "renew_entry c (UnderlayIP l) w2 = (e, w')" using assms(1) 2 None by simp
    moreover have "\<lparr>row_lease = l, last_renewed_at = n2\<rparr> \<in> set (tbl w2)" by (simp add: t2)
    ultimately show thesis
    proof (rule renew_entry_exclusive)
      fix now assume r: "clock w2 \<le> now" "now \<le> clock w'" "up w2 \<longrightarrow> up w' \<and> e = None"
        "tbl w' = renew_rows (UnderlayIP l) now (tbl w2) \<or> e \<noteq> None \<and> tbl w' = tbl w2"
      then have "tbl w' = insert_row l now (tbl w) \<or> e \<noteq> None \<and> tbl w' = insert_row l n2 (tbl w)"
        using renew_insert [of "tbl w" l now n2] none unfolding t2(1) by auto
      with r a t2 show thesis by (elim disjE conjE) (rule added; auto)+
    qed simp
  qed
qed

lemma renew_exclusive:
  assumes "RenewSubnetLease c l w = (e, w')"
  obtains (renewed) x now where "Validate l = None" "x \<in> set (tbl w)" "row_lease x = l" "clock w \<le> now" "now \<le> clock w'"
      "up w \<longrightarrow> e = None" "tbl w' = renew_rows (UnderlayIP l) now (tbl w) \<or> e \<noteq> None \<and> tbl w' = tbl w"
      "\<And>err. e = Some err \<Longrightarrow> \<not> isNonRetriable err"
  | (added) now where "Validate l = None" "\<forall>x\<in>set (tbl w). \<not> row_for (UnderlayIP l) x" "\<not> conflicts (tbl w) l" "fits_columns l"
      "clock w \<le> now" "now \<le> clock w'" "up w \<longrightarrow> e = None" "tbl w' = insert_row l now (tbl w) \<or> e \<noteq> None \<and> tbl w' = tbl w"
  | (rejected) err where "e = Some err" "isNonRetriable err" "tbl w' = tbl w"
      "Validate l \<noteq> None \<or> (\<exists>x\<in>set (tbl w). row_for (UnderlayIP l) x \<and> row_lease x \<noteq> l)
        \<or> (\<forall>x\<in>set (tbl w). \<not> row_for (UnderlayIP l) x) \<and> (conflicts (tbl w) l \<or> \<not> fits_columns l)"
  | (failed) err where "e = Some err" "\<not> up w" "\<not> isNonRetriable err" "tbl w' = tbl w"
proof (cases "Validate l")
  case (Some v)
  with assms show thesis by (intro rejected) (auto simp: RenewSubnetLease_def validator)
next
  case v: None
  obtain q w1 where 1: "dh_LeaseForUnderlayIP (lc_DatabaseHandler c) (UnderlayIP l) w = (q, w1)" by fastforce
  from LeaseForUnderlayIP [OF 1] have f: "tbl w1 = tbl w" "clock w \<le> clock w1" "up w \<longrightarrow> up w1"
    "finds_row (up w) q (filter (row_for (UnderlayIP l)) (tbl w))" by (auto simp: during_exclusive)
  consider (e) err where "q = Inl err" | (n) "q = Inr None" | (s) l' where "q = Inr (Some l')"
    by (metis sumE option.exhaust)
  then show thesis
  proof cases
    case e
    with assms 1 f v show thesis by (intro failed) (auto simp: RenewSubnetLease_def validator finds_row_def)
  next
    case n
    with f have none: "\<forall>x\<in>set (tbl w). \<not> row_for (UnderlayIP l) x" by (auto simp: finds_row_def filter_empty_conv)
    have "(case dh_AddEntry (lc_DatabaseHandler c) l w1 of
        (Some err, w) \<Rightarrow> (Some (NonRetriableError (Error err)), w)
      | (None, w) \<Rightarrow> renew_entry c (UnderlayIP l) w) = (e, w')"
      using assms 1 v n by (simp add: RenewSubnetLease_def validator)
    then show thesis
    proof (rule renew_added)
      show "\<forall>x\<in>set (tbl w1). \<not> row_for (UnderlayIP l) x" using none f by simp
    next
      fix now assume "\<not> conflicts (tbl w1) l" "fits_columns l" "clock w1 \<le> now" "now \<le> clock w'" "up w1 \<longrightarrow> e = None"
        "tbl w' = insert_row l now (tbl w1) \<or> e \<noteq> None \<and> tbl w' = tbl w1"
      with f none v show thesis by (intro added [of now]) auto
    next
      fix err assume "e = Some err" "isNonRetriable err" "tbl w' = tbl w1" "conflicts (tbl w1) l \<or> \<not> fits_columns l"
      with f none show thesis by (intro rejected) auto
    qed
  next
    case (s l')
    with f obtain x where x: "x \<in> set (tbl w)" "row_for (UnderlayIP l) x" "row_lease x = l'" by (auto simp: finds_row_def)
    show thesis
    proof (cases "l = l'")
      case False
      with assms 1 v s f x show thesis by (intro rejected) (auto simp: RenewSubnetLease_def validator)
    next
      case True
      have "renew_entry c (UnderlayIP l) w1 = (e, w')"
        using assms 1 v s True by (auto simp: RenewSubnetLease_def validator)
      then show thesis
      proof (rule renew_entry_exclusive)
        show "x \<in> set (tbl w1)" "row_for (UnderlayIP l) x" using x f by simp_all
        fix now assume r: "clock w1 \<le> now" "now \<le> clock w'" "up w1 \<longrightarrow> up w' \<and> e = None"
          "tbl w' = renew_rows (UnderlayIP l) now (tbl w1) \<or> e \<noteq> None \<and> tbl w' = tbl w1"
          "\<And>err. e = Some err \<Longrightarrow> \<not> isNonRetriable err"
        with f x True v show thesis by (intro renewed [of x now]) auto
      qed
    qed
  qed
qed

lemma release_exclusive:
  assumes "ReleaseSubnetLease c u w = (e, w')"
  shows "(e = None \<longrightarrow> tbl w' = delete_rows u (tbl w)) \<and> (up w \<longrightarrow> e = None)
     \<and> (e \<noteq> None \<longrightarrow> tbl w' = tbl w \<or> tbl w' = delete_rows u (tbl w))"
proof -
  obtain q w1 where 1: "dh_DeleteEntry (lc_DatabaseHandler c) u w = (q, w1)" by fastforce
  from DeleteEntry [OF 1] have "deletes_rows (up w) q u (tbl w) (tbl w1)" by (auto simp: during_exclusive)
  moreover have "\<not> list_ex (row_for u) (tbl w) \<Longrightarrow> delete_rows u (tbl w) = tbl w"
    by (rule delete_rows_absent) (auto simp: list_ex_iff)
  ultimately show ?thesis
    using assms 1 by (auto simp: ReleaseSubnetLease_def deletes_rows_def split: if_splits option.splits)
qed

lemma routable_exclusive:
  assumes "RoutableLeases c w = (r, w')"
  shows "tbl w' = tbl w \<and> (up w \<longrightarrow> (\<exists>ls. r = Inr ls)) \<and> (\<forall>ls. r = Inr ls \<longrightarrow>
     (\<exists>now. clock w \<le> now \<and> now \<le> clock w' \<and>
        mset ls = mset (map row_lease (filter (\<lambda>x. \<not> expired (lc_LeaseExpirationSeconds c) now x) (tbl w)))))"
proof -
  obtain q w1 where 1: "dh_AllActive (lc_DatabaseHandler c) (lc_LeaseExpirationSeconds c) w = (q, w1)" by fastforce
  from AllActive [OF 1] obtain now where "tbl w1 = tbl w" "clock w \<le> now" "now \<le> clock w1"
    "lists_rows (up w) q (filter (\<lambda>x. \<not> expired (lc_LeaseExpirationSeconds c) now x) (tbl w))"
    by (auto simp: during_exclusive)
  then show ?thesis using assms 1 by (auto simp: RoutableLeases_def lists_rows_def split: sum.splits)
qed

end

end
