(* ===== verification/Database_Handler.thy ===== *)
theory Database_Handler
  imports Lease_Store
begin

text \<open>
  The lease store of the controller: \<^verbatim>\<open>controller/database/database_handler.go\<close>,
  \<^verbatim>\<open>migrate_adapter.go\<close> and \<^verbatim>\<open>migrator.go\<close>.

  The SQL service is not part of the program: it is the parameter \<open>'w Db\<close>, the Go interface
  \<^verbatim>\<open>Db\<close> over a service state \<open>'w\<close>.  The handler's methods build the statement texts, run them
  and decode the answers, as the source does.  What the service promises about these
  statements is the locale \<open>subnets_db\<close>; what the handler promises to the lease controller is
  the locale \<open>lease_store\<close>.  The handler over any service that satisfies the first satisfies
  the second (\<open>handler_lease_store\<close>, a sublocale).
\<close>

section \<open>The SQL interface\<close>

datatype sqlval = SqlText string | SqlInt int

text \<open>\<^verbatim>\<open>sql.Result\<close>, \<^verbatim>\<open>sql.Rows\<close> (the rows \<^verbatim>\<open>Next\<close> yields and what \<^verbatim>\<open>Err\<close> returns afterwards).\<close>

record sql_Result =
  RowsAffected :: "int result"

record sql_Rows =
  rows_next :: "sqlval list list"
  rows_Err :: "go_error option"

record 'w Db =
  Db_Exec :: "string \<Rightarrow> sqlval list \<Rightarrow> 'w \<Rightarrow> sql_Result result \<times> 'w"
  Db_Rebind :: "string \<Rightarrow> string"
  Db_Query :: "string \<Rightarrow> sqlval list \<Rightarrow> 'w \<Rightarrow> sql_Rows result \<times> 'w"
  Db_QueryRow :: "string \<Rightarrow> sqlval list \<Rightarrow> 'w \<Rightarrow> sqlval list result \<times> 'w"
  DriverName :: string

text \<open>\<^verbatim>\<open>Scan\<close> into string and into integer variables.\<close>

fun scan_text :: "sqlval \<Rightarrow> string" where
  "scan_text (SqlText s) = s"
| "scan_text (SqlInt i) = sprintf_d i"

fun scan_int :: "sqlval \<Rightarrow> int result" where
  "scan_int (SqlInt i) = Inr i"
| "scan_int (SqlText s) =
     (let (sign, ds) = (if take 1 s = ''-'' then (-1, drop 1 s) else (1, s))
      in if ds \<noteq> [] \<and> list_all is_digit ds then Inr (sign * int (digits_val ds 0))
         else Inl (ErrorString (''converting driver.Value type string ('' @ s @ '') to a int64: invalid syntax'')))"

definition scan_arity :: "nat \<Rightarrow> sqlval list \<Rightarrow> go_error" where
  "scan_arity n vs = ErrorString (''sql: expected '' @ itoa (length vs)
     @ '' destination arguments in Scan, not '' @ itoa n)"

definition Scan3 :: "sqlval list \<Rightarrow> (string \<times> string \<times> string) result" where
  "Scan3 vs = (case vs of [a, b, c] \<Rightarrow> Inr (scan_text a, scan_text b, scan_text c) | _ \<Rightarrow> Inl (scan_arity 3 vs))"

definition Scan2 :: "sqlval list \<Rightarrow> (string \<times> string) result" where
  "Scan2 vs = (case vs of [a, b] \<Rightarrow> Inr (scan_text a, scan_text b) | _ \<Rightarrow> Inl (scan_arity 2 vs))"

definition Scan1_int :: "sqlval list \<Rightarrow> int result" where
  "Scan1_int vs = (case vs of [a] \<Rightarrow> scan_int a | _ \<Rightarrow> Inl (scan_arity 1 vs))"

section \<open>The handler\<close>

definition postgresTimeNow :: string where
  "postgresTimeNow = ''EXTRACT(EPOCH FROM now())::numeric::integer''"

definition mysqlTimeNow :: string where
  "mysqlTimeNow = ''UNIX_TIMESTAMP()''"

definition MySQL :: string where
  "MySQL = ''mysql''"

definition Postgres :: string where
  "Postgres = ''postgres''"

datatype MigrationDirection = MigrateUp | MigrateDown

record Migration =
  Migration_Id :: string
  Migration_Up :: "string list"
  Migration_Down :: "string list"

type_synonym 'w migrateAdapter =
  "'w Db \<Rightarrow> string \<Rightarrow> Migration list \<Rightarrow> MigrationDirection \<Rightarrow> 'w \<Rightarrow> int result \<times> 'w"

record 'w DatabaseHandler =
  dbh_migrator :: "'w migrateAdapter"
  dbh_migrations :: "Migration list"
  dbh_db :: "'w Db"

definition createSubnetTable :: "string \<Rightarrow> string" where
  "createSubnetTable dbType =
     (let baseCreateTable = (\<lambda>idc. ''CREATE TABLE IF NOT EXISTS subnets ('' @
            idc @
            '', underlay_ip varchar(15) NOT NULL'' @
            '', overlay_subnet varchar(18) NOT NULL'' @
            '', overlay_hwaddr varchar(17) NOT NULL'' @
            '', last_renewed_at bigint NOT NULL'' @
            '', UNIQUE (underlay_ip)'' @
            '', UNIQUE (overlay_subnet)'' @
            '', UNIQUE (overlay_hwaddr)'' @
            '');'');
          mysqlId = ''id int NOT NULL AUTO_INCREMENT, PRIMARY KEY (id)'';
          psqlId = ''id SERIAL PRIMARY KEY''
      in if dbType = Postgres then baseCreateTable psqlId
         else if dbType = MySQL then baseCreateTable mysqlId
         else [])"

definition timestampForDriver :: "string \<Rightarrow> string result" where
  "timestampForDriver driverName =
     (if driverName = MySQL then Inr mysqlTimeNow
      else if driverName = Postgres then Inr postgresTimeNow
      else Inl (ErrorString (''database type '' @ driverName @ '' is not supported'')))"

definition NewDatabaseHandler :: "'w migrateAdapter \<Rightarrow> 'w Db \<Rightarrow> 'w DatabaseHandler" where
  "NewDatabaseHandler migrator db =
     \<lparr>dbh_migrator = migrator,
      dbh_migrations =
        [\<lparr>Migration_Id = ''1'',
          Migration_Up = [createSubnetTable (DriverName db)],
          Migration_Down = [''DROP TABLE subnets'']\<rparr>],
      dbh_db = db\<rparr>"

subsection \<open>Statement texts\<close>

abbreviation quoted32 :: string where
  "quoted32 \<equiv> CHR 0x27 # ''%/32'' @ [CHR 0x27]"

definition sql_all :: string where
  "sql_all = ''SELECT underlay_ip, overlay_subnet, overlay_hwaddr FROM subnets''"

definition sql_single :: string where
  "sql_single = sql_all @ '' WHERE overlay_subnet LIKE '' @ quoted32"

definition sql_block :: string where
  "sql_block = sql_all @ '' WHERE overlay_subnet NOT LIKE '' @ quoted32"

definition sql_active :: "string \<Rightarrow> int \<Rightarrow> string" where
  "sql_active timestamp duration =
     sql_all @ '' WHERE last_renewed_at + '' @ sprintf_d duration @ '' > '' @ timestamp"

definition sql_oldest_block :: "string \<Rightarrow> int \<Rightarrow> string" where
  "sql_oldest_block timestamp expirationTime =
     sql_all @ '' WHERE overlay_subnet NOT LIKE '' @ quoted32 @ '' AND last_renewed_at + '' @
       sprintf_d expirationTime @ '' <= '' @ timestamp @ '' ORDER BY last_renewed_at ASC LIMIT 1''"

definition sql_oldest_single :: "string \<Rightarrow> int \<Rightarrow> string" where
  "sql_oldest_single timestamp expirationTime =
     sql_all @ '' WHERE overlay_subnet LIKE '' @ quoted32 @ '' AND last_renewed_at + '' @
       sprintf_d expirationTime @ '' <= '' @ timestamp @ '' ORDER BY last_renewed_at ASC LIMIT 1''"

definition sql_insert :: "string \<Rightarrow> string" where
  "sql_insert timestamp =
     ''INSERT INTO subnets (underlay_ip, overlay_subnet, overlay_hwaddr, last_renewed_at) VALUES (?, ?, ?, '' @
       timestamp @ '')''"

definition sql_delete :: string where
  "sql_delete = ''DELETE FROM subnets WHERE underlay_ip = ?''"

definition sql_lease :: string where
  "sql_lease = ''SELECT overlay_subnet, overlay_hwaddr FROM subnets WHERE underlay_ip = ?''"

definition sql_renew :: "string \<Rightarrow> string" where
  "sql_renew timestamp = ''UPDATE subnets SET last_renewed_at = '' @ timestamp @ '' WHERE underlay_ip = ?''"

definition sql_last :: string where
  "sql_last = ''SELECT last_renewed_at FROM subnets WHERE underlay_ip = ?''"

subsection \<open>Methods\<close>

text \<open>\<^verbatim>\<open>CheckDatabase\<close> scans one integer.\<close>

definition CheckDatabase :: "'w DatabaseHandler \<Rightarrow> 'w \<Rightarrow> go_error option \<times> 'w" where
  "CheckDatabase d w =
     (case Db_QueryRow (dbh_db d) ''SELECT 1'' [] w of
        (Inl err, w) \<Rightarrow> (Some err, w)
      | (Inr vs, w) \<Rightarrow> (case Scan1_int vs of Inl err \<Rightarrow> (Some err, w) | Inr _ \<Rightarrow> (None, w)))"

fun rowsToLeases_loop :: "sqlval list list \<Rightarrow> Lease list \<Rightarrow> Lease list result" where
  "rowsToLeases_loop [] leases = Inr leases"
| "rowsToLeases_loop (vs # rows) leases =
     (case Scan3 vs of
        Inl err \<Rightarrow> Inl (ErrorString (''parsing result: '' @ Error err))
      | Inr (underlayIP, overlaySubnet, overlayHWAddr) \<Rightarrow>
          rowsToLeases_loop rows
            (leases @ [\<lparr>UnderlayIP = underlayIP, OverlaySubnet = overlaySubnet,
                        OverlayHardwareAddr = overlayHWAddr\<rparr>]))"

definition rowsToLeases :: "sql_Rows \<Rightarrow> Lease list result" where
  "rowsToLeases rows =
     (case rowsToLeases_loop (rows_next rows) [] of
        Inl err \<Rightarrow> Inl err
      | Inr leases \<Rightarrow>
          (case rows_Err rows of
             Some err \<Rightarrow> Inl (ErrorString (''getting next row: '' @ Error err))
           | None \<Rightarrow> Inr leases))"

text \<open>The four listing methods differ in their statement and in the text of their errors.\<close>

definition select_leases :: "string \<Rightarrow> string \<Rightarrow> 'w DatabaseHandler \<Rightarrow> 'w \<Rightarrow> Lease list result \<times> 'w" where
  "select_leases query what d w =
     (case Db_Query (dbh_db d) query [] w of
        (Inl err, w) \<Rightarrow> (Inl (ErrorString (what @ Error err)), w)
      | (Inr rows, w) \<Rightarrow>
          (case rowsToLeases rows of
             Inl err \<Rightarrow> (Inl (ErrorString (what @ Error err)), w)
           | Inr leases \<Rightarrow> (Inr leases, w)))"

definition All :: "'w DatabaseHandler \<Rightarrow> 'w \<Rightarrow> Lease list result \<times> 'w" where
  "All d w = select_leases sql_all ''selecting all subnets: '' d w"

definition AllSingleIPSubnets :: "'w DatabaseHandler \<Rightarrow> 'w \<Rightarrow> Lease list result \<times> 'w" where
  "AllSingleIPSubnets d w = select_leases sql_single ''selecting all single ip subnets: '' d w"

definition AllBlockSubnets :: "'w DatabaseHandler \<Rightarrow> 'w \<Rightarrow> Lease list result \<times> 'w" where
  "AllBlockSubnets d w = select_leases sql_block ''selecting all block subnets: '' d w"

definition AllActive :: "'w DatabaseHandler \<Rightarrow> int \<Rightarrow> 'w \<Rightarrow> Lease list result \<times> 'w" where
  "AllActive d duration w =
     (case timestampForDriver (DriverName (dbh_db d)) of
        Inl err \<Rightarrow> (Inl err, w)
      | Inr timestamp \<Rightarrow>
          select_leases (sql_active timestamp duration) ''selecting all active subnets: '' d w)"

text \<open>The two methods that return at most one expired lease: \<open>None\<close> is the pointer \<^verbatim>\<open>nil\<close>.\<close>

definition select_oldest :: "string \<Rightarrow> 'w DatabaseHandler \<Rightarrow> 'w \<Rightarrow> Lease option result \<times> 'w" where
  "select_oldest query d w =
     (case Db_QueryRow (dbh_db d) query [] w of (row, w) \<Rightarrow>
        (case (case row of Inl err \<Rightarrow> Inl err | Inr vs \<Rightarrow> Scan3 vs) of
           Inl err \<Rightarrow>
             (if err = ErrNoRows then (Inr None, w)
              else (Inl (ErrorString (''scan result: '' @ Error err)), w))
         | Inr (underlayIP, overlaySubnet, overlayHWAddr) \<Rightarrow>
             (Inr (Some \<lparr>UnderlayIP = underlayIP, OverlaySubnet = overlaySubnet,
                         OverlayHardwareAddr = overlayHWAddr\<rparr>), w)))"

definition OldestExpiredBlockSubnet :: "'w DatabaseHandler \<Rightarrow> int \<Rightarrow> 'w \<Rightarrow> Lease option result \<times> 'w" where
  "OldestExpiredBlockSubnet d expirationTime w =
     (case timestampForDriver (DriverName (dbh_db d)) of
        Inl err \<Rightarrow> (Inl err, w)
      | Inr timestamp \<Rightarrow> select_oldest (sql_oldest_block timestamp expirationTime) d w)"

definition OldestExpiredSingleIP :: "'w DatabaseHandler \<Rightarrow> int \<Rightarrow> 'w \<Rightarrow> Lease option result \<times> 'w" where
  "OldestExpiredSingleIP d expirationTime w =
     (case timestampForDriver (DriverName (dbh_db d)) of
        Inl err \<Rightarrow> (Inl err, w)
      | Inr timestamp \<Rightarrow> select_oldest (sql_oldest_single timestamp expirationTime) d w)"

definition Migrate :: "'w DatabaseHandler \<Rightarrow> 'w \<Rightarrow> int result \<times> 'w" where
  "Migrate d w =
     (case dbh_migrator d (dbh_db d) (DriverName (dbh_db d)) (dbh_migrations d) MigrateUp w of
        (Inl err, w) \<Rightarrow> (Inl (ErrorString (''migrating: '' @ Error err)), w)
      | (Inr numMigrations, w) \<Rightarrow> (Inr numMigrations, w))"

definition AddEntry :: "'w DatabaseHandler \<Rightarrow> Lease \<Rightarrow> 'w \<Rightarrow> go_error option \<times> 'w" where
  "AddEntry d lease w =
     (case timestampForDriver (DriverName (dbh_db d)) of
        Inl err \<Rightarrow> (Some err, w)
      | Inr timestamp \<Rightarrow>
          (case Db_Exec (dbh_db d) (Db_Rebind (dbh_db d) (sql_insert timestamp))
                  [SqlText (UnderlayIP lease), SqlText (OverlaySubnet lease), SqlText (OverlayHardwareAddr lease)] w of
             (Inl err, w) \<Rightarrow> (Some (ErrorString (''adding entry: '' @ Error err)), w)
           | (Inr _, w) \<Rightarrow> (None, w)))"

definition DeleteEntry :: "'w DatabaseHandler \<Rightarrow> string \<Rightarrow> 'w \<Rightarrow> go_error option \<times> 'w" where
  "DeleteEntry d underlayIP w =
     (case Db_Exec (dbh_db d) (Db_Rebind (dbh_db d) sql_delete) [SqlText underlayIP] w of
        (Inl err, w) \<Rightarrow> (Some (ErrorString (''deleting entry: '' @ Error err)), w)
      | (Inr deleteRows, w) \<Rightarrow>
          (case RowsAffected deleteRows of
             Inl err \<Rightarrow> (Some (ErrorString (''parse result: '' @ Error err)), w)
           | Inr rowsAffected \<Rightarrow>
               (if rowsAffected = 0 then (Some RecordNotAffectedError, w) else (None, w))))"

definition LeaseForUnderlayIP :: "'w DatabaseHandler \<Rightarrow> string \<Rightarrow> 'w \<Rightarrow> Lease option result \<times> 'w" where
  "LeaseForUnderlayIP d underlayIP w =
     (case Db_QueryRow (dbh_db d) (Db_Rebind (dbh_db d) sql_lease) [SqlText underlayIP] w of (row, w) \<Rightarrow>
        (case (case row of Inl err \<Rightarrow> Inl err | Inr vs \<Rightarrow> Scan2 vs) of
           Inl err \<Rightarrow> (if err = ErrNoRows then (Inr None, w) else (Inl err, w))
         | Inr (overlaySubnet, overlayHWAddr) \<Rightarrow>
             (Inr (Some \<lparr>UnderlayIP = underlayIP, OverlaySubnet = overlaySubnet,
                         OverlayHardwareAddr = overlayHWAddr\<rparr>), w)))"

definition RenewLeaseForUnderlayIP :: "'w DatabaseHandler \<Rightarrow> string \<Rightarrow> 'w \<Rightarrow> go_error option \<times> 'w" where
  "RenewLeaseForUnderlayIP d underlayIP w =
     (case timestampForDriver (DriverName (dbh_db d)) of
        Inl err \<Rightarrow> (Some err, w)
      | Inr timestamp \<Rightarrow>
          (case Db_Exec (dbh_db d) (Db_Rebind (dbh_db d) (sql_renew timestamp)) [SqlText underlayIP] w of
             (Inl err, w) \<Rightarrow> (Some (ErrorString (''renewing lease: '' @ Error err)), w)
           | (Inr _, w) \<Rightarrow> (None, w)))"

definition LastRenewedAtForUnderlayIP :: "'w DatabaseHandler \<Rightarrow> string \<Rightarrow> 'w \<Rightarrow> int result \<times> 'w" where
  "LastRenewedAtForUnderlayIP d underlayIP w =
     (case Db_QueryRow (dbh_db d) (Db_Rebind (dbh_db d) sql_last) [SqlText underlayIP] w of
        (Inl err, w) \<Rightarrow> (Inl err, w)
      | (Inr vs, w) \<Rightarrow> (Scan1_int vs, w))"

subsection \<open>Migrations at start-up\<close>

text \<open>
  \<^verbatim>\<open>TryMigrations\<close> with a budget of attempts; \<open>sleep\<close> is the effect of \<^verbatim>\<open>time.Sleep\<close> on the
  world.  The loop counter counts the failures.  With no attempt at all the error wrapped is
  \<^verbatim>\<open>nil\<close>, which Go renders as \<^verbatim>\<open>%!s(<nil>)\<close>.
\<close>

definition error_text :: "go_error option \<Rightarrow> string" where
  "error_text err = (case err of None \<Rightarrow> ''%!s(<nil>)'' | Some e \<Rightarrow> Error e)"

fun TryMigrations_loop ::
  "nat \<Rightarrow> ('w \<Rightarrow> int result \<times> 'w) \<Rightarrow> ('w \<Rightarrow> 'w) \<Rightarrow> go_error option \<Rightarrow> 'w \<Rightarrow> go_error option \<times> 'w" where
  "TryMigrations_loop 0 migrate sleep err w =
     (Some (ErrorString (''creating table: '' @ error_text err)), w)"
| "TryMigrations_loop (Suc k) migrate sleep err w =
     (case migrate w of
        (Inr n, w) \<Rightarrow> (None, w)
      | (Inl err, w) \<Rightarrow> TryMigrations_loop k migrate sleep (Some err) (sleep w))"

definition TryMigrations ::
  "int \<Rightarrow> ('w \<Rightarrow> int result \<times> 'w) \<Rightarrow> ('w \<Rightarrow> 'w) \<Rightarrow> 'w \<Rightarrow> go_error option \<times> 'w" where
  "TryMigrations maxMigrationAttempts migrate sleep w =
     TryMigrations_loop (nat maxMigrationAttempts) migrate sleep None w"

subsection \<open>The methods as the interface of the lease controller\<close>

definition as_databaseHandler :: "'w DatabaseHandler \<Rightarrow> 'w databaseHandler" where
  "as_databaseHandler d =
     \<lparr>dh_AddEntry = AddEntry d,
      dh_DeleteEntry = DeleteEntry d,
      dh_LeaseForUnderlayIP = LeaseForUnderlayIP d,
      dh_LastRenewedAtForUnderlayIP = LastRenewedAtForUnderlayIP d,
      dh_RenewLeaseForUnderlayIP = RenewLeaseForUnderlayIP d,
      dh_All = All d,
      dh_AllBlockSubnets = AllBlockSubnets d,
      dh_AllSingleIPSubnets = AllSingleIPSubnets d,
      dh_AllActive = AllActive d,
      dh_OldestExpiredBlockSubnet = OldestExpiredBlockSubnet d,
      dh_OldestExpiredSingleIP = OldestExpiredSingleIP d\<rparr>"

section \<open>What the SQL service promises\<close>

text \<open>
  The meaning of the statements above on the table \<open>subnets\<close> that \<^verbatim>\<open>createSubnetTable\<close> declares.
  Text columns compare byte by byte.
\<close>

definition row_cells :: "subnet_row \<Rightarrow> sqlval list" where
  "row_cells r = [SqlText (UnderlayIP (row_lease r)), SqlText (OverlaySubnet (row_lease r)),
                  SqlText (OverlayHardwareAddr (row_lease r))]"

definition selects :: "bool \<Rightarrow> sql_Rows result \<Rightarrow> subnet_row list \<Rightarrow> bool" where
  "selects healthy r rows \<longleftrightarrow>
     (case r of Inl _ \<Rightarrow> \<not> healthy
      | Inr rs \<Rightarrow> (if rows_Err rs = None then mset (rows_next rs) = mset (map row_cells rows) else \<not> healthy))"

definition selects_one ::
  "bool \<Rightarrow> sqlval list result \<Rightarrow> (subnet_row \<Rightarrow> sqlval list) \<Rightarrow> (subnet_row \<Rightarrow> bool) \<Rightarrow> subnet_row list \<Rightarrow> bool" where
  "selects_one healthy r cells P rows \<longleftrightarrow>
     (case r of Inl e \<Rightarrow> (if e = ErrNoRows then rows = [] else \<not> healthy)
      | Inr vs \<Rightarrow> list_ex (\<lambda>x. vs = cells x \<and> P x) rows)"

definition oldest_of :: "subnet_row list \<Rightarrow> subnet_row \<Rightarrow> bool" where
  "oldest_of rows x \<longleftrightarrow> list_all (\<lambda>y. last_renewed_at x \<le> last_renewed_at y) rows"

definition exec_inserts :: "bool \<Rightarrow> sql_Result result \<Rightarrow> Lease \<Rightarrow> int \<Rightarrow> subnet_row list \<Rightarrow> subnet_row list \<Rightarrow> bool" where
  "exec_inserts healthy r l now t t' \<longleftrightarrow>
     (if conflicts t l \<or> \<not> fits_columns l then (\<exists>e. r = Inl e) \<and> t' = t
      else case r of Inl _ \<Rightarrow> \<not> healthy \<and> (t' = t \<or> t' = insert_row l now t) | Inr _ \<Rightarrow> t' = insert_row l now t)"

definition exec_deletes :: "bool \<Rightarrow> sql_Result result \<Rightarrow> string \<Rightarrow> subnet_row list \<Rightarrow> subnet_row list \<Rightarrow> bool" where
  "exec_deletes healthy r u t t' \<longleftrightarrow>
     (case r of
        Inl _ \<Rightarrow> \<not> healthy \<and> (t' = t \<or> t' = delete_rows u t)
      | Inr res \<Rightarrow> t' = delete_rows u t \<and>
          (case RowsAffected res of Inl _ \<Rightarrow> \<not> healthy | Inr k \<Rightarrow> k = int (length (filter (row_for u) t))))"

definition exec_renews :: "bool \<Rightarrow> sql_Result result \<Rightarrow> string \<Rightarrow> int \<Rightarrow> subnet_row list \<Rightarrow> subnet_row list \<Rightarrow> bool" where
  "exec_renews healthy r u now t t' \<longleftrightarrow>
     (case r of Inl _ \<Rightarrow> \<not> healthy \<and> (t' = t \<or> t' = renew_rows u now t) | Inr _ \<Rightarrow> t' = renew_rows u now t)"

locale subnets_db =
  fixes db :: "'w Db"
    and timestamp :: string
    and tbl :: "'w \<Rightarrow> subnet_row list"
    and clock :: "'w \<Rightarrow> int"
    and up :: "'w \<Rightarrow> bool"
    and env :: "subnet_row list \<Rightarrow> subnet_row list \<Rightarrow> bool"
  assumes driver: "timestampForDriver (DriverName db) = Inr timestamp"
    and others_ok: "env t t' \<Longrightarrow> rows_ok t \<Longrightarrow> rows_ok t'"
    and insert: "Db_Exec db (Db_Rebind db (sql_insert timestamp))
        [SqlText (UnderlayIP l), SqlText (OverlaySubnet l), SqlText (OverlayHardwareAddr l)] w = (r, w') \<Longrightarrow>
      \<exists>t now. during tbl clock up env w t now w' \<and> exec_inserts (up w) r l now t (tbl w')"
    and delete: "Db_Exec db (Db_Rebind db sql_delete) [SqlText u] w = (r, w') \<Longrightarrow>
      \<exists>t now. during tbl clock up env w t now w' \<and> exec_deletes (up w) r u t (tbl w')"
    and renew: "Db_Exec db (Db_Rebind db (sql_renew timestamp)) [SqlText u] w = (r, w') \<Longrightarrow>
      \<exists>t now. during tbl clock up env w t now w' \<and> exec_renews (up w) r u now t (tbl w')"
    and select_lease: "Db_QueryRow db (Db_Rebind db sql_lease) [SqlText u] w = (row, w') \<Longrightarrow>
      \<exists>now. during tbl clock up env w (tbl w') now w'
        \<and> selects_one (up w) row (\<lambda>x. tl (row_cells x)) (\<lambda>_. True) (filter (row_for u) (tbl w'))"
    and select_last: "Db_QueryRow db (Db_Rebind db sql_last) [SqlText u] w = (row, w') \<Longrightarrow>
      \<exists>now. during tbl clock up env w (tbl w') now w'
        \<and> selects_one (up w) row (\<lambda>x. [SqlInt (last_renewed_at x)]) (\<lambda>_. True) (filter (row_for u) (tbl w'))"
    and select_all: "Db_Query db sql_all [] w = (rs, w') \<Longrightarrow>
      \<exists>now. during tbl clock up env w (tbl w') now w' \<and> selects (up w) rs (tbl w')"
    and select_single: "Db_Query db sql_single [] w = (rs, w') \<Longrightarrow>
      \<exists>now. during tbl clock up env w (tbl w') now w' \<and> selects (up w) rs (filter row_single (tbl w'))"
    and select_block: "Db_Query db sql_block [] w = (rs, w') \<Longrightarrow>
      \<exists>now. during tbl clock up env w (tbl w') now w' \<and> selects (up w) rs (filter (\<lambda>x. \<not> row_single x) (tbl w'))"
    and select_active: "Db_Query db (sql_active timestamp d) [] w = (rs, w') \<Longrightarrow>
      \<exists>now. during tbl clock up env w (tbl w') now w'
        \<and> selects (up w) rs (filter (\<lambda>x. now < last_renewed_at x + d) (tbl w'))"
    and select_oldest_block: "Db_QueryRow db (sql_oldest_block timestamp d) [] w = (row, w') \<Longrightarrow>
      \<exists>now. during tbl clock up env w (tbl w') now w' \<and>
        (let rows = filter (\<lambda>x. \<not> row_single x \<and> last_renewed_at x + d \<le> now) (tbl w')
         in selects_one (up w) row row_cells (oldest_of rows) rows)"
    and select_oldest_single: "Db_QueryRow db (sql_oldest_single timestamp d) [] w = (row, w') \<Longrightarrow>
      \<exists>now. during tbl clock up env w (tbl w') now w' \<and>
        (let rows = filter (\<lambda>x. row_single x \<and> last_renewed_at x + d \<le> now) (tbl w')
         in selects_one (up w) row row_cells (oldest_of rows) rows)"

section \<open>What the handler makes of it\<close>

lemma Scan3_row_cells [simp]:
  "Scan3 (row_cells r) = Inr (UnderlayIP (row_lease r), OverlaySubnet (row_lease r), OverlayHardwareAddr (row_lease r))"
  by (simp add: Scan3_def row_cells_def)

lemma Scan2_row_cells [simp]:
  "Scan2 (tl (row_cells r)) = Inr (OverlaySubnet (row_lease r), OverlayHardwareAddr (row_lease r))"
  by (simp add: Scan2_def row_cells_def)

lemma row_cells_inj: "row_cells r = row_cells r' \<longleftrightarrow> row_lease r = row_lease r'"
  by (simp add: row_cells_def Lease_eq_iff)

lemma rowsToLeases_loop_cells:
  assumes "set cells \<subseteq> row_cells ` A"
  shows "\<exists>ls. rowsToLeases_loop cells acc = Inr (acc @ ls)
           \<and> map (\<lambda>l. row_cells \<lparr>row_lease = l, last_renewed_at = 0\<rparr>) ls = cells"
  using assms
proof (induction cells arbitrary: acc)
  case (Cons vs cells)
  then obtain x where vs: "vs = row_cells x" by auto
  from Cons.prems have "set cells \<subseteq> row_cells ` A" by simp
  from Cons.IH [OF this] obtain ls where
    "rowsToLeases_loop cells (acc @ [row_lease x]) = Inr ((acc @ [row_lease x]) @ ls)"
    "map (\<lambda>l. row_cells \<lparr>row_lease = l, last_renewed_at = 0\<rparr>) ls = cells" by blast
  then show ?case by (intro exI [of _ "row_lease x # ls"]) (simp add: vs row_cells_inj Lease_eta)
qed simp

text \<open>A listing decodes to the leases of the selected rows.\<close>

lemma rowsToLeases_lists:
  assumes "rows_Err rs = None" and "mset (rows_next rs) = mset (map row_cells rows)"
  shows "\<exists>ls. rowsToLeases rs = Inr ls \<and> mset ls = mset (map row_lease rows)"
proof -
  let ?cells = "\<lambda>l. row_cells \<lparr>row_lease = l, last_renewed_at = 0\<rparr>"
  from assms(2) have "set (rows_next rs) = set (map row_cells rows)" by (rule mset_eq_setD)
  then have "set (rows_next rs) \<subseteq> row_cells ` set rows" by simp
  from rowsToLeases_loop_cells [OF this, of "[]"] obtain ls where
    ls: "rowsToLeases_loop (rows_next rs) [] = Inr ls" "map ?cells ls = rows_next rs" by auto
  have "map ?cells (map row_lease rows) = map row_cells rows" by (simp add: row_cells_def)
  then have "mset (map ?cells ls) = mset (map ?cells (map row_lease rows))"
    by (simp only: ls(2) assms(2))
  then have "image_mset ?cells (mset ls) = image_mset ?cells (mset (map row_lease rows))"
    by (simp only: mset_map)
  moreover have "inj ?cells" by (rule injI) (simp add: row_cells_inj)
  ultimately have "mset ls = mset (map row_lease rows)"
    by (metis multiset.inj_map injD)
  then show ?thesis using ls(1) assms(1) by (simp add: rowsToLeases_def)
qed

text \<open>A listing decodes to the leases of the selected rows.\<close>

lemma select_leases_lists:
  assumes "select_leases q what d w = (rs, w')"
  obtains r where "Db_Query (dbh_db d) q [] w = (r, w')"
    and "\<And>healthy rows. selects healthy r rows \<Longrightarrow> lists_rows healthy rs rows"
proof -
  obtain r v where q: "Db_Query (dbh_db d) q [] w = (r, v)" by fastforce
  with assms have v: "v = w'" by (auto simp: select_leases_def split: sum.splits)
  have "lists_rows healthy rs rows" if sel: "selects healthy r rows" for healthy rows
  proof (cases r)
    case (Inl e)
    then show ?thesis using assms q sel by (auto simp: select_leases_def selects_def lists_rows_def)
  next
    case (Inr ans)
    show ?thesis
    proof (cases "rows_Err ans")
      case None
      with sel Inr have "mset (rows_next ans) = mset (map row_cells rows)" by (simp add: selects_def)
      from rowsToLeases_lists [OF None this] obtain ls where
        "rowsToLeases ans = Inr ls" "mset ls = mset (map row_lease rows)" by blast
      moreover from this have "rs = Inr ls" using assms q Inr by (simp add: select_leases_def)
      ultimately show ?thesis by (simp add: lists_rows_def)
    next
      case (Some e)
      then have "\<not> healthy" using sel Inr by (simp add: selects_def)
      moreover have "\<exists>e'. rowsToLeases ans = Inl e'"
        using Some by (auto simp: rowsToLeases_def split: sum.splits)
      ultimately show ?thesis
        using assms q Inr by (auto simp: select_leases_def lists_rows_def)
    qed
  qed
  with q v show thesis by (intro that) auto
qed

lemma select_oldest_finds:
  assumes "select_oldest q d w = (o', w')"
  obtains r where "Db_QueryRow (dbh_db d) q [] w = (r, w')"
    and "\<And>healthy rows. selects_one healthy r row_cells (oldest_of rows) rows \<Longrightarrow> finds_oldest healthy o' rows"
proof -
  obtain r v where q: "Db_QueryRow (dbh_db d) q [] w = (r, v)" by fastforce
  with assms have v: "v = w'" by (auto simp: select_oldest_def split: sum.splits if_splits)
  have "finds_oldest healthy o' rows" if "selects_one healthy r row_cells (oldest_of rows) rows" for healthy rows
  proof (cases r)
    case (Inl e)
    then show ?thesis using that assms q
      by (auto simp: select_oldest_def selects_one_def finds_oldest_def split: if_splits)
  next
    case (Inr vs)
    with that obtain x where x: "x \<in> set rows" "vs = row_cells x" "oldest_of rows x"
      by (auto simp: selects_one_def list_ex_iff)
    with Inr assms q have "o' = Inr (Some (row_lease x))" by (simp add: select_oldest_def)
    with x show ?thesis by (auto simp: finds_oldest_def oldest_of_def list_all_iff intro!: bexI [of _ x])
  qed
  with q v show thesis by (intro that) auto
qed

lemma LeaseForUnderlayIP_finds:
  assumes "LeaseForUnderlayIP d u w = (o', w')"
  obtains r where "Db_QueryRow (dbh_db d) (Db_Rebind (dbh_db d) sql_lease) [SqlText u] w = (r, w')"
    and "\<And>healthy rows. selects_one healthy r (\<lambda>x. tl (row_cells x)) (\<lambda>_. True) (filter (row_for u) rows) \<Longrightarrow>
           finds_row healthy o' (filter (row_for u) rows)"
proof -
  obtain r v where q: "Db_QueryRow (dbh_db d) (Db_Rebind (dbh_db d) sql_lease) [SqlText u] w = (r, v)" by fastforce
  with assms have v: "v = w'" by (auto simp: LeaseForUnderlayIP_def split: sum.splits if_splits)
  have "finds_row healthy o' (filter (row_for u) rows)"
    if "selects_one healthy r (\<lambda>x. tl (row_cells x)) (\<lambda>_. True) (filter (row_for u) rows)" for healthy rows
  proof (cases r)
    case (Inl e)
    then show ?thesis using that assms q
      by (auto simp: LeaseForUnderlayIP_def selects_one_def finds_row_def split: if_splits)
  next
    case (Inr vs)
    with that obtain x where x: "x \<in> set rows" "row_for u x" "vs = tl (row_cells x)"
      by (auto simp: selects_one_def list_ex_iff)
    with Inr assms q have "o' = Inr (Some (row_lease x))" by (auto simp: LeaseForUnderlayIP_def)
    with x show ?thesis by (auto simp: finds_row_def intro!: bexI [of _ x])
  qed
  with q v show thesis by (intro that) auto
qed

lemma LastRenewedAt_finds:
  assumes "LastRenewedAtForUnderlayIP d u w = (i, w')"
  obtains r where "Db_QueryRow (dbh_db d) (Db_Rebind (dbh_db d) sql_last) [SqlText u] w = (r, w')"
    and "\<And>healthy rows. selects_one healthy r (\<lambda>x. [SqlInt (last_renewed_at x)]) (\<lambda>_. True) rows \<Longrightarrow>
           finds_time healthy i rows"
proof -
  obtain r v where q: "Db_QueryRow (dbh_db d) (Db_Rebind (dbh_db d) sql_last) [SqlText u] w = (r, v)" by fastforce
  with assms have v: "v = w'" by (auto simp: LastRenewedAtForUnderlayIP_def split: sum.splits)
  have "finds_time healthy i rows"
    if "selects_one healthy r (\<lambda>x. [SqlInt (last_renewed_at x)]) (\<lambda>_. True) rows" for healthy rows
    using that assms q
    by (cases r) (auto simp: LastRenewedAtForUnderlayIP_def selects_one_def finds_time_def list_ex_iff Scan1_int_def
                       split: if_splits)
  with q v show thesis by (intro that) auto
qed

text \<open>The three changes: the error that is returned tells what happened to the table.\<close>

lemma AddEntry_exec:
  assumes "timestampForDriver (DriverName (dbh_db d)) = Inr ts" and "AddEntry d l w = (e, w')"
  obtains r where "Db_Exec (dbh_db d) (Db_Rebind (dbh_db d) (sql_insert ts))
      [SqlText (UnderlayIP l), SqlText (OverlaySubnet l), SqlText (OverlayHardwareAddr l)] w = (r, w')"
    and "\<And>healthy now t t'. exec_inserts healthy r l now t t' \<Longrightarrow> adds_row healthy e l now t t'"
proof -
  obtain r v where q: "Db_Exec (dbh_db d) (Db_Rebind (dbh_db d) (sql_insert ts))
      [SqlText (UnderlayIP l), SqlText (OverlaySubnet l), SqlText (OverlayHardwareAddr l)] w = (r, v)" by fastforce
  with assms have v: "v = w'" by (auto simp: AddEntry_def split: sum.splits)
  have "adds_row healthy e l now t t'" if "exec_inserts healthy r l now t t'" for healthy now t t'
    using that assms q
    by (cases r) (auto simp: AddEntry_def exec_inserts_def adds_row_def split: if_splits)
  with q v show thesis by (intro that) auto
qed

lemma DeleteEntry_exec:
  assumes "DeleteEntry d u w = (e, w')"
  obtains r where "Db_Exec (dbh_db d) (Db_Rebind (dbh_db d) sql_delete) [SqlText u] w = (r, w')"
    and "\<And>healthy t t'. exec_deletes healthy r u t t' \<Longrightarrow> deletes_rows healthy e u t t'"
proof -
  obtain r v where q: "Db_Exec (dbh_db d) (Db_Rebind (dbh_db d) sql_delete) [SqlText u] w = (r, v)" by fastforce
  with assms have v: "v = w'" by (auto simp: DeleteEntry_def split: sum.splits if_splits)
  have "deletes_rows healthy e u t t'" if "exec_deletes healthy r u t t'" for healthy t t'
    using that assms q
    by (auto simp: DeleteEntry_def exec_deletes_def deletes_rows_def list_ex_iff filter_empty_conv
             split: sum.splits if_splits intro: delete_rows_absent)
  with q v show thesis by (intro that) auto
qed

lemma RenewLease_exec:
  assumes "timestampForDriver (DriverName (dbh_db d)) = Inr ts" and "RenewLeaseForUnderlayIP d u w = (e, w')"
  obtains r where "Db_Exec (dbh_db d) (Db_Rebind (dbh_db d) (sql_renew ts)) [SqlText u] w = (r, w')"
    and "\<And>healthy now t t'. exec_renews healthy r u now t t' \<Longrightarrow> renews_rows healthy e u now t t'"
proof -
  obtain r v where q: "Db_Exec (dbh_db d) (Db_Rebind (dbh_db d) (sql_renew ts)) [SqlText u] w = (r, v)" by fastforce
  with assms have v: "v = w'" by (auto simp: RenewLeaseForUnderlayIP_def split: sum.splits)
  have "renews_rows healthy e u now t t'" if "exec_renews healthy r u now t t'" for healthy now t t'
    using that assms q
    by (cases r) (auto simp: RenewLeaseForUnderlayIP_def exec_renews_def renews_rows_def split: if_splits)
  with q v show thesis by (intro that) auto
qed

lemma not_expired: "(\<lambda>x. \<not> expired d now x) = (\<lambda>x. now < last_renewed_at x + d)"
  by (auto simp: expired_def)

lemma handler_lease_store:
  assumes "subnets_db db ts tbl clock up env"
  shows "lease_store (as_databaseHandler (NewDatabaseHandler migrator db)) tbl clock up env"
proof -
  let ?d = "NewDatabaseHandler migrator db"
  have d [simp]: "dbh_db ?d = db" by (simp add: NewDatabaseHandler_def)
  note db = subnets_db.driver [OF assms]
  show ?thesis
  proof (unfold_locales, goal_cases)
    case 1 then show ?case by (rule subnets_db.others_ok [OF assms])
  next
    case (2 l w e w')
    then have q: "AddEntry ?d l w = (e, w')" by (simp add: as_databaseHandler_def)
    show ?case
      by (rule AddEntry_exec [OF _ q, of ts, unfolded d, OF db])
         (blast dest: subnets_db.insert [OF assms])
  next
    case (3 u w e w')
    then have q: "DeleteEntry ?d u w = (e, w')" by (simp add: as_databaseHandler_def)
    show ?case
      by (rule DeleteEntry_exec [OF q, unfolded d])
         (blast dest: subnets_db.delete [OF assms])
  next
    case (4 u w e w')
    then have q: "RenewLeaseForUnderlayIP ?d u w = (e, w')" by (simp add: as_databaseHandler_def)
    show ?case
      by (rule RenewLease_exec [OF _ q, of ts, unfolded d, OF db])
         (blast dest: subnets_db.renew [OF assms])
  next
    case (5 u w r w')
    then have q: "LeaseForUnderlayIP ?d u w = (r, w')" by (simp add: as_databaseHandler_def)
    show ?case
      by (rule LeaseForUnderlayIP_finds [OF q, unfolded d])
         (blast dest: subnets_db.select_lease [OF assms])
  next
    case (6 u w i w')
    then have q: "LastRenewedAtForUnderlayIP ?d u w = (i, w')" by (simp add: as_databaseHandler_def)
    show ?case
      by (rule LastRenewedAt_finds [OF q, unfolded d])
         (blast dest: subnets_db.select_last [OF assms])
  next
    case (7 w rs w')
    then have q: "select_leases sql_all ''selecting all subnets: '' ?d w = (rs, w')"
      by (simp add: as_databaseHandler_def All_def)
    show ?case
      by (rule select_leases_lists [OF q, unfolded d])
         (blast dest: subnets_db.select_all [OF assms])
  next
    case (8 w rs w')
    then have q: "select_leases sql_block ''selecting all block subnets: '' ?d w = (rs, w')"
      by (simp add: as_databaseHandler_def AllBlockSubnets_def)
    show ?case
      by (rule select_leases_lists [OF q, unfolded d])
         (blast dest: subnets_db.select_block [OF assms])
  next
    case (9 w rs w')
    then have q: "select_leases sql_single ''selecting all single ip subnets: '' ?d w = (rs, w')"
      by (simp add: as_databaseHandler_def AllSingleIPSubnets_def)
    show ?case
      by (rule select_leases_lists [OF q, unfolded d])
         (blast dest: subnets_db.select_single [OF assms])
  next
    case (10 dur w rs w')
    then have q: "select_leases (sql_active ts dur) ''selecting all active subnets: '' ?d w = (rs, w')"
      by (simp add: as_databaseHandler_def AllActive_def db)
    show ?case
      unfolding not_expired
      by (rule select_leases_lists [OF q, unfolded d])
         (blast dest: subnets_db.select_active [OF assms])
  next
    case (11 dur w r w')
    then have q: "select_oldest (sql_oldest_block ts dur) ?d w = (r, w')"
      by (simp add: as_databaseHandler_def OldestExpiredBlockSubnet_def db)
    show ?case
      unfolding expired_def
      by (rule select_oldest_finds [OF q, unfolded d])
         (blast dest: subnets_db.select_oldest_block [OF assms, unfolded Let_def])
  next
    case (12 dur w r w')
    then have q: "select_oldest (sql_oldest_single ts dur) ?d w = (r, w')"
      by (simp add: as_databaseHandler_def OldestExpiredSingleIP_def db)
    show ?case
      unfolding expired_def
      by (rule select_oldest_finds [OF q, unfolded d])
         (blast dest: subnets_db.select_oldest_single [OF assms, unfolded Let_def])
  qed
qed

sublocale subnets_db \<subseteq> lease_store "as_databaseHandler (NewDatabaseHandler migrator db)" tbl clock up env
  for migrator
  by (rule handler_lease_store) (rule subnets_db_axioms)

end
