(* ===== verification/Reference_Db.thy ===== *)
theory Reference_Db
  imports Database_Handler
begin

text \<open>
  An executable SQL service for the table \<open>subnets\<close>: it recognises the statement texts of the
  database handler and executes them on a list of rows, with a clock that advances with every
  statement and a schedule of connection failures (before or after the statement took
  effect).  It satisfies the contract \<open>subnets_db\<close>, so the contract is satisfiable and the
  theorems that rest on it can be evaluated.  A second service runs statements of other
  controllers between those of the handler.
\<close>

section \<open>The service\<close>

datatype fault = NoFault | FailBefore | FailAfter

record ref_world =
  rw_rows :: "subnet_row list"
  rw_now :: int
  rw_faults :: "fault list"

definition connection_lost :: go_error where
  "connection_lost = ErrorString ''driver: bad connection''"

definition syntax_error :: go_error where
  "syntax_error = ErrorString ''syntax error''"

definition next_fault :: "ref_world \<Rightarrow> fault" where
  "next_fault w = (case rw_faults w of [] \<Rightarrow> NoFault | f # _ \<Rightarrow> f)"

definition after :: "ref_world \<Rightarrow> ref_world" where
  "after w = w\<lparr>rw_now := rw_now w + 1, rw_faults := drop 1 (rw_faults w)\<rparr>"

definition healthy :: "ref_world \<Rightarrow> bool" where
  "healthy w \<longleftrightarrow> list_all (\<lambda>f. f = NoFault) (rw_faults w)"

text \<open>A statement that changes rows, and one that reads them.\<close>

definition run_exec :: "(subnet_row list \<Rightarrow> (sql_Result \<times> subnet_row list) result) \<Rightarrow> ref_world \<Rightarrow> sql_Result result \<times> ref_world" where
  "run_exec effect w =
     (if next_fault w = FailBefore then (Inl connection_lost, after w)
      else case effect (rw_rows w) of
        Inl e \<Rightarrow> (Inl e, after w)
      | Inr (res, rows) \<Rightarrow>
          (if next_fault w = FailAfter then Inl connection_lost else Inr res, (after w)\<lparr>rw_rows := rows\<rparr>))"

definition run_read :: "(subnet_row list \<Rightarrow> 'a result) \<Rightarrow> ref_world \<Rightarrow> 'a result \<times> ref_world" where
  "run_read f w = (if next_fault w = NoFault then f (rw_rows w) else Inl connection_lost, after w)"

text \<open>The integer between two fixed parts of a statement.\<close>

definition int_between :: "string \<Rightarrow> string \<Rightarrow> string \<Rightarrow> int option" where
  "int_between a b q =
     (if take (length a) q = a then
        let r = drop (length a) q;
            num = (\<lambda>c. is_digit c \<or> c = CHR ''-'')
        in if dropWhile num r = b then
             (case scan_int (SqlText (takeWhile num r)) of Inl _ \<Rightarrow> None | Inr i \<Rightarrow> Some i)
           else None
      else None)"

definition ref_Exec :: "string \<Rightarrow> sqlval list \<Rightarrow> ref_world \<Rightarrow> sql_Result result \<times> ref_world" where
  "ref_Exec q args w =
     (case args of
        [SqlText u, SqlText s, SqlText h] \<Rightarrow>
          if q = sql_insert mysqlTimeNow then
            run_exec (\<lambda>rows.
              let l = \<lparr>UnderlayIP = u, OverlaySubnet = s, OverlayHardwareAddr = h\<rparr> in
              if conflicts rows l then Inl (ErrorString ''Duplicate entry'')
              else if \<not> fits_columns l then Inl (ErrorString ''Data too long for column'')
              else Inr (\<lparr>RowsAffected = Inr 1\<rparr>, insert_row l (rw_now w) rows)) w
          else (Inl syntax_error, after w)
      | [SqlText u] \<Rightarrow>
          if q = sql_delete then
            run_exec (\<lambda>rows. Inr (\<lparr>RowsAffected = Inr (int (length (filter (row_for u) rows)))\<rparr>, delete_rows u rows)) w
          else if q = sql_renew mysqlTimeNow then
            run_exec (\<lambda>rows. Inr (\<lparr>RowsAffected = Inr (int (length (filter (row_for u) rows)))\<rparr>, renew_rows u (rw_now w) rows)) w
          else (Inl syntax_error, after w)
      | _ \<Rightarrow> (Inl syntax_error, after w))"

definition rows_answer :: "subnet_row list \<Rightarrow> sql_Rows result" where
  "rows_answer rows = Inr \<lparr>rows_next = map row_cells rows, rows_Err = None\<rparr>"

definition ref_Query :: "string \<Rightarrow> sqlval list \<Rightarrow> ref_world \<Rightarrow> sql_Rows result \<times> ref_world" where
  "ref_Query q args w =
     (if q = sql_all then run_read rows_answer w
      else if q = sql_single then run_read (\<lambda>rows. rows_answer (filter row_single rows)) w
      else if q = sql_block then run_read (\<lambda>rows. rows_answer (filter (\<lambda>x. \<not> row_single x) rows)) w
      else case int_between (sql_all @ '' WHERE last_renewed_at + '') ('' > '' @ mysqlTimeNow) q of
        Some d \<Rightarrow> run_read (\<lambda>rows. rows_answer (filter (\<lambda>x. rw_now w < last_renewed_at x + d) rows)) w
      | None \<Rightarrow> (Inl syntax_error, after w))"

fun oldest_row :: "subnet_row list \<Rightarrow> subnet_row option" where
  "oldest_row [] = None"
| "oldest_row (x # xs) =
     (case oldest_row xs of
        None \<Rightarrow> Some x
      | Some y \<Rightarrow> if last_renewed_at x \<le> last_renewed_at y then Some x else Some y)"

definition row_answer :: "(subnet_row \<Rightarrow> sqlval list) \<Rightarrow> subnet_row list \<Rightarrow> sqlval list result" where
  "row_answer cells rows = (case rows of [] \<Rightarrow> Inl ErrNoRows | x # _ \<Rightarrow> Inr (cells x))"

definition oldest_answer :: "subnet_row list \<Rightarrow> sqlval list result" where
  "oldest_answer rows = (case oldest_row rows of None \<Rightarrow> Inl ErrNoRows | Some x \<Rightarrow> Inr (row_cells x))"

definition oldest_tail :: string where
  "oldest_tail = '' <= '' @ mysqlTimeNow @ '' ORDER BY last_renewed_at ASC LIMIT 1''"

definition ref_QueryRow :: "string \<Rightarrow> sqlval list \<Rightarrow> ref_world \<Rightarrow> sqlval list result \<times> ref_world" where
  "ref_QueryRow q args w =
     (case args of
        [SqlText u] \<Rightarrow>
          if q = sql_lease then run_read (\<lambda>rows. row_answer (\<lambda>x. tl (row_cells x)) (filter (row_for u) rows)) w
          else if q = sql_last then
            run_read (\<lambda>rows. row_answer (\<lambda>x. [SqlInt (last_renewed_at x)]) (filter (row_for u) rows)) w
          else (Inl syntax_error, after w)
      | [] \<Rightarrow>
          if q = ''SELECT 1'' then run_read (\<lambda>rows. Inr [SqlInt 1]) w
          else (case int_between (sql_block @ '' AND last_renewed_at + '') oldest_tail q of
            Some d \<Rightarrow> run_read (\<lambda>rows. oldest_answer (filter (\<lambda>x. \<not> row_single x \<and> last_renewed_at x + d \<le> rw_now w) rows)) w
          | None \<Rightarrow>
              (case int_between (sql_single @ '' AND last_renewed_at + '') oldest_tail q of
                Some d \<Rightarrow> run_read (\<lambda>rows. oldest_answer (filter (\<lambda>x. row_single x \<and> last_renewed_at x + d \<le> rw_now w) rows)) w
              | None \<Rightarrow> (Inl syntax_error, after w)))
      | _ \<Rightarrow> (Inl syntax_error, after w))"

definition ref_db :: "ref_world Db" where
  "ref_db = \<lparr>Db_Exec = ref_Exec, Db_Rebind = (\<lambda>q. q), Db_Query = ref_Query, Db_QueryRow = ref_QueryRow,
             DriverName = ''mysql''\<rparr>"

section \<open>A table that other controllers use\<close>

text \<open>
  The world of the shared service carries, for each statement to come, the statements that other
  controllers get in before it.
\<close>

datatype foreign = F_Insert Lease | F_Delete string | F_Renew string

fun foreign_step :: "int \<Rightarrow> foreign \<Rightarrow> subnet_row list \<Rightarrow> subnet_row list" where
  "foreign_step now (F_Insert l) rows = (if conflicts rows l \<or> \<not> fits_columns l then rows else insert_row l now rows)"
| "foreign_step now (F_Delete u) rows = delete_rows u rows"
| "foreign_step now (F_Renew u) rows = renew_rows u now rows"

definition foreign_run :: "(int \<times> foreign) list \<Rightarrow> subnet_row list \<Rightarrow> subnet_row list" where
  "foreign_run fs rows = fold (\<lambda>(now, f). foreign_step now f) fs rows"

definition foreign_moves :: "subnet_row list \<Rightarrow> subnet_row list \<Rightarrow> bool" where
  "foreign_moves t t' \<longleftrightarrow> (\<exists>fs. t' = foreign_run fs t)"

type_synonym shared_world = "ref_world \<times> foreign list list"

definition let_others :: "shared_world \<Rightarrow> ref_world" where
  "let_others v = (case v of (w, script) \<Rightarrow>
     w\<lparr>rw_rows := foreign_run (map (Pair (rw_now w)) (concat (take 1 script))) (rw_rows w)\<rparr>)"

definition shared_op :: "(ref_world \<Rightarrow> 'a \<times> ref_world) \<Rightarrow> shared_world \<Rightarrow> 'a \<times> shared_world" where
  "shared_op f v = (case f (let_others v) of (r, w) \<Rightarrow> (r, (w, drop 1 (snd v))))"

definition shared_db :: "shared_world Db" where
  "shared_db = \<lparr>Db_Exec = (\<lambda>q args. shared_op (ref_Exec q args)), Db_Rebind = (\<lambda>q. q),
     Db_Query = (\<lambda>q args. shared_op (ref_Query q args)), Db_QueryRow = (\<lambda>q args. shared_op (ref_QueryRow q args)),
     DriverName = ''mysql''\<rparr>"

abbreviation shared_rows :: "shared_world \<Rightarrow> subnet_row list" where
  "shared_rows v \<equiv> rw_rows (fst v)"

abbreviation shared_now :: "shared_world \<Rightarrow> int" where
  "shared_now v \<equiv> rw_now (fst v)"

abbreviation shared_healthy :: "shared_world \<Rightarrow> bool" where
  "shared_healthy v \<equiv> healthy (fst v)"

section \<open>Statements are recognised\<close>

lemma scan_int_sprintf_d [simp]: "scan_int (SqlText (sprintf_d i)) = Inr i"
proof (cases "i < 0")
  case True
  then show ?thesis by (simp add: sprintf_d_def list_all_iff itoa_digits digits_val_itoa)
next
  case False
  obtain x xs where t: "itoa (nat i) = x # xs" using itoa_not_Nil by (cases "itoa (nat i)") auto
  then have "is_digit x" using itoa_digits [of x "nat i"] by simp
  then have "x \<noteq> CHR ''-''" using not_digit(4) by auto
  then have "take 1 (itoa (nat i)) \<noteq> ''-''" by (simp add: t)
  then show ?thesis using False
    by (simp add: sprintf_d_def list_all_iff itoa_digits digits_val_itoa)
qed

lemma sprintf_d_chars: "c \<in> set (sprintf_d i) \<Longrightarrow> is_digit c \<or> c = CHR ''-''"
  by (auto simp: sprintf_d_def dest: itoa_digits split: if_splits)

lemma int_between_int:
  assumes "b \<noteq> []" "\<not> is_digit (hd b)" "hd b \<noteq> CHR ''-''"
  shows "int_between a b (a @ sprintf_d i @ b) = Some i"
proof -
  let ?num = "\<lambda>c. is_digit c \<or> c = CHR ''-''"
  have "takeWhile ?num (sprintf_d i @ b) = sprintf_d i" "dropWhile ?num (sprintf_d i @ b) = b"
    using assms by (cases b; auto simp: takeWhile_append dropWhile_append dest: sprintf_d_chars)+
  then show ?thesis by (simp add: int_between_def del: scan_int.simps)
qed

lemma int_between_other: "take (length a) q \<noteq> a \<Longrightarrow> int_between a b q = None"
  by (simp add: int_between_def)

lemma recognised_active:
  "int_between (sql_all @ '' WHERE last_renewed_at + '') ('' > '' @ mysqlTimeNow) (sql_active mysqlTimeNow d) = Some d"
  "sql_active mysqlTimeNow d \<noteq> sql_all" "sql_active mysqlTimeNow d \<noteq> sql_single" "sql_active mysqlTimeNow d \<noteq> sql_block"
proof -
  have "sql_active mysqlTimeNow d = (sql_all @ '' WHERE last_renewed_at + '') @ sprintf_d d @ '' > '' @ mysqlTimeNow"
    by (simp add: sql_active_def)
  then show "int_between (sql_all @ '' WHERE last_renewed_at + '') ('' > '' @ mysqlTimeNow) (sql_active mysqlTimeNow d) = Some d"
    by (simp only:) (rule int_between_int; simp add: not_digit oldest_tail_def)
qed (simp_all add: sql_active_def sql_single_def sql_block_def)

lemma recognised_oldest_block:
  "int_between (sql_block @ '' AND last_renewed_at + '') oldest_tail (sql_oldest_block mysqlTimeNow d) = Some d"
  "sql_oldest_block mysqlTimeNow d \<noteq> ''SELECT 1''"
proof -
  have "sql_oldest_block mysqlTimeNow d = (sql_block @ '' AND last_renewed_at + '') @ sprintf_d d @ oldest_tail"
    by (simp add: sql_oldest_block_def sql_block_def oldest_tail_def)
  then show "int_between (sql_block @ '' AND last_renewed_at + '') oldest_tail (sql_oldest_block mysqlTimeNow d) = Some d"
    by (simp only:) (rule int_between_int; simp add: not_digit oldest_tail_def)
qed (simp add: sql_oldest_block_def sql_all_def)

lemma recognised_oldest_single:
  "int_between (sql_block @ '' AND last_renewed_at + '') oldest_tail (sql_oldest_single mysqlTimeNow d) = None"
  "int_between (sql_single @ '' AND last_renewed_at + '') oldest_tail (sql_oldest_single mysqlTimeNow d) = Some d"
  "sql_oldest_single mysqlTimeNow d \<noteq> ''SELECT 1''"
proof -
  show "int_between (sql_block @ '' AND last_renewed_at + '') oldest_tail (sql_oldest_single mysqlTimeNow d) = None"
    by (rule int_between_other) (simp add: sql_oldest_single_def sql_block_def sql_all_def)
  have "sql_oldest_single mysqlTimeNow d = (sql_single @ '' AND last_renewed_at + '') @ sprintf_d d @ oldest_tail"
    by (simp add: sql_oldest_single_def sql_single_def oldest_tail_def)
  then show "int_between (sql_single @ '' AND last_renewed_at + '') oldest_tail (sql_oldest_single mysqlTimeNow d) = Some d"
    by (simp only:) (rule int_between_int; simp add: not_digit oldest_tail_def)
qed (simp add: sql_oldest_single_def sql_all_def)

section \<open>The contract holds\<close>

lemma after_simps [simp]:
  "rw_rows (after w) = rw_rows w" "rw_now (after w) = rw_now w + 1" "healthy w \<Longrightarrow> healthy (after w)"
  by (auto simp: after_def healthy_def list_all_iff dest: in_set_dropD)

lemma healthy_rows [simp]: "healthy (w\<lparr>rw_rows := rows\<rparr>) = healthy w"
  by (simp add: healthy_def)

lemma next_fault_healthy: "next_fault w \<noteq> NoFault \<Longrightarrow> \<not> healthy w"
  by (auto simp: next_fault_def healthy_def split: list.splits)

abbreviation ref_during :: "ref_world \<Rightarrow> subnet_row list \<Rightarrow> int \<Rightarrow> ref_world \<Rightarrow> bool" where
  "ref_during \<equiv> during rw_rows rw_now healthy (=)"

lemma run_read_law:
  assumes "run_read f w = (r, w')"
  shows "ref_during w (rw_rows w') (rw_now w) w' \<and> rw_rows w' = rw_rows w
       \<and> (r = f (rw_rows w) \<or> r = Inl connection_lost \<and> \<not> healthy w)"
  using assms next_fault_healthy [of w]
  by (cases "next_fault w = NoFault") (auto simp: run_read_def during_def)

lemma run_exec_law:
  assumes "run_exec f w = (r, w')"
  shows "ref_during w (rw_rows w) (rw_now w) w' \<and>
    (case f (rw_rows w) of
       Inl e \<Rightarrow> rw_rows w' = rw_rows w \<and> (\<exists>e. r = Inl e)
     | Inr (res, rows) \<Rightarrow> r = Inr res \<and> rw_rows w' = rows
         \<or> (\<exists>e. r = Inl e) \<and> \<not> healthy w \<and> (rw_rows w' = rw_rows w \<or> rw_rows w' = rows))"
  using assms next_fault_healthy [of w]
  by (cases "next_fault w") (auto simp: run_exec_def during_def split: sum.splits if_splits)

lemma oldest_row_spec:
  "(oldest_row rows = None \<longleftrightarrow> rows = []) \<and>
   (\<forall>x. oldest_row rows = Some x \<longrightarrow> x \<in> set rows \<and> oldest_of rows x)"
  by (induction rows) (force simp: oldest_of_def list_all_iff split: option.splits if_splits)+

lemma oldest_answer_selects: "selects_one h (oldest_answer rows) row_cells (oldest_of rows) rows"
  using oldest_row_spec [of rows]
  by (auto simp: oldest_answer_def selects_one_def list_ex_iff split: option.splits)

lemma row_answer_selects: "selects_one h (row_answer cells rows) cells (\<lambda>_. True) rows"
  by (auto simp: row_answer_def selects_one_def split: list.splits)

lemma rows_answer_selects: "selects h (rows_answer rows) rows"
  by (simp add: rows_answer_def selects_def)

lemma lost_selects [simp]:
  "selects False (Inl connection_lost) rows" "selects_one False (Inl connection_lost) cells P rows"
  by (simp_all add: selects_def selects_one_def connection_lost_def)

text \<open>A statement that reads satisfies a law of the contract when its answer does.\<close>

lemma run_read_selects:
  assumes "run_read (\<lambda>rows. rows_answer (filter (P (rw_now w)) rows)) w = (r, w')"
  shows "\<exists>now. ref_during w (rw_rows w') now w' \<and> selects (healthy w) r (filter (P now) (rw_rows w'))"
  using run_read_law [OF assms] rows_answer_selects by auto

lemma run_read_selects_one:
  assumes "run_read (\<lambda>rows. answer (filter (P (rw_now w)) rows)) w = (r, w')"
    and "\<And>h rows. selects_one h (answer rows) cells (Q rows) rows"
  shows "\<exists>now. ref_during w (rw_rows w') now w'
     \<and> selects_one (healthy w) r cells (Q (filter (P now) (rw_rows w'))) (filter (P now) (rw_rows w'))"
  using run_read_law [OF assms(1)] assms(2) by auto

lemma ref_db_simps [simp]:
  "Db_Exec ref_db = ref_Exec" "Db_Rebind ref_db q = q" "Db_Query ref_db = ref_Query"
  "Db_QueryRow ref_db = ref_QueryRow" "DriverName ref_db = ''mysql''"
  by (simp_all add: ref_db_def)

lemma statements_differ:
  "sql_single \<noteq> sql_all" "sql_block \<noteq> sql_all" "sql_block \<noteq> sql_single" "sql_last \<noteq> sql_lease"
  "sql_renew mysqlTimeNow \<noteq> sql_delete"
  by (simp_all add: sql_single_def sql_block_def sql_last_def sql_lease_def sql_renew_def sql_delete_def)

lemma ref_db_subnets_db: "subnets_db ref_db mysqlTimeNow rw_rows rw_now healthy (=)"
proof (unfold_locales, goal_cases)
  case 1 show ?case by (simp add: timestampForDriver_def MySQL_def)
next
  case 2 then show ?case by simp
next
  case (3 l w r w')
  then have "run_exec (\<lambda>rows. if conflicts rows l then Inl (ErrorString ''Duplicate entry'')
      else if \<not> fits_columns l then Inl (ErrorString ''Data too long for column'')
      else Inr (\<lparr>RowsAffected = Inr 1\<rparr>, insert_row l (rw_now w) rows)) w = (r, w')"
    by (simp add: ref_Exec_def Let_def)
  from run_exec_law [OF this] show ?case
    by (intro exI [of _ "rw_rows w"] exI [of _ "rw_now w"]) (auto simp: exec_inserts_def split: if_splits)
next
  case (4 u w r w')
  then have "run_exec (\<lambda>rows. Inr (\<lparr>RowsAffected = Inr (int (length (filter (row_for u) rows)))\<rparr>, delete_rows u rows)) w = (r, w')"
    by (simp add: ref_Exec_def)
  from run_exec_law [OF this] show ?case
    by (intro exI [of _ "rw_rows w"] exI [of _ "rw_now w"]) (auto simp: exec_deletes_def)
next
  case (5 u w r w')
  then have "run_exec (\<lambda>rows. Inr (\<lparr>RowsAffected = Inr (int (length (filter (row_for u) rows)))\<rparr>, renew_rows u (rw_now w) rows)) w = (r, w')"
    by (simp add: ref_Exec_def statements_differ)
  from run_exec_law [OF this] show ?case
    by (intro exI [of _ "rw_rows w"] exI [of _ "rw_now w"]) (auto simp: exec_renews_def)
next
  case (6 u w row w')
  then have "run_read (\<lambda>rows. row_answer (\<lambda>x. tl (row_cells x)) (filter (row_for u) rows)) w = (row, w')"
    by (simp add: ref_QueryRow_def)
  from run_read_selects_one [OF this row_answer_selects] show ?case .
next
  case (7 u w row w')
  then have "run_read (\<lambda>rows. row_answer (\<lambda>x. [SqlInt (last_renewed_at x)]) (filter (row_for u) rows)) w = (row, w')"
    by (simp add: ref_QueryRow_def statements_differ)
  from run_read_selects_one [OF this row_answer_selects] show ?case .
next
  case (8 w rs w')
  then have "run_read (\<lambda>rows. rows_answer (filter (\<lambda>_. True) rows)) w = (rs, w')" by (simp add: ref_Query_def)
  from run_read_selects [OF this] show ?case by simp
next
  case (9 w rs w')
  then have "run_read (\<lambda>rows. rows_answer (filter row_single rows)) w = (rs, w')"
    by (simp add: ref_Query_def statements_differ)
  from run_read_selects [OF this] show ?case .
next
  case (10 w rs w')
  then have "run_read (\<lambda>rows. rows_answer (filter (\<lambda>x. \<not> row_single x) rows)) w = (rs, w')"
    by (simp add: ref_Query_def statements_differ)
  from run_read_selects [OF this] show ?case .
next
  case (11 d w rs w')
  then have "run_read (\<lambda>rows. rows_answer (filter (\<lambda>x. rw_now w < last_renewed_at x + d) rows)) w = (rs, w')"
    using recognised_active [of d] by (simp add: ref_Query_def)
  from run_read_selects [of "\<lambda>now x. now < last_renewed_at x + d", OF this] show ?case .
next
  case (12 d w row w')
  then have "run_read (\<lambda>rows. oldest_answer (filter (\<lambda>x. \<not> row_single x \<and> last_renewed_at x + d \<le> rw_now w) rows)) w = (row, w')"
    by (simp add: ref_QueryRow_def recognised_oldest_block)
  from run_read_selects_one [of _ "\<lambda>now x. \<not> row_single x \<and> last_renewed_at x + d \<le> now", OF this oldest_answer_selects]
  show ?case unfolding Let_def .
next
  case (13 d w row w')
  then have "run_read (\<lambda>rows. oldest_answer (filter (\<lambda>x. row_single x \<and> last_renewed_at x + d \<le> rw_now w) rows)) w = (row, w')"
    by (simp add: ref_QueryRow_def recognised_oldest_single)
  from run_read_selects_one [of _ "\<lambda>now x. row_single x \<and> last_renewed_at x + d \<le> now", OF this oldest_answer_selects]
  show ?case unfolding Let_def .
qed

interpretation ref: subnets_db ref_db mysqlTimeNow rw_rows rw_now healthy "(=)"
  by (rule ref_db_subnets_db)

interpretation ref_store: exclusive_store "as_databaseHandler (NewDatabaseHandler migrator ref_db)" rw_rows rw_now healthy "(=)"
  by unfold_locales simp

section \<open>The contract holds for the shared service\<close>

lemma foreign_run_ok: "rows_ok rows \<Longrightarrow> rows_ok (foreign_run fs rows)"
proof (induction fs arbitrary: rows)
  case (Cons f fs)
  obtain now g where f: "f = (now, g)" by fastforce
  have "rows_ok (foreign_step now g rows)" using Cons.prems by (cases g) auto
  from Cons.IH [OF this] show ?case by (simp add: foreign_run_def f)
qed (simp add: foreign_run_def)

lemma let_others_simps [simp]:
  "rw_now (let_others v) = shared_now v" "healthy (let_others v) = shared_healthy v"
  "foreign_moves (shared_rows v) (rw_rows (let_others v))"
  by (auto simp: let_others_def foreign_moves_def split: prod.splits)

lemma shared_opE:
  assumes "shared_op f v = (r, v')"
  obtains w where "f (let_others v) = (r, w)" "fst v' = w"
  using assms by (auto simp: shared_op_def split: prod.splits)

lemma shared_during:
  "ref_during (let_others v) t now w \<Longrightarrow> fst v' = w \<Longrightarrow>
     during shared_rows shared_now shared_healthy foreign_moves v t now v'"
  by (auto simp: during_def)

lemma shared_db_simps [simp]:
  "Db_Exec shared_db q args = shared_op (ref_Exec q args)" "Db_Rebind shared_db q = q"
  "Db_Query shared_db q args = shared_op (ref_Query q args)"
  "Db_QueryRow shared_db q args = shared_op (ref_QueryRow q args)" "DriverName shared_db = ''mysql''"
  by (simp_all add: shared_db_def)

lemma shared_law:
  assumes "shared_op f v = (r, v')"
    and "\<And>w. f (let_others v) = (r, w) \<Longrightarrow> \<exists>t now. ref_during (let_others v) t now w \<and> Q t now (rw_rows w)"
  shows "\<exists>t now. during shared_rows shared_now shared_healthy foreign_moves v t now v' \<and> Q t now (shared_rows v')"
  using assms(1)
proof (rule shared_opE)
  fix w assume w: "f (let_others v) = (r, w)" "fst v' = w"
  from assms(2) [OF w(1)] show ?thesis using shared_during [OF _ w(2)] w(2) by blast
qed

lemma shared_read_law:
  assumes "shared_op f v = (r, v')"
    and "\<And>w. f (let_others v) = (r, w) \<Longrightarrow> \<exists>now. ref_during (let_others v) (rw_rows w) now w \<and> Q now (rw_rows w)"
  shows "\<exists>now. during shared_rows shared_now shared_healthy foreign_moves v (shared_rows v') now v' \<and> Q now (shared_rows v')"
  using assms(1)
proof (rule shared_opE)
  fix w assume w: "f (let_others v) = (r, w)" "fst v' = w"
  from assms(2) [OF w(1)] show ?thesis using shared_during [OF _ w(2)] w(2) by blast
qed

lemma shared_db_subnets_db: "subnets_db shared_db mysqlTimeNow shared_rows shared_now shared_healthy foreign_moves"
proof (unfold_locales, goal_cases)
  case 1 show ?case by (simp add: timestampForDriver_def MySQL_def)
next
  case 2 then show ?case by (auto simp: foreign_moves_def intro: foreign_run_ok)
next
  case (3 l v r v')
  from this [unfolded shared_db_simps] show ?case
    by (rule shared_law) (drule ref.insert [unfolded ref_db_simps], simp)
next
  case (4 u v r v')
  from this [unfolded shared_db_simps] show ?case
    by (rule shared_law) (drule ref.delete [unfolded ref_db_simps], simp)
next
  case (5 u v r v')
  from this [unfolded shared_db_simps] show ?case
    by (rule shared_law) (drule ref.renew [unfolded ref_db_simps], simp)
next
  case (6 u v r v')
  from this [unfolded shared_db_simps] show ?case
    by (rule shared_read_law) (drule ref.select_lease [unfolded ref_db_simps], simp)
next
  case (7 u v r v')
  from this [unfolded shared_db_simps] show ?case
    by (rule shared_read_law) (drule ref.select_last [unfolded ref_db_simps], simp)
next
  case (8 v r v')
  from this [unfolded shared_db_simps] show ?case
    by (rule shared_read_law) (drule ref.select_all [unfolded ref_db_simps], simp)
next
  case (9 v r v')
  from this [unfolded shared_db_simps] show ?case
    by (rule shared_read_law) (drule ref.select_single [unfolded ref_db_simps], simp)
next
  case (10 v r v')
  from this [unfolded shared_db_simps] show ?case
    by (rule shared_read_law) (drule ref.select_block [unfolded ref_db_simps], simp)
next
  case (11 d v r v')
  from this [unfolded shared_db_simps] show ?case
    by (rule shared_read_law) (drule ref.select_active [unfolded ref_db_simps], simp)
next
  case (12 d v r v')
  from this [unfolded shared_db_simps] show ?case unfolding Let_def
    by (rule shared_read_law) (drule ref.select_oldest_block [unfolded ref_db_simps Let_def], simp)
next
  case (13 d v r v')
  from this [unfolded shared_db_simps] show ?case unfolding Let_def
    by (rule shared_read_law) (drule ref.select_oldest_single [unfolded ref_db_simps Let_def], simp)
qed

interpretation shared: subnets_db shared_db mysqlTimeNow shared_rows shared_now shared_healthy foreign_moves
  by (rule shared_db_subnets_db)

text \<open>
  C11.  The database handler implements the lease store: over every SQL service that gives the
  handler's statements their meaning on the table \<^verbatim>\<open>subnets\<close>, the methods of the handler
  satisfy the contract on which the lease controller relies.
\<close>

theorem handler_refines_store:
  assumes "subnets_db db ts tbl clock up env"
  shows "lease_store (as_databaseHandler (NewDatabaseHandler migrator db)) tbl clock up env"
  using assms by (rule handler_lease_store)

theorem handler_refines_store_witness:
  "subnets_db ref_db mysqlTimeNow rw_rows rw_now healthy (=) \<and>
   lease_store (as_databaseHandler (NewDatabaseHandler (\<lambda>db dialect ms dir w. (Inr 0, w)) ref_db)) rw_rows rw_now healthy (=)"
  using handler_refines_store [OF ref_db_subnets_db] ref_db_subnets_db by blast

end
