(* ===== verification/Controller_System.thy ===== *)
theory Controller_System
  imports Lease_Controller_Exclusive Reference_Db
begin

text \<open>
  The lease controller as \<^verbatim>\<open>cmd/silk-controller/main.go\<close> assembles it: the database handler over an
  SQL service, the CIDR pool of the configured network, the hardware address generator and the
  validator.  The properties are stated for every SQL service that satisfies \<open>subnets_db\<close>; those
  of one controller assume that no other controller moves the table, which is
  \<open>subnets_db\<close> with the relation \<open>(=)\<close>.
\<close>

section \<open>Assembly\<close>

definition silk_LeaseController ::
  "'w migrateAdapter \<Rightarrow> 'w Db \<Rightarrow> 'w go_runtime \<Rightarrow> CIDRPool \<Rightarrow> int \<Rightarrow> 'w LeaseController" where
  "silk_LeaseController migrator db rt cidrPool leaseExpirationSeconds =
     \<lparr>lc_DatabaseHandler = as_databaseHandler (NewDatabaseHandler migrator db),
      lc_HardwareAddressGenerator = GenerateForVTEP,
      lc_AcquireSubnetLeaseAttempts = 10,
      lc_CIDRPool = as_cidrPool rt cidrPool,
      lc_LeaseValidator = Validate,
      lc_LeaseExpirationSeconds = leaseExpirationSeconds\<rparr>"

text \<open>The pool of an IPv4 overlay network and a prefix length that fits it.\<close>

definition pool_for :: "string \<Rightarrow> nat \<Rightarrow> CIDRPool \<Rightarrow> bool" where
  "pool_for subnetRange m pool \<longleftrightarrow>
     (case ParseCIDR subnetRange of
        Inl _ \<Rightarrow> False
      | Inr (_, overlay) \<Rightarrow> length (IPNet_Mask overlay) = 4 \<and> fst (Mask_Size (IPNet_Mask overlay)) \<le> m)
     \<and> m \<le> 32 \<and> NewCIDRPool subnetRange (int m) = Some (Inr pool)"

text \<open>A runtime whose choices are sound and do not touch the database.\<close>

definition runtime_for :: "('w \<Rightarrow> subnet_row list) \<Rightarrow> ('w \<Rightarrow> int) \<Rightarrow> ('w \<Rightarrow> bool) \<Rightarrow> 'w go_runtime \<Rightarrow> bool" where
  "runtime_for tbl clock up rt \<longleftrightarrow> runtime_ok rt \<and> runtime_same (quiet tbl clock up) rt"

text \<open>A concrete runtime and a concrete migration service.\<close>

definition seeded_runtime :: "nat \<Rightarrow> 'w go_runtime" where
  "seeded_runtime seed = \<lparr>Intn = (\<lambda>n w. (seed mod n, w)), MapOrder = (\<lambda>ks w. (ks, w))\<rparr>"

definition no_migrations :: "'w migrateAdapter" where
  "no_migrations db dialect ms dir w = (Inr 0, w)"

definition test_pool :: CIDRPool where
  "test_pool = \<lparr>blockPool = [''10.255.0.4/30'', ''10.255.0.8/30'', ''10.255.0.12/30''],
                singlePool = [''10.255.0.1/32'', ''10.255.0.2/32'', ''10.255.0.3/32'']\<rparr>"

definition ref_controller :: "ref_world LeaseController" where
  "ref_controller = silk_LeaseController no_migrations ref_db (seeded_runtime 7) test_pool 60"

definition shared_controller :: "shared_world LeaseController" where
  "shared_controller = silk_LeaseController no_migrations shared_db (seeded_runtime 7) test_pool 60"

text \<open>
  Concrete situations: three hosts hold the three blocks of the pool, at time 1000 with leases of
  60 seconds; the lease of the second has expired.
\<close>

definition lease_row :: "string \<Rightarrow> string \<Rightarrow> string \<Rightarrow> int \<Rightarrow> subnet_row" where
  "lease_row u s h t = \<lparr>row_lease = \<lparr>UnderlayIP = u, OverlaySubnet = s, OverlayHardwareAddr = h\<rparr>, last_renewed_at = t\<rparr>"

definition rows3 :: "subnet_row list" where
  "rows3 = [lease_row ''10.0.0.1'' ''10.255.0.4/30'' ''ee:ee:0a:ff:00:04'' 990,
            lease_row ''10.0.0.2'' ''10.255.0.8/30'' ''ee:ee:0a:ff:00:08'' 900,
            lease_row ''10.0.0.3'' ''10.255.0.12/30'' ''ee:ee:0a:ff:00:0c'' 995]"

definition world_at :: "subnet_row list \<Rightarrow> ref_world" where
  "world_at rows = \<lparr>rw_rows = rows, rw_now = 1000, rw_faults = []\<rparr>"

section \<open>The contracts are met\<close>

lemma silk_LeaseController_simps [simp]:
  "lc_DatabaseHandler (silk_LeaseController mg db rt pool d) = as_databaseHandler (NewDatabaseHandler mg db)"
  "lc_HardwareAddressGenerator (silk_LeaseController mg db rt pool d) = GenerateForVTEP"
  "lc_AcquireSubnetLeaseAttempts (silk_LeaseController mg db rt pool d) = 10"
  "lc_CIDRPool (silk_LeaseController mg db rt pool d) = as_cidrPool rt pool"
  "lc_LeaseValidator (silk_LeaseController mg db rt pool d) = Validate"
  "lc_LeaseExpirationSeconds (silk_LeaseController mg db rt pool d) = d"
  by (simp_all add: silk_LeaseController_def)

lemma seeded_runtime_for: "runtime_for tbl clock up (seeded_runtime seed)"
  by (auto simp: runtime_for_def runtime_ok_def runtime_same_def seeded_runtime_def quiet_def)

lemma test_pool_for: "pool_for ''10.255.0.0/28'' 30 test_pool"
proof -
  have 1: "ParseCIDR ''10.255.0.0/28''
      = Inr (IPv4 10 255 0 0, \<lparr>IPNet_IP = [10, 255, 0, 0], IPNet_Mask = [255, 255, 255, 240]\<rparr>)"
    by code_simp
  have 2: "NewCIDRPool ''10.255.0.0/28'' (int 30) = Some (Inr test_pool)" by code_simp
  have 3: "fst (Mask_Size [255, 255, 255, 240]) = 28" by code_simp
  from 1 2 3 show ?thesis by (simp add: pool_for_def)
qed

lemma silk_controller_contract:
  assumes "subnets_db db ts tbl clock up env" "pool_for subnetRange m pool" "runtime_for tbl clock up rt"
  shows "lease_controller (silk_LeaseController mg db rt pool d) tbl clock up env (blockPool pool) (singlePool pool)"
proof -
  from assms(2) obtain ip overlay where p: "ParseCIDR subnetRange = Inr (ip, overlay)" "length (IPNet_Mask overlay) = 4"
    "fst (Mask_Size (IPNet_Mask overlay)) \<le> m" "m \<le> 32" "NewCIDRPool subnetRange (int m) = Some (Inr pool)"
    by (auto simp: pool_for_def split: sum.splits prod.splits)
  have "subnet_pool (as_cidrPool rt pool) (blockPool pool) (singlePool pool) (quiet tbl clock up)"
    using p assms(3) by (intro pool_subnet_pool) (auto simp: runtime_for_def)
  with handler_lease_store [OF assms(1)] show ?thesis
    by (intro lease_controller.intro lease_controller_axioms.intro) simp_all
qed

lemma silk_controller_exclusive:
  assumes "subnets_db db ts tbl clock up (=)" "pool_for subnetRange m pool" "runtime_for tbl clock up rt"
  shows "exclusive_controller (silk_LeaseController mg db rt pool d) tbl clock up (=) (blockPool pool) (singlePool pool)"
proof -
  have "exclusive_store (as_databaseHandler (NewDatabaseHandler mg db)) tbl clock up (=)"
    using handler_lease_store [OF assms(1)] by (intro exclusive_store.intro exclusive_store_axioms.intro) simp_all
  with silk_controller_contract [OF assms] show ?thesis by (intro exclusive_controller.intro) simp_all
qed

interpretation ref_sys: exclusive_controller ref_controller rw_rows rw_now healthy "(=)" "blockPool test_pool" "singlePool test_pool"
  unfolding ref_controller_def
  by (rule silk_controller_exclusive [OF ref_db_subnets_db test_pool_for seeded_runtime_for])

interpretation shared_sys: lease_controller shared_controller shared_rows shared_now shared_healthy foreign_moves
  "blockPool test_pool" "singlePool test_pool"
  unfolding shared_controller_def
  by (rule silk_controller_contract [OF shared_db_subnets_db test_pool_for seeded_runtime_for])

lemma pool_blocks_not_single:
  assumes "pool_for subnetRange m pool" "m < 32" "s \<in> set (blockPool pool)"
  shows "\<not> single_subnet s"
proof -
  from assms(1) obtain ip overlay where p: "ParseCIDR subnetRange = Inr (ip, overlay)" "length (IPNet_Mask overlay) = 4"
    "fst (Mask_Size (IPNet_Mask overlay)) \<le> m" "NewCIDRPool subnetRange (int m) = Some (Inr pool)"
    by (auto simp: pool_for_def split: sum.splits prod.splits)
  from p(1,2) obtain w c where c: "c \<le> 32" "overlay = cidr_net w c" by (rule ParseCIDR_v4_sound)
  have cm: "c \<le> m" using p(3) c by (simp add: cidr_net_def Mask_Size_CIDRMask)
  have "m \<le> 32" using assms(2) by simp
  have no32: "itoa m \<noteq> ''32''"
  proof -
    have "\<forall>n \<in> set [0..<32]. itoa n \<noteq> ''32''" by code_simp
    with assms(2) show ?thesis by simp
  qed
  from p(1) c(2) have "ParseCIDR subnetRange = Inr (ip, cidr_net w c)" by simp
  from this cm \<open>m \<le> 32\<close> p(4) assms(3) show ?thesis
  proof (rule block_member)
    fix k assume "s = cidr_text ((w AND mask32 c) + of_nat (k * 2 ^ (32 - m))) m"
    then obtain p where s: "s = dotted p @ ''/'' @ itoa m" by (simp add: cidr_text_def)
    show "\<not> single_subnet s"
    proof
      assume "single_subnet s"
      then obtain zs where "dotted p @ ''/'' @ itoa m = zs @ ''/32''"
        unfolding s single_subnet_def suffix_def by blast
      then have "rev (dotted p @ ''/'' @ itoa m) = rev (zs @ ''/32'')" by simp
      then have "rev (itoa m) @ ''/'' @ rev (dotted p) = ''23'' @ ''/'' @ rev zs" by simp
      then have "takeWhile (\<lambda>c. c \<noteq> CHR ''/'') (rev (itoa m) @ ''/'' @ rev (dotted p)) = ''23''" by simp
      moreover have "\<forall>c \<in> set (rev (itoa m)). c \<noteq> CHR ''/''" using itoa_digits not_digit(2) by fastforce
      moreover from this have "takeWhile (\<lambda>c. c \<noteq> CHR ''/'') (rev (itoa m) @ ''/'' @ rev (dotted p)) = rev (itoa m)"
        by (intro takeWhile_dropWhile_append(1)) simp_all
      ultimately have "rev (itoa m) = ''23''" by (simp only:)
      then have "rev (rev (itoa m)) = rev ''23''" by (rule arg_cong)
      with no32 show False by simp
    qed
  qed
qed

section \<open>Properties\<close>

text \<open>
  C1.  A lease that the controller hands out is written in the table, for the host that asked,
  and the table gives that host, that subnet and that hardware address to nobody else; this
  holds whatever other controllers do to the table between the statements.
\<close>

theorem acquire_exclusive_lease:
  assumes "subnets_db db ts tbl clock up env" "pool_for subnetRange m pool" "runtime_for tbl clock up rt"
    and "rows_ok (tbl w)"
    and "AcquireSubnetLease (silk_LeaseController mg db rt pool d) u single w = (Inr (Some l), w')"
  shows "UnderlayIP l = u \<and> l \<in> row_lease ` set (tbl w') \<and>
    (\<forall>r \<in> set (tbl w'). row_lease r = l \<or>
       UnderlayIP (row_lease r) \<noteq> u \<and> OverlaySubnet (row_lease r) \<noteq> OverlaySubnet l
         \<and> OverlayHardwareAddr (row_lease r) \<noteq> OverlayHardwareAddr l)"
proof -
  note sys = silk_controller_contract [OF assms(1-3)]
  have ok: "rows_ok (tbl w')" using lease_controller.acquire_ok [OF sys assms(5,4)] .
  have l: "UnderlayIP l = u" "l \<in> row_lease ` set (tbl w')"
    using lease_controller.acquire_holds [OF sys assms(5)] by auto
  then obtain x where x: "x \<in> set (tbl w')" "row_lease x = l" by auto
  show ?thesis using l x rows_ok_unique [OF ok _ x(1)] by auto
qed

theorem acquire_exclusive_lease_witness:
  "\<exists>w'. AcquireSubnetLease shared_controller ''10.0.0.9'' False
      (world_at rows3, [[], [F_Delete ''10.0.0.1''], [F_Renew ''10.0.0.3'']])
     = (Inr (Some \<lparr>UnderlayIP = ''10.0.0.9'', OverlaySubnet = ''10.255.0.4/30'', OverlayHardwareAddr = ''ee:ee:0a:ff:00:04''\<rparr>), w')
   \<and> \<lparr>UnderlayIP = ''10.0.0.9'', OverlaySubnet = ''10.255.0.4/30'', OverlayHardwareAddr = ''ee:ee:0a:ff:00:04''\<rparr>
       \<in> row_lease ` set (shared_rows w')"
proof -
  have run: "AcquireSubnetLease shared_controller ''10.0.0.9'' False
      (world_at rows3, [[], [F_Delete ''10.0.0.1''], [F_Renew ''10.0.0.3'']])
     = (Inr (Some \<lparr>UnderlayIP = ''10.0.0.9'', OverlaySubnet = ''10.255.0.4/30'', OverlayHardwareAddr = ''ee:ee:0a:ff:00:04''\<rparr>),
        (\<lparr>rw_rows = [lease_row ''10.0.0.2'' ''10.255.0.8/30'' ''ee:ee:0a:ff:00:08'' 900,
            lease_row ''10.0.0.3'' ''10.255.0.12/30'' ''ee:ee:0a:ff:00:0c'' 1002,
            lease_row ''10.0.0.9'' ''10.255.0.4/30'' ''ee:ee:0a:ff:00:04'' 1002], rw_now = 1003, rw_faults = []\<rparr>, []))"
    by code_simp
  have ok: "rows_ok (shared_rows (world_at rows3, [[], [F_Delete ''10.0.0.1''], [F_Renew ''10.0.0.3'']]))" by code_simp
  note fact = acquire_exclusive_lease [OF shared_db_subnets_db test_pool_for seeded_runtime_for ok run [unfolded shared_controller_def]]
  show ?thesis by (rule exI, rule conjI, rule run) (rule conjunct1 [OF conjunct2 [OF fact]])
qed







text \<open>
  The subnet that is handed out belongs to the configured pool, provided the leases of the other
  hosts in the table do.
\<close>

theorem acquire_within_pool:
  assumes "subnets_db db ts tbl clock up (=)" "pool_for subnetRange m pool" "runtime_for tbl clock up rt"
    and "issued_rows (blockPool pool) (singlePool pool) (delete_rows u (tbl w))"
    and "AcquireSubnetLease (silk_LeaseController mg db rt pool d) u single w = (Inr (Some l), w')"
  shows "IsMember pool (OverlaySubnet l)"
  using exclusive_controller.acquire_issued [OF silk_controller_exclusive [OF assms(1-3)] assms(5,4)]
  by (auto simp: IsMember_def)

theorem acquire_within_pool_witness:
  "\<exists>l w'. AcquireSubnetLease ref_controller ''10.0.0.9'' True (world_at rows3) = (Inr (Some l), w')
     \<and> IsMember test_pool (OverlaySubnet l)"
proof -
  have run: "AcquireSubnetLease ref_controller ''10.0.0.9'' True (world_at rows3)
     = (Inr (Some \<lparr>UnderlayIP = ''10.0.0.9'', OverlaySubnet = ''10.255.0.2/32'', OverlayHardwareAddr = ''ee:ee:0a:ff:00:02''\<rparr>),
        \<lparr>rw_rows = rows3 @ [lease_row ''10.0.0.9'' ''10.255.0.2/32'' ''ee:ee:0a:ff:00:02'' 1002], rw_now = 1003, rw_faults = []\<rparr>)"
    by code_simp
  have issued: "issued_rows (blockPool test_pool) (singlePool test_pool) (delete_rows ''10.0.0.9'' (rw_rows (world_at rows3)))"
    by code_simp
  show ?thesis
    using acquire_within_pool [OF ref_db_subnets_db test_pool_for seeded_runtime_for issued run [unfolded ref_controller_def]] run
    by blast
qed

text \<open>
  C21.  Acquiring twice gives the same lease twice: with a healthy database, a host that has just been given
  a lease of the pool is given the same one again and the table does not change, whatever kind of lease it asks for.
\<close>

theorem acquire_idempotent:
  assumes "subnets_db db ts tbl clock up (=)" "pool_for subnetRange m pool" "runtime_for tbl clock up rt"
    and "rows_ok (tbl w)" "AcquireSubnetLease (silk_LeaseController mg db rt pool d) u single w = (Inr (Some l), w')"
    and "IsMember pool (OverlaySubnet l)" "up w'"
    and "AcquireSubnetLease (silk_LeaseController mg db rt pool d) u single' w' = (r, w'')"
  shows "r = Inr (Some l) \<and> tbl w'' = tbl w'"
proof -
  note sys = silk_controller_exclusive [OF assms(1-3), of mg d]
  have ok: "rows_ok (tbl w')"
    using lease_controller.acquire_ok [OF silk_controller_contract [OF assms(1-3)] assms(5,4)] .
  have l: "UnderlayIP l = u" "l \<in> row_lease ` set (tbl w')"
    using lease_controller.acquire_holds [OF silk_controller_contract [OF assms(1-3)] assms(5)] by auto
  then obtain x where x: "x \<in> set (tbl w')" "row_lease x = l" by auto
  have "ParseIP_To4 u \<noteq> []" using assms(5) by (auto simp: AcquireSubnetLease_def split: if_splits)
  from exclusive_controller.acquire_existing [OF sys assms(8) this assms(7) ok x(1)] show ?thesis
    using l x assms(6) by (simp add: as_cidrPool_def)
qed

theorem acquire_idempotent_witness:
  "\<exists>l w' w''. AcquireSubnetLease ref_controller ''10.0.0.9'' True (world_at rows3) = (Inr (Some l), w')
     \<and> AcquireSubnetLease ref_controller ''10.0.0.9'' False w' = (Inr (Some l), w'') \<and> rw_rows w'' = rw_rows w'"
proof -
  let ?w1 = "\<lparr>rw_rows = rows3 @ [lease_row ''10.0.0.9'' ''10.255.0.2/32'' ''ee:ee:0a:ff:00:02'' 1002], rw_now = 1003, rw_faults = []\<rparr>"
  have run: "AcquireSubnetLease ref_controller ''10.0.0.9'' True (world_at rows3)
     = (Inr (Some \<lparr>UnderlayIP = ''10.0.0.9'', OverlaySubnet = ''10.255.0.2/32'', OverlayHardwareAddr = ''ee:ee:0a:ff:00:02''\<rparr>), ?w1)"
    by code_simp
  obtain r w'' where again: "AcquireSubnetLease ref_controller ''10.0.0.9'' False ?w1 = (r, w'')" by fastforce
  have ok: "rows_ok (rw_rows (world_at rows3))" by code_simp
  have mem: "IsMember test_pool (OverlaySubnet \<lparr>UnderlayIP = ''10.0.0.9'', OverlaySubnet = ''10.255.0.2/32'', OverlayHardwareAddr = ''ee:ee:0a:ff:00:02''\<rparr>)"
    by code_simp
  have up: "healthy ?w1" by (simp add: healthy_def)
  note fact = acquire_idempotent [OF ref_db_subnets_db test_pool_for seeded_runtime_for ok run [unfolded ref_controller_def] mem up
      again [unfolded ref_controller_def]]
  have "rw_rows w'' = rw_rows ?w1" using fact by blast
  with run again fact show ?thesis by blast
qed

text \<open>
  C8.  What renewing does, with a healthy database.  A valid lease that the table has is renewed: only
  its time stamp changes.  A valid lease of a host that the table does not know, and that
  collides with no other lease, is added.  Everything else (an invalid lease, a lease
  that differs from the one on record, a collision) is refused with a non-retriable error and the table is left alone.
\<close>

theorem renew_outcome:
  assumes "subnets_db db ts tbl clock up (=)" "pool_for subnetRange m pool" "runtime_for tbl clock up rt"
    and "rows_ok (tbl w)" "up w" "RenewSubnetLease (silk_LeaseController mg db rt pool d) l w = (e, w')"
  shows "if Validate l = None \<and> l \<in> row_lease ` set (tbl w) then
      e = None \<and> (\<exists>now. clock w \<le> now \<and> now \<le> clock w' \<and> tbl w' = renew_rows (UnderlayIP l) now (tbl w))
    else if Validate l = None \<and> \<not> list_ex (row_for (UnderlayIP l)) (tbl w) \<and> \<not> conflicts (tbl w) l \<and> fits_columns l then
      e = None \<and> (\<exists>now. clock w \<le> now \<and> now \<le> clock w' \<and> tbl w' = insert_row l now (tbl w))
    else (\<exists>err. e = Some err \<and> isNonRetriable err) \<and> tbl w' = tbl w"
proof -
  have only: "row_lease x = l" if "x \<in> set (tbl w)" "row_for (UnderlayIP l) x" "l \<in> row_lease ` set (tbl w)" for x
    using that rows_ok_same_underlay [OF assms(4) that(1)] by (metis imageE)
  show ?thesis
    using exclusive_controller.renew_exclusive [OF silk_controller_exclusive [OF assms(1-3)] assms(6)]
  proof cases
    case (1 x now)
    then show ?thesis using assms(5) by auto
  next
    case (2 now)
    then show ?thesis using assms(5) by (auto simp: list_ex_iff)
  next
    case (3 err)
    then show ?thesis using only by (auto simp: list_ex_iff)
  next
    case (4 err)
    then show ?thesis using assms(5) by simp
  qed
qed

theorem renew_outcome_witness:
  "\<exists>w'. RenewSubnetLease ref_controller
       \<lparr>UnderlayIP = ''10.0.0.2'', OverlaySubnet = ''10.255.0.8/30'', OverlayHardwareAddr = ''ee:ee:0a:ff:00:08''\<rparr> (world_at rows3)
     = (None, w') \<and> rows_ok rows3"
proof -
  let ?l = "\<lparr>UnderlayIP = ''10.0.0.2'', OverlaySubnet = ''10.255.0.8/30'', OverlayHardwareAddr = ''ee:ee:0a:ff:00:08''\<rparr>"
  obtain e w' where run: "RenewSubnetLease ref_controller ?l (world_at rows3) = (e, w')" by fastforce
  have ok: "rows_ok (rw_rows (world_at rows3))" by code_simp
  have up: "healthy (world_at rows3)" by (simp add: world_at_def healthy_def)
  have "Validate ?l = None" by code_simp
  moreover have "?l \<in> row_lease ` set (rw_rows (world_at rows3))" by code_simp
  ultimately have "e = None"
    using renew_outcome [OF ref_db_subnets_db test_pool_for seeded_runtime_for ok up run [unfolded ref_controller_def]] by simp
  with run ok show ?thesis by (simp add: world_at_def)
qed

text \<open>
  C22.  Releasing removes the lease of the host and nothing else; it succeeds with a healthy database
  also when there is no such lease, so that releasing twice is the same as releasing once.
\<close>

theorem release_outcome:
  assumes "subnets_db db ts tbl clock up (=)" "pool_for subnetRange m pool" "runtime_for tbl clock up rt"
    and "up w" "ReleaseSubnetLease (silk_LeaseController mg db rt pool d) u w = (e, w')"
  shows "e = None \<and> tbl w' = filter (\<lambda>x. UnderlayIP (row_lease x) \<noteq> u) (tbl w)"
  using exclusive_controller.release_exclusive [OF silk_controller_exclusive [OF assms(1-3)] assms(5)] assms(4)
  by (simp add: delete_rows_def)

theorem release_outcome_witness:
  "\<exists>w'. ReleaseSubnetLease ref_controller ''10.0.0.77'' (world_at rows3) = (None, w') \<and> rw_rows w' = rows3"
proof -
  obtain e w' where run: "ReleaseSubnetLease ref_controller ''10.0.0.77'' (world_at rows3) = (e, w')" by fastforce
  have up: "healthy (world_at rows3)" by (simp add: world_at_def healthy_def)
  have "filter (\<lambda>x. UnderlayIP (row_lease x) \<noteq> ''10.0.0.77'') (rw_rows (world_at rows3)) = rows3" by code_simp
  with run release_outcome [OF ref_db_subnets_db test_pool_for seeded_runtime_for up run [unfolded ref_controller_def]]
  show ?thesis by simp
qed

text \<open>
  C23.  The routable leases are the leases that have not expired, each exactly once, at some time during the request;
  listing them changes nothing and, with a healthy database, does not fail.
\<close>

theorem routable_leases_are_active:
  assumes "subnets_db db ts tbl clock up (=)" "pool_for subnetRange m pool" "runtime_for tbl clock up rt"
    and "RoutableLeases (silk_LeaseController mg db rt pool d) w = (r, w')"
  shows "tbl w' = tbl w \<and> (up w \<longrightarrow> (\<exists>ls. r = Inr ls)) \<and> (\<forall>ls. r = Inr ls \<longrightarrow>
     (\<exists>now. clock w \<le> now \<and> now \<le> clock w' \<and>
        mset ls = mset (map row_lease (filter (\<lambda>x. now < last_renewed_at x + d) (tbl w)))))"
  using exclusive_controller.routable_exclusive [OF silk_controller_exclusive [OF assms(1-3)] assms(4)]
  by (simp add: expired_def not_le)

theorem routable_leases_are_active_witness:
  "\<exists>ls w'. RoutableLeases ref_controller (world_at rows3) = (Inr ls, w') \<and> rw_rows w' = rows3"
proof -
  obtain r w' where run: "RoutableLeases ref_controller (world_at rows3) = (r, w')" by fastforce
  have up: "healthy (world_at rows3)" by (simp add: world_at_def healthy_def)
  note fact = routable_leases_are_active [OF ref_db_subnets_db test_pool_for seeded_runtime_for run [unfolded ref_controller_def]]
  then obtain ls where "r = Inr ls" using up by blast
  moreover have "rw_rows w' = rows3" using fact by (simp add: world_at_def)
  ultimately show ?thesis using run by simp
qed

text \<open>
  C36.  A request of a host whose own lease has expired returns this lease but does not renew it, although the program
  logs \<^verbatim>\<open>lease-renewed\<close>: the lease is handed out and is still not among the routable leases.
\<close>

theorem acquire_returns_expired_lease:
  assumes "subnets_db db ts tbl clock up (=)" "pool_for subnetRange m pool" "runtime_for tbl clock up rt"
    and "rows_ok (tbl w)" "up w" "ParseIP_To4 u \<noteq> []"
    and "x \<in> set (tbl w)" "UnderlayIP (row_lease x) = u" "IsMember pool (OverlaySubnet (row_lease x))"
    and "last_renewed_at x + d \<le> clock w"
    and "AcquireSubnetLease (silk_LeaseController mg db rt pool d) u single w = (r, w')"
    and "RoutableLeases (silk_LeaseController mg db rt pool d) w' = (Inr ls, w'')"
  shows "r = Inr (Some (row_lease x)) \<and> row_lease x \<notin> set ls"
proof -
  note sys = silk_controller_exclusive [OF assms(1-3), of mg d]
  have acq: "r = Inr (Some (row_lease x))" "tbl w' = tbl w"
    using exclusive_controller.acquire_existing [OF sys assms(11,6,5,4,7,8)] assms(9) by (auto simp: as_cidrPool_def)
  have "clock w \<le> clock w'" using exclusive_controller.acquire_clock [OF sys assms(11)] .
  from exclusive_controller.routable_exclusive [OF sys assms(12)] obtain now where now: "clock w' \<le> now"
    "mset ls = mset (map row_lease (filter (\<lambda>y. \<not> expired d now y) (tbl w)))" using acq(2) by auto
  from now(2) have "set ls = set (map row_lease (filter (\<lambda>y. \<not> expired d now y) (tbl w)))" by (rule mset_eq_setD)
  moreover have "y = x" if "y \<in> set (tbl w)" "row_lease y = row_lease x" for y
    using rows_ok_same_underlay [OF assms(4) that(1) assms(7)] that(2) by simp
  moreover have "expired d now x" using assms(10) now(1) \<open>clock w \<le> clock w'\<close> by (simp add: expired_def)
  ultimately show ?thesis using acq(1) by fastforce
qed

theorem acquire_returns_expired_lease_witness:
  "\<exists>w' ls w''. AcquireSubnetLease ref_controller ''10.0.0.2'' False (world_at rows3)
       = (Inr (Some \<lparr>UnderlayIP = ''10.0.0.2'', OverlaySubnet = ''10.255.0.8/30'', OverlayHardwareAddr = ''ee:ee:0a:ff:00:08''\<rparr>), w')
     \<and> RoutableLeases ref_controller w' = (Inr ls, w'')
     \<and> \<lparr>UnderlayIP = ''10.0.0.2'', OverlaySubnet = ''10.255.0.8/30'', OverlayHardwareAddr = ''ee:ee:0a:ff:00:08''\<rparr> \<notin> set ls"
proof -
  let ?x = "lease_row ''10.0.0.2'' ''10.255.0.8/30'' ''ee:ee:0a:ff:00:08'' 900"
  let ?w1 = "\<lparr>rw_rows = rows3, rw_now = 1001, rw_faults = []\<rparr>"
  have run: "AcquireSubnetLease ref_controller ''10.0.0.2'' False (world_at rows3) = (Inr (Some (row_lease ?x)), ?w1)"
    by code_simp
  have lst: "RoutableLeases ref_controller ?w1
      = (Inr [row_lease (rows3 ! 0), row_lease (rows3 ! 2)], \<lparr>rw_rows = rows3, rw_now = 1002, rw_faults = []\<rparr>)" by code_simp
  have ok: "rows_ok (rw_rows (world_at rows3))" by code_simp
  have up: "healthy (world_at rows3)" by (simp add: world_at_def healthy_def)
  have ip: "ParseIP_To4 ''10.0.0.2'' \<noteq> []" by code_simp
  have x: "?x \<in> set (rw_rows (world_at rows3))" "UnderlayIP (row_lease ?x) = ''10.0.0.2''"
    "last_renewed_at ?x + 60 \<le> rw_now (world_at rows3)" by (simp_all add: world_at_def rows3_def lease_row_def)
  have mem: "IsMember test_pool (OverlaySubnet (row_lease ?x))" by code_simp
  note fact = acquire_returns_expired_lease [OF ref_db_subnets_db test_pool_for seeded_runtime_for ok up ip x(1,2) mem x(3)
      run [unfolded ref_controller_def] lst [unfolded ref_controller_def]]
  have "row_lease ?x = \<lparr>UnderlayIP = ''10.0.0.2'', OverlaySubnet = ''10.255.0.8/30'', OverlayHardwareAddr = ''ee:ee:0a:ff:00:08''\<rparr>"
    by (simp add: lease_row_def)
  with run lst fact show ?thesis by metis
qed


end
