(* ===== verification/Controller_Api.thy ===== *)
theory Controller_Api
  imports Controller_System Go_Json
begin

text \<open>
  The HTTP API of the controller: the handlers of \<^verbatim>\<open>controller/handlers\<close>, the error responses of
  \<^verbatim>\<open>httperror\<close> and the two routers of \<^verbatim>\<open>cmd/silk-controller/main.go\<close>.  A request carries what reading its body
  gives; a response is the status code and the body.  A handler that writes a body without a
  status answers 200.  Logging and the counters of the metrics wrapper have no effect on the response.  No
  error of the program is a \<^verbatim>\<open>MetadataError\<close>, so the answers never carry metadata.
\<close>

section \<open>Definitions\<close>

record http_request =
  rq_method :: string
  rq_path :: string
  rq_body :: "string result"

record http_response =
  rs_status :: int
  rs_body :: string

type_synonym 'w handler = "http_request \<Rightarrow> 'w \<Rightarrow> http_response \<times> 'w"

definition respondWithCode :: "int \<Rightarrow> string \<Rightarrow> http_response" where
  "respondWithCode statusCode description =
     \<lparr>rs_status = statusCode,
      rs_body = [CHR 0x7B, CHR 0x22] @ ''error'' @ [CHR 0x22] @ '': '' @ [CHR 0x22] @ description @ [CHR 0x22, CHR 0x7D]\<rparr>"

definition InternalServerError :: "string \<Rightarrow> http_response" where
  "InternalServerError description = respondWithCode 500 description"

definition BadRequest :: "string \<Rightarrow> http_response" where
  "BadRequest description = respondWithCode 400 description"

definition Conflict :: "string \<Rightarrow> http_response" where
  "Conflict description = respondWithCode 409 description"

definition Write :: "string \<Rightarrow> http_response" where
  "Write bytes = \<lparr>rs_status = 200, rs_body = bytes\<rparr>"

record 'w LeasesAcquire =
  la_Marshaler :: "Lease \<Rightarrow> string result"
  la_Unmarshaler :: "string \<Rightarrow> AcquireLeaseRequest result"
  la_LeaseAcquirer :: "string \<Rightarrow> bool \<Rightarrow> 'w \<Rightarrow> Lease option result \<times> 'w"

definition LeasesAcquire_ServeHTTP :: "'w LeasesAcquire \<Rightarrow> 'w handler" where
  "LeasesAcquire_ServeHTTP l req w =
     (case rq_body req of
        Inl err \<Rightarrow> (BadRequest (''read-body: '' @ Error err), w)
      | Inr bodyBytes \<Rightarrow>
          (case la_Unmarshaler l bodyBytes of
             Inl err \<Rightarrow> (BadRequest (''unmarshal-request: '' @ Error err), w)
           | Inr payload \<Rightarrow>
               (case la_LeaseAcquirer l (acq_UnderlayIP payload) (acq_SingleOverlayIP payload) w of
                  (Inl err, w) \<Rightarrow> (InternalServerError (Error err), w)
                | (Inr None, w) \<Rightarrow> (Conflict ''no lease available'', w)
                | (Inr (Some lease), w) \<Rightarrow>
                    (case la_Marshaler l lease of
                       Inl err \<Rightarrow> (InternalServerError (''marshal-response: '' @ Error err), w)
                     | Inr bytes \<Rightarrow> (Write bytes, w)))))"

record 'w LeasesIndex =
  li_Marshaler :: "Lease list \<Rightarrow> string result"
  li_LeaseRepository :: "'w \<Rightarrow> Lease list result \<times> 'w"

definition LeasesIndex_ServeHTTP :: "'w LeasesIndex \<Rightarrow> 'w handler" where
  "LeasesIndex_ServeHTTP l req w =
     (case li_LeaseRepository l w of
        (Inl err, w) \<Rightarrow> (InternalServerError (''all-routable-leases: '' @ Error err), w)
      | (Inr leases, w) \<Rightarrow>
          (case li_Marshaler l leases of
             Inl err \<Rightarrow> (InternalServerError (''marshal-response: '' @ Error err), w)
           | Inr bytes \<Rightarrow> (Write bytes, w)))"

record 'w ReleaseLease =
  rl_Unmarshaler :: "string \<Rightarrow> ReleaseLeaseRequest result"
  rl_LeaseReleaser :: "string \<Rightarrow> 'w \<Rightarrow> go_error option \<times> 'w"

definition empty_object :: string where
  "empty_object = [CHR 0x7B, CHR 0x7D]"

definition ReleaseLease_ServeHTTP :: "'w ReleaseLease \<Rightarrow> 'w handler" where
  "ReleaseLease_ServeHTTP l req w =
     (case rq_body req of
        Inl err \<Rightarrow> (BadRequest (''read-body: '' @ Error err), w)
      | Inr bodyBytes \<Rightarrow>
          (case rl_Unmarshaler l bodyBytes of
             Inl err \<Rightarrow> (BadRequest (''unmarshal-request: '' @ Error err), w)
           | Inr payload \<Rightarrow>
               (case rl_LeaseReleaser l (rel_UnderlayIP payload) w of
                  (Some err, w) \<Rightarrow> (InternalServerError (Error err), w)
                | (None, w) \<Rightarrow> (Write empty_object, w))))"

record 'w RenewLease =
  rn_Unmarshaler :: "string \<Rightarrow> Lease result"
  rn_LeaseRenewer :: "Lease \<Rightarrow> 'w \<Rightarrow> go_error option \<times> 'w"

definition RenewLease_ServeHTTP :: "'w RenewLease \<Rightarrow> 'w handler" where
  "RenewLease_ServeHTTP l req w =
     (case rq_body req of
        Inl err \<Rightarrow> (BadRequest (''read-body: '' @ Error err), w)
      | Inr bodyBytes \<Rightarrow>
          (case rn_Unmarshaler l bodyBytes of
             Inl err \<Rightarrow> (BadRequest (''unmarshal-request: '' @ Error err), w)
           | Inr lease \<Rightarrow>
               (case rn_LeaseRenewer l lease w of
                  (Some err, w) \<Rightarrow>
                    if isNonRetriable err then (Conflict (''renew-subnet-lease: '' @ Error err), w)
                    else (InternalServerError (''renew-subnet-lease: '' @ Error err), w)
                | (None, w) \<Rightarrow> (Write empty_object, w))))"

record 'w Health =
  h_DatabaseChecker :: "'w \<Rightarrow> go_error option \<times> 'w"

definition Health_ServeHTTP :: "'w Health \<Rightarrow> 'w handler" where
  "Health_ServeHTTP h req w =
     (case h_DatabaseChecker h w of
        (Some err, w) \<Rightarrow> (InternalServerError ''check database failed'', w)
      | (None, w) \<Rightarrow> (Write [], w))"

text \<open>The log wrapper calls the handler between two log lines.\<close>

definition LogWrap :: "'w handler \<Rightarrow> 'w handler" where
  "LogWrap loggableHandlerFunc req w = loggableHandlerFunc req w"

subsection \<open>Routing\<close>

text \<open>
  The router tries the patterns of the request's method in order.  The patterns of this program have no
  parameter and no final slash, so a pattern matches the path that is equal to it.
\<close>

record 'w route =
  rt_method :: string
  rt_path :: string
  rt_handler :: "'w handler"

definition router_ServeHTTP :: "'w route list \<Rightarrow> 'w handler" where
  "router_ServeHTTP routes req w =
     (case find (\<lambda>r. rt_method r = rq_method req \<and> rt_path r = rq_path req) routes of
        Some r \<Rightarrow> rt_handler r req w
      | None \<Rightarrow>
          if list_ex (\<lambda>r. rt_method r \<noteq> rq_method req \<and> rt_path r = rq_path req) routes
          then (\<lparr>rs_status = 405, rs_body = ''Method Not Allowed'' @ [CHR 0x0A]\<rparr>, w)
          else (\<lparr>rs_status = 404, rs_body = ''404 page not found'' @ [CHR 0x0A]\<rparr>, w))"

definition lease_routes :: "'w LeaseController \<Rightarrow> 'w route list" where
  "lease_routes leaseController =
     (let leasesIndex = \<lparr>li_Marshaler = json_Marshal enc_Leases, li_LeaseRepository = RoutableLeases leaseController\<rparr>;
          leasesAcquire = \<lparr>la_Marshaler = json_Marshal enc_Lease, la_Unmarshaler = json_Unmarshal dec_AcquireLeaseRequest,
                           la_LeaseAcquirer = AcquireSubnetLease leaseController\<rparr>;
          leasesRelease = \<lparr>rl_Unmarshaler = json_Unmarshal dec_ReleaseLeaseRequest,
                           rl_LeaseReleaser = ReleaseSubnetLease leaseController\<rparr>;
          leasesRenew = \<lparr>rn_Unmarshaler = json_Unmarshal dec_Lease, rn_LeaseRenewer = RenewSubnetLease leaseController\<rparr>
      in [\<lparr>rt_method = ''GET'', rt_path = ''/leases'', rt_handler = LogWrap (LeasesIndex_ServeHTTP leasesIndex)\<rparr>,
          \<lparr>rt_method = ''PUT'', rt_path = ''/leases/acquire'', rt_handler = LogWrap (LeasesAcquire_ServeHTTP leasesAcquire)\<rparr>,
          \<lparr>rt_method = ''PUT'', rt_path = ''/leases/release'', rt_handler = LogWrap (ReleaseLease_ServeHTTP leasesRelease)\<rparr>,
          \<lparr>rt_method = ''PUT'', rt_path = ''/leases/renew'', rt_handler = LogWrap (RenewLease_ServeHTTP leasesRenew)\<rparr>])"

definition health_routes :: "'w DatabaseHandler \<Rightarrow> 'w route list" where
  "health_routes databaseHandler =
     [\<lparr>rt_method = ''GET'', rt_path = ''/health'',
       rt_handler = LogWrap (Health_ServeHTTP \<lparr>h_DatabaseChecker = CheckDatabase databaseHandler\<rparr>)\<rparr>]"

end
