(* ===== verification/Controller_Client.thy ===== *)
theory Controller_Client
  imports Controller_Api
begin

text \<open>
  The client of the API (\<^verbatim>\<open>controller/client.go\<close>) over the JSON client of the networking helpers.  The transport
  is a parameter; \<open>direct\<close> is the transport that hands every request to a router of the controller.  The
  theorems say what a daemon sees of the lease controller through JSON, HTTP and the handlers.
\<close>

section \<open>Definitions\<close>

text \<open>
  \<open>jc_NewRequest\<close> is the error of \<^verbatim>\<open>http.NewRequest\<close> for a method and a URL; \<open>jc_HttpClient\<close> sends a method, a URL
  and a body and gives a status and what reading the response's body gives.
\<close>

record 'w json_Client =
  jc_HttpClient :: "string \<Rightarrow> string \<Rightarrow> string \<Rightarrow> 'w \<Rightarrow> (int \<times> string result) result \<times> 'w"
  jc_NewRequest :: "string \<Rightarrow> string \<Rightarrow> go_error option"
  jc_Url :: string

definition json_client_New where
  "json_client_New httpClient newRequest baseURL =
     \<lparr>jc_HttpClient = httpClient, jc_NewRequest = newRequest, jc_Url = baseURL\<rparr>"

text \<open>\<open>reqData\<close> is \<open>None\<close> for nil and otherwise what marshaling it gives; \<open>respData\<close> is the decoder of the target.\<close>

definition json_Do :: "'w json_Client \<Rightarrow> string \<Rightarrow> string \<Rightarrow> string result option \<Rightarrow> (string \<Rightarrow> 'b result) \<Rightarrow> 'w \<Rightarrow> 'b result \<times> 'w" where
  "json_Do c method route reqData respData w =
     (case (if method \<noteq> ''GET'' then reqData else None) of
        Some (Inl err) \<Rightarrow> (Inl (ErrorString (''json marshal request body: '' @ Error err)), w)
      | body \<Rightarrow>
          (let bodyBytes = (case body of Some (Inr b) \<Rightarrow> b | _ \<Rightarrow> []);
               reqURL = jc_Url c @ route
           in case jc_NewRequest c method reqURL of
             Some err \<Rightarrow> (Inl (ErrorString (''http new request: '' @ Error err)), w)
           | None \<Rightarrow>
               (case jc_HttpClient c method reqURL bodyBytes w of
                  (Inl err, w) \<Rightarrow> (Inl (ErrorString (''http client do: '' @ Error err)), w)
                | (Inr (_, Inl err), w) \<Rightarrow> (Inl (ErrorString (''body read: '' @ Error err)), w)
                | (Inr (status, Inr respBytes), w) \<Rightarrow>
                    if status > 299 then
                      (let errDescription = (case json_Unmarshal dec_ErrorBody respBytes of Inl _ \<Rightarrow> respBytes | Inr m \<Rightarrow> m)
                       in (Inl (HttpResponseCodeError status errDescription), w))
                    else
                      (case respData respBytes of
                         Inl err \<Rightarrow> (Inl (ErrorString (''json unmarshal: '' @ Error err)), w)
                       | Inr x \<Rightarrow> (Inr x, w)))))"

record 'w Client =
  JsonClient :: "'w json_Client"

definition NewClient where
  "NewClient httpClient newRequest baseURL = \<lparr>JsonClient = json_client_New httpClient newRequest baseURL\<rparr>"

definition GetActiveLeases :: "'w Client \<Rightarrow> 'w \<Rightarrow> Lease list result \<times> 'w" where
  "GetActiveLeases c w = json_Do (JsonClient c) ''GET'' ''/leases'' None (json_Unmarshal dec_LeasesResponse) w"

definition acquireLease :: "'w Client \<Rightarrow> string \<Rightarrow> bool \<Rightarrow> 'w \<Rightarrow> Lease result \<times> 'w" where
  "acquireLease c underlayIP singleOverlayIP w =
     (let request = \<lparr>acq_UnderlayIP = underlayIP, acq_SingleOverlayIP = singleOverlayIP\<rparr>
      in json_Do (JsonClient c) ''PUT'' ''/leases/acquire'' (Some (json_Marshal enc_AcquireLeaseRequest request))
           (json_Unmarshal dec_Lease) w)"

definition Client_AcquireSubnetLease :: "'w Client \<Rightarrow> string \<Rightarrow> 'w \<Rightarrow> Lease result \<times> 'w" where
  "Client_AcquireSubnetLease c underlayIP = acquireLease c underlayIP False"

definition AcquireSingleOverlayIPLease :: "'w Client \<Rightarrow> string \<Rightarrow> 'w \<Rightarrow> Lease result \<times> 'w" where
  "AcquireSingleOverlayIPLease c underlayIP = acquireLease c underlayIP True"

definition no_response :: "string \<Rightarrow> unit result" where
  "no_response bytes = Inr ()"

definition Client_RenewSubnetLease :: "'w Client \<Rightarrow> Lease \<Rightarrow> 'w \<Rightarrow> go_error option \<times> 'w" where
  "Client_RenewSubnetLease c lease w =
     (case json_Do (JsonClient c) ''PUT'' ''/leases/renew'' (Some (json_Marshal enc_Lease lease)) no_response w of
        (Inr _, w) \<Rightarrow> (None, w)
      | (Inl err, w) \<Rightarrow>
          (case err of
             HttpResponseCodeError status message \<Rightarrow>
               if status = 409 then (Some (NonRetriableError (''non-retriable: '' @ message)), w) else (Some err, w)
           | _ \<Rightarrow> (Some err, w)))"

definition Client_ReleaseSubnetLease :: "'w Client \<Rightarrow> string \<Rightarrow> 'w \<Rightarrow> go_error option \<times> 'w" where
  "Client_ReleaseSubnetLease c underlayIP w =
     (let request = \<lparr>rel_UnderlayIP = underlayIP\<rparr>
      in case json_Do (JsonClient c) ''PUT'' ''/leases/release'' (Some (json_Marshal enc_ReleaseLeaseRequest request)) no_response w of
           (Inr _, w) \<Rightarrow> (None, w)
         | (Inl err, w) \<Rightarrow> (Some err, w))"

subsection \<open>A client connected to a controller\<close>

definition direct :: "string \<Rightarrow> 'w route list \<Rightarrow> string \<Rightarrow> string \<Rightarrow> string \<Rightarrow> 'w \<Rightarrow> (int \<times> string result) result \<times> 'w" where
  "direct base routes method url body w =
     (case router_ServeHTTP routes \<lparr>rq_method = method, rq_path = drop (length base) url, rq_body = Inr body\<rparr> w of
        (resp, w) \<Rightarrow> (Inr (rs_status resp, Inr (rs_body resp)), w))"

definition connected :: "string \<Rightarrow> 'w LeaseController \<Rightarrow> 'w Client" where
  "connected base lc = NewClient (direct base (lease_routes lc)) (\<lambda>_ _. None) base"

text \<open>What the client makes of an error description: the description itself when it needs no JSON escapes.\<close>

definition seen :: "int \<Rightarrow> string \<Rightarrow> go_error" where
  "seen status description =
     (let bytes = rs_body (respondWithCode status description)
      in HttpResponseCodeError status (case json_Unmarshal dec_ErrorBody bytes of Inl _ \<Rightarrow> bytes | Inr m \<Rightarrow> m))"

definition plain :: "string \<Rightarrow> bool" where
  "plain s \<longleftrightarrow> list_all (\<lambda>c. c \<noteq> CHR 0x22 \<and> c \<noteq> CHR 0x5C \<and> \<not> (of_char c :: nat) < 32) s"

section \<open>Error bodies\<close>

lemma read_string_plain_text:
  "plain s \<Longrightarrow> read_string (s @ CHR 0x22 # r) acc = Some (acc @ s, r)"
proof (induction s arbitrary: acc)
  case Nil
  then show ?case by (subst read_string.simps) simp
next
  case (Cons c s)
  then show ?case by (simp add: plain_def read_string_plain)
qed

lemma parse_error_body:
  assumes "plain d"
  shows "parse_json (rs_body (respondWithCode code d)) = Some (JObj [(''error'', JStr d)])"
proof -
  let ?b = "rs_body (respondWithCode code d)"
  have key: "read_string (''error'' @ CHR 0x22 # r) [] = Some (''error'', r)" for r
    using read_string_plain_text [of "''error''" r "[]"] by (simp add: plain_def)
  obtain k where k: "2 * length ?b + 2 = Suc (Suc (Suc k))" by (auto simp: respondWithCode_def)
  have v: "read_value (Suc k) (CHR '' '' # CHR 0x22 # d @ [CHR 0x22, CHR 0x7D]) = Some (JStr d, [CHR 0x7D])"
    using read_string_plain_text [OF assms, of "[CHR 0x7D]" "[]"] by (simp add: skip_space_def is_space_def)
  have m: "read_members (Suc (Suc k)) (CHR 0x22 # ''error'' @ CHR 0x22 # CHR '':'' # CHR '' '' # CHR 0x22 # d @ [CHR 0x22, CHR 0x7D])
             = Some ([(''error'', JStr d)], [])"
    using key v by (simp add: expect_hit expect_miss del: append_Cons append.simps(2) read_value.simps(2))
  show ?thesis
    unfolding parse_json_def k
    using m by (simp add: respondWithCode_def expect_miss skip_space_def del: read_members.simps)
qed

lemma error_key: "same_key ''error'' ''Error''"
  by code_simp

lemma seen_plain: "plain d \<Longrightarrow> seen code d = HttpResponseCodeError code d"
  by (simp add: seen_def Let_def json_Unmarshal_def parse_error_body dec_ErrorBody_def decode_field_def error_key)

section \<open>The controller seen through the client\<close>

lemma respond_status [simp]:
  "rs_status (respondWithCode code d) = code" "rs_status (Write b) = 200" "rs_body (Write b) = b"
  by (simp_all add: respondWithCode_def Write_def)

lemma seen_fold:
  "HttpResponseCodeError code
     (case json_Unmarshal dec_ErrorBody (rs_body (respondWithCode code d)) of
        Inl _ \<Rightarrow> rs_body (respondWithCode code d) | Inr m \<Rightarrow> m) = seen code d"
  by (simp add: seen_def Let_def)

text \<open>What a request sent by the client gives, in terms of the response of the handler.\<close>

definition received :: "(string \<Rightarrow> 'b result) \<Rightarrow> http_response \<times> 'w \<Rightarrow> 'b result \<times> 'w" where
  "received dec rw =
     (case rw of (resp, w) \<Rightarrow>
        if rs_status resp > 299 then
          (Inl (HttpResponseCodeError (rs_status resp)
             (case json_Unmarshal dec_ErrorBody (rs_body resp) of Inl _ \<Rightarrow> rs_body resp | Inr m \<Rightarrow> m)), w)
        else (case dec (rs_body resp) of
                Inl err \<Rightarrow> (Inl (ErrorString (''json unmarshal: '' @ Error err)), w) | Inr x \<Rightarrow> (Inr x, w)))"

lemma received_error: "299 < code \<Longrightarrow> received dec (respondWithCode code d, w) = (Inl (seen code d), w)"
  by (simp add: received_def seen_def Let_def)

lemma received_ok: "dec b = Inr x \<Longrightarrow> received dec (Write b, w) = (Inr x, w)"
  by (simp add: received_def)

lemma json_Do_direct:
  assumes "method \<noteq> ''GET''"
  shows "json_Do (JsonClient (connected base lc)) method route (Some (Inr b)) dec w =
    received dec (router_ServeHTTP (lease_routes lc) \<lparr>rq_method = method, rq_path = route, rq_body = Inr b\<rparr> w)"
  using assms
  by (cases "router_ServeHTTP (lease_routes lc) \<lparr>rq_method = method, rq_path = route, rq_body = Inr b\<rparr> w")
     (simp add: json_Do_def connected_def NewClient_def json_client_New_def direct_def received_def Let_def)

lemma json_Do_direct_get:
  "json_Do (JsonClient (connected base lc)) ''GET'' route None dec w =
    received dec (router_ServeHTTP (lease_routes lc) \<lparr>rq_method = ''GET'', rq_path = route, rq_body = Inr []\<rparr> w)"
  by (cases "router_ServeHTTP (lease_routes lc) \<lparr>rq_method = ''GET'', rq_path = route, rq_body = Inr []\<rparr> w")
     (simp add: json_Do_def connected_def NewClient_def json_client_New_def direct_def received_def Let_def)

text \<open>The response of the router on each of its four paths.\<close>

lemma route_simps:
  "router_ServeHTTP (lease_routes lc) \<lparr>rq_method = ''PUT'', rq_path = ''/leases/acquire'', rq_body = b\<rparr> =
     LeasesAcquire_ServeHTTP \<lparr>la_Marshaler = json_Marshal enc_Lease, la_Unmarshaler = json_Unmarshal dec_AcquireLeaseRequest,
        la_LeaseAcquirer = AcquireSubnetLease lc\<rparr> \<lparr>rq_method = ''PUT'', rq_path = ''/leases/acquire'', rq_body = b\<rparr>"
  "router_ServeHTTP (lease_routes lc) \<lparr>rq_method = ''PUT'', rq_path = ''/leases/release'', rq_body = b\<rparr> =
     ReleaseLease_ServeHTTP \<lparr>rl_Unmarshaler = json_Unmarshal dec_ReleaseLeaseRequest,
        rl_LeaseReleaser = ReleaseSubnetLease lc\<rparr> \<lparr>rq_method = ''PUT'', rq_path = ''/leases/release'', rq_body = b\<rparr>"
  "router_ServeHTTP (lease_routes lc) \<lparr>rq_method = ''PUT'', rq_path = ''/leases/renew'', rq_body = b\<rparr> =
     RenewLease_ServeHTTP \<lparr>rn_Unmarshaler = json_Unmarshal dec_Lease, rn_LeaseRenewer = RenewSubnetLease lc\<rparr>
        \<lparr>rq_method = ''PUT'', rq_path = ''/leases/renew'', rq_body = b\<rparr>"
  "router_ServeHTTP (lease_routes lc) \<lparr>rq_method = ''GET'', rq_path = ''/leases'', rq_body = b\<rparr> =
     LeasesIndex_ServeHTTP \<lparr>li_Marshaler = json_Marshal enc_Leases, li_LeaseRepository = RoutableLeases lc\<rparr>
        \<lparr>rq_method = ''GET'', rq_path = ''/leases'', rq_body = b\<rparr>"
  by (rule ext, simp add: router_ServeHTTP_def lease_routes_def LogWrap_def Let_def)+

lemmas client_simps = json_Marshal_def json_Do_direct json_Do_direct_get route_simps InternalServerError_def Conflict_def
  unmarshal_messages received_error received_ok no_response_def

lemma plain_no_lease: "plain ''no lease available''"
  by (simp add: plain_def)

lemma seen_code: "\<exists>m. seen code d = HttpResponseCodeError code m"
  by (simp add: seen_def Let_def)

lemma client_acquire:
  "acquireLease (connected base lc) u single w =
     (case AcquireSubnetLease lc u single w of
        (Inr (Some l), w') \<Rightarrow> (Inr l, w')
      | (Inr None, w') \<Rightarrow> (Inl (HttpResponseCodeError 409 ''no lease available''), w')
      | (Inl e, w') \<Rightarrow> (Inl (seen 500 (Error e)), w'))"
  by (cases "AcquireSubnetLease lc u single w")
     (auto simp: acquireLease_def Let_def client_simps LeasesAcquire_ServeHTTP_def seen_plain [OF plain_no_lease]
        split: sum.split option.split)

lemma client_renew:
  "Client_RenewSubnetLease (connected base lc) l w =
     (case RenewSubnetLease lc l w of
        (None, w') \<Rightarrow> (None, w')
      | (Some e, w') \<Rightarrow>
          (let r = seen (if isNonRetriable e then 409 else 500) (''renew-subnet-lease: '' @ Error e)
           in (Some (case r of
                 HttpResponseCodeError s m \<Rightarrow>
                   if isNonRetriable e then NonRetriableError (''non-retriable: '' @ m) else r
               | _ \<Rightarrow> r), w')))"
  using seen_code
  by (cases "RenewSubnetLease lc l w"; cases "fst (RenewSubnetLease lc l w)")
     (auto simp: Client_RenewSubnetLease_def Let_def client_simps RenewLease_ServeHTTP_def seen_def)

lemma client_list:
  "GetActiveLeases (connected base lc) w =
     (case RoutableLeases lc w of
        (Inr ls, w') \<Rightarrow> (Inr ls, w')
      | (Inl e, w') \<Rightarrow> (Inl (seen 500 (''all-routable-leases: '' @ Error e)), w'))"
  by (cases "RoutableLeases lc w"; cases "fst (RoutableLeases lc w)")
     (simp_all add: GetActiveLeases_def client_simps LeasesIndex_ServeHTTP_def)

lemma client_release:
  "Client_ReleaseSubnetLease (connected base lc) u w =
     (case ReleaseSubnetLease lc u w of
        (None, w') \<Rightarrow> (None, w') | (Some e, w') \<Rightarrow> (Some (seen 500 (Error e)), w'))"
  by (cases "ReleaseSubnetLease lc u w"; cases "fst (ReleaseSubnetLease lc u w)")
     (simp_all add: Client_ReleaseSubnetLease_def Let_def client_simps ReleaseLease_ServeHTTP_def)

text \<open>
  C9.  Calling the controller over its API is calling the controller, for every controller and every request: the state
  changes as the controller's own call changes it, and the client gets the lease, or the list of leases, that the
  controller gave, unchanged by the JSON transport.  No lease is seen as status 409 with the text "no lease
  available".  A renewal that the controller refuses for good, and only such a one, is a non-retriable error for the
  client.  Every other error is status 500 with its description.
\<close>

theorem client_is_controller:
  "acquireLease (connected base lc) u single w =
     (case AcquireSubnetLease lc u single w of
        (Inr (Some l), w') \<Rightarrow> (Inr l, w')
      | (Inr None, w') \<Rightarrow> (Inl (HttpResponseCodeError 409 ''no lease available''), w')
      | (Inl e, w') \<Rightarrow> (Inl (seen 500 (Error e)), w')) \<and>
   Client_RenewSubnetLease (connected base lc) l w =
     (case RenewSubnetLease lc l w of
        (None, w') \<Rightarrow> (None, w')
      | (Some e, w') \<Rightarrow>
          (let r = seen (if isNonRetriable e then 409 else 500) (''renew-subnet-lease: '' @ Error e)
           in (Some (case r of
                 HttpResponseCodeError s m \<Rightarrow>
                   if isNonRetriable e then NonRetriableError (''non-retriable: '' @ m) else r
               | _ \<Rightarrow> r), w'))) \<and>
   GetActiveLeases (connected base lc) w =
     (case RoutableLeases lc w of
        (Inr ls, w') \<Rightarrow> (Inr ls, w')
      | (Inl e, w') \<Rightarrow> (Inl (seen 500 (''all-routable-leases: '' @ Error e)), w')) \<and>
   Client_ReleaseSubnetLease (connected base lc) u w =
     (case ReleaseSubnetLease lc u w of
        (None, w') \<Rightarrow> (None, w') | (Some e, w') \<Rightarrow> (Some (seen 500 (Error e)), w'))"
  by (intro conjI client_acquire client_renew client_list client_release)

text \<open>The paths that take a PUT request.\<close>

definition put_paths :: "string list" where
  "put_paths = [''/leases/acquire'', ''/leases/release'', ''/leases/renew'']"

lemma put_paths_simps:
  "''/leases/acquire'' \<in> set put_paths" "''/leases/release'' \<in> set put_paths" "''/leases/renew'' \<in> set put_paths"
  "''/leases'' \<notin> set put_paths"
  by (simp_all add: put_paths_def)

text \<open>The statuses of a handler; only a bad request leaves the state as it was in every case.\<close>

definition answers :: "int set \<Rightarrow> http_response \<times> 'w \<Rightarrow> 'w \<Rightarrow> bool" where
  "answers codes rw w \<longleftrightarrow> rs_status (fst rw) \<in> codes \<and> (rs_status (fst rw) \<in> {400, 404, 405} \<longrightarrow> snd rw = w)"

lemma handler_answers:
  "answers {200, 400, 409, 500} (LeasesAcquire_ServeHTTP la req w) w"
  "answers {200, 500} (LeasesIndex_ServeHTTP li req w) w"
  "answers {200, 400, 500} (ReleaseLease_ServeHTTP rl req w) w"
  "answers {200, 400, 409, 500} (RenewLease_ServeHTTP rn req w) w"
  by (simp_all add: answers_def LeasesAcquire_ServeHTTP_def LeasesIndex_ServeHTTP_def ReleaseLease_ServeHTTP_def
        RenewLease_ServeHTTP_def BadRequest_def InternalServerError_def Conflict_def
        split: sum.split option.split prod.split)

lemma handler_unreadable:
  assumes "rq_body req = Inl e"
  shows "rs_status (fst (LeasesAcquire_ServeHTTP la req w)) = 400"
    "rs_status (fst (ReleaseLease_ServeHTTP rl req w)) = 400" "rs_status (fst (RenewLease_ServeHTTP rn req w)) = 400"
  using assms
  by (simp_all add: LeasesAcquire_ServeHTTP_def ReleaseLease_ServeHTTP_def RenewLease_ServeHTTP_def BadRequest_def)

lemma router_cases:
  fixes lc :: "'w LeaseController"
  obtains (acquire) la :: "'w LeasesAcquire" where "rq_method req = ''PUT''" "rq_path req = ''/leases/acquire''"
      "router_ServeHTTP (lease_routes lc) req w = LeasesAcquire_ServeHTTP la req w"
    | (release) rl :: "'w ReleaseLease" where "rq_method req = ''PUT''" "rq_path req = ''/leases/release''"
      "router_ServeHTTP (lease_routes lc) req w = ReleaseLease_ServeHTTP rl req w"
    | (renew) rn :: "'w RenewLease" where "rq_method req = ''PUT''" "rq_path req = ''/leases/renew''"
      "router_ServeHTTP (lease_routes lc) req w = RenewLease_ServeHTTP rn req w"
    | (index) li :: "'w LeasesIndex" where "rq_method req = ''GET''" "rq_path req = ''/leases''"
      "router_ServeHTTP (lease_routes lc) req w = LeasesIndex_ServeHTTP li req w"
    | (bad_method) resp where "rq_path req = ''/leases'' \<and> rq_method req \<noteq> ''GET'' \<or>
         rq_path req \<in> set put_paths \<and> rq_method req \<noteq> ''PUT''"
      "router_ServeHTTP (lease_routes lc) req w = (resp, w)" "rs_status resp = 405"
    | (unknown) resp where "rq_path req \<noteq> ''/leases''" "rq_path req \<notin> set put_paths"
      "router_ServeHTTP (lease_routes lc) req w = (resp, w)" "rs_status resp = 404"
proof -
  obtain m p b where req: "req = \<lparr>rq_method = m, rq_path = p, rq_body = b\<rparr>" by (cases req) auto
  have split: "(m = put \<and> p = a) \<or> (m = put \<and> p = b) \<or> (m = put \<and> p = c) \<or> (m = get \<and> p = d) \<or>
      (p = d \<and> m \<noteq> get \<or> p \<in> {a, b, c} \<and> m \<noteq> put) \<or> p \<noteq> d \<and> p \<notin> {a, b, c}" for m p put get a b c d :: string
    by auto
  from split [of m "''PUT''" p "''/leases/acquire''" "''/leases/release''" "''/leases/renew''" "''GET''" "''/leases''"]
  consider "m = ''PUT''" "p = ''/leases/acquire''" | "m = ''PUT''" "p = ''/leases/release''" | "m = ''PUT''" "p = ''/leases/renew''"
    | "m = ''GET''" "p = ''/leases''" | "p = ''/leases'' \<and> m \<noteq> ''GET'' \<or> p \<in> set put_paths \<and> m \<noteq> ''PUT''"
    | "p \<noteq> ''/leases''" "p \<notin> set put_paths"
    unfolding put_paths_def list.set by argo
  then show thesis
  proof cases
    case 5
    show thesis
      by (rule bad_method [of "fst (router_ServeHTTP (lease_routes lc) req w)"])
         (use 5 in \<open>auto simp: req router_ServeHTTP_def lease_routes_def Let_def put_paths_def\<close>)
  next
    case 6
    show thesis
      by (rule unknown [of "fst (router_ServeHTTP (lease_routes lc) req w)"])
         (use 6 in \<open>auto simp: req router_ServeHTTP_def lease_routes_def Let_def put_paths_def\<close>)
  qed (use req route_simps [of lc b] acquire release renew index in auto)
qed



end
