(* ===== verification/Controller_Main.thy ===== *)
theory Controller_Main
  imports Controller_Client Config_Files
begin

text \<open>
  The controller process: the metric sources of \<^verbatim>\<open>controller/server_metrics\<close> and the start-up of
  \<^verbatim>\<open>cmd/silk-controller/main.go\<close>, from reading the configuration to running the servers.  The TLS, database,
  metron and process-group packages are fields of \<open>controller_env\<close>.
\<close>

section \<open>Definitions\<close>

subsection \<open>Metric sources\<close>

text \<open>A getter returns a value and an error; the leases of a listing that failed are \<^verbatim>\<open>nil\<close>, whose length is 0.\<close>

record 'w MetricSource =
  ms_Name :: string
  ms_Unit :: string
  ms_Getter :: "'w \<Rightarrow> (int \<times> go_error option) \<times> 'w"

definition len_err :: "Lease list result \<Rightarrow> int \<times> go_error option" where
  "len_err r = (case r of Inl e \<Rightarrow> (0, Some e) | Inr ls \<Rightarrow> (int (length ls), None))"

definition NewTotalLeasesSource :: "'w databaseHandler \<Rightarrow> 'w MetricSource" where
  "NewTotalLeasesSource lister =
     \<lparr>ms_Name = ''totalLeases'', ms_Unit = [],
      ms_Getter = \<lambda>w. (case dh_All lister w of (allLeases, w) \<Rightarrow> (len_err allLeases, w))\<rparr>"

definition NewFreeLeasesSource :: "'w databaseHandler \<Rightarrow> CIDRPool \<Rightarrow> 'w MetricSource" where
  "NewFreeLeasesSource lister pool =
     \<lparr>ms_Name = ''freeLeases'', ms_Unit = [],
      ms_Getter = \<lambda>w. (case dh_All lister w of (allLeases, w) \<Rightarrow>
        (case len_err allLeases of (n, err) \<Rightarrow>
           (let size = int (BlockPoolSize pool) in ((size - n, err), w))))\<rparr>"

definition NewStaleLeasesSource :: "'w databaseHandler \<Rightarrow> int \<Rightarrow> 'w MetricSource" where
  "NewStaleLeasesSource lister seconds =
     \<lparr>ms_Name = ''staleLeases'', ms_Unit = [],
      ms_Getter = \<lambda>w. (case dh_All lister w of (allLeases, w) \<Rightarrow>
        (case len_err allLeases of (n, err) \<Rightarrow>
           (case dh_AllActive lister seconds w of (allActiveLeases, w) \<Rightarrow>
              (case len_err allActiveLeases of (a, err) \<Rightarrow> ((n - a, err), w)))))\<rparr>"

subsection \<open>The process\<close>

datatype 'w member =
    TLSServer string "'w route list"
  | Server string "'w route list"
  | DebugServer string
  | MetricsEmitter int "'w MetricSource list"

record 'w controller_env =
  ce_io :: "'w ioutil"
  ce_NewServerTLSConfig :: "string \<Rightarrow> string \<Rightarrow> string \<Rightarrow> ('w, unit) op"
  ce_NewConnectionPool :: "db_Config \<Rightarrow> int \<Rightarrow> int \<Rightarrow> int \<Rightarrow> ('w, 'w Db) op"
  ce_migrate :: "'w migrateAdapter"
  ce_runtime :: "'w go_runtime"
  ce_sleep :: "'w \<Rightarrow> 'w"
  ce_dropsonde :: "string \<Rightarrow> string \<Rightarrow> ('w, unit) op"
  ce_uptime :: "'w MetricSource"
  ce_dbMonitor :: "'w Db \<Rightarrow> 'w MetricSource list"
  ce_run :: "(string \<times> 'w member) list \<Rightarrow> ('w, unit) op"

text \<open>How the process ends: it returns from \<^verbatim>\<open>mainWithError\<close>, it panics, or it never returns.\<close>

datatype outcome = Returns "go_error option" | Panics go_error | Hangs

definition address :: "string \<Rightarrow> int \<Rightarrow> string" where
  "address host port = host @ '':'' @ sprintf_d port"

definition controller_members ::
  "'w controller_env \<Rightarrow> controller_Config \<Rightarrow> 'w Db \<Rightarrow> CIDRPool \<Rightarrow> (string \<times> 'w member) list" where
  "controller_members env conf connectionPool cidrPool =
     (let databaseHandler = NewDatabaseHandler (ce_migrate env) connectionPool;
          leaseController = silk_LeaseController (ce_migrate env) connectionPool (ce_runtime env) cidrPool (LeaseExpirationSeconds conf);
          metricSources =
            [ce_uptime env,
             NewTotalLeasesSource (as_databaseHandler databaseHandler),
             NewFreeLeasesSource (as_databaseHandler databaseHandler) cidrPool,
             NewStaleLeasesSource (as_databaseHandler databaseHandler) (StalenessThresholdSeconds conf)]
            @ ce_dbMonitor env connectionPool
      in [(''http_server'', TLSServer (address (ListenHost conf) (ListenPort conf)) (lease_routes leaseController)),
          (''health-server'', Server (address ''127.0.0.1'' (HealthCheckPort conf)) (health_routes databaseHandler)),
          (''debug-server'', DebugServer (address ''127.0.0.1'' (DebugServerPort conf))),
          (''metrics-emitter'', MetricsEmitter (MetricsEmitSeconds conf) metricSources)])"

definition controller_serve ::
  "'w controller_env \<Rightarrow> controller_Config \<Rightarrow> 'w Db \<Rightarrow> CIDRPool \<Rightarrow> 'w \<Rightarrow> outcome \<times> 'w" where
  "controller_serve env conf connectionPool cidrPool w =
     (case TryMigrations 5 (Migrate (NewDatabaseHandler (ce_migrate env) connectionPool)) (ce_sleep env) w of
        (Some err, w) \<Rightarrow> (Returns (Some (errorf ''migrating database: '' err)), w)
      | (None, w) \<Rightarrow>
          (case ce_dropsonde env (address ''127.0.0.1'' (MetronPort conf)) ''silk-controller'' w of
             (Inl err, w) \<Rightarrow> (Returns (Some (errorf ''initializing dropsonde: '' err)), w)
           | (Inr _, w) \<Rightarrow>
               (case ce_run env (controller_members env conf connectionPool cidrPool) w of
                  (Inl err, w) \<Rightarrow> (Returns (Some (errorf ''wait returned error: '' err)), w)
                | (Inr _, w) \<Rightarrow> (Returns None, w))))"

definition controller_mainWithError :: "'w controller_env \<Rightarrow> string \<Rightarrow> 'w \<Rightarrow> outcome \<times> 'w" where
  "controller_mainWithError env configFilePath w =
     (case ReadFromFile (ce_io env) configFilePath w of
        (Inl err, w) \<Rightarrow> (Returns (Some (errorf ''load config: '' err)), w)
      | (Inr conf, w) \<Rightarrow>
          (case ce_NewServerTLSConfig env (ServerCertFile conf) (ServerKeyFile conf) (CACertFile conf) w of
             (Inl err, w) \<Rightarrow> (Returns (Some (errorf ''mutual tls config: '' err)), w)
           | (Inr _, w) \<Rightarrow>
               (case ce_NewConnectionPool env (Database conf) (MaxOpenConnections conf) (MaxIdleConnections conf)
                       (MaxConnectionsLifetimeSeconds conf) w of
                  (Inl err, w) \<Rightarrow> (Returns (Some (errorf ''connecting to database: '' err)), w)
                | (Inr connectionPool, w) \<Rightarrow>
                    (case NewCIDRPool (Network conf) (SubnetPrefixLength conf) of
                       None \<Rightarrow> (Hangs, w)
                     | Some (Inl err) \<Rightarrow> (Panics err, w)
                     | Some (Inr cidrPool) \<Rightarrow> controller_serve env conf connectionPool cidrPool w))))"

text \<open>The exit status: \<^verbatim>\<open>log.Fatalf\<close> exits with 1, an uncaught panic with 2; \<open>None\<close> when the process never ends.\<close>

definition controller_main :: "'w controller_env \<Rightarrow> string \<Rightarrow> 'w \<Rightarrow> nat option \<times> 'w" where
  "controller_main env configFilePath w =
     (case controller_mainWithError env configFilePath w of
        (Returns None, w) \<Rightarrow> (Some 0, w)
      | (Returns (Some err), w) \<Rightarrow> (Some 1, w)
      | (Panics err, w) \<Rightarrow> (Some 2, w)
      | (Hangs, w) \<Rightarrow> (None, w))"

subsection \<open>Concrete data\<close>

definition test_Database :: db_Config where
  "test_Database = \<lparr>db_Type = ''mysql'', db_User = ''silk'', db_Password = ''p'', db_Host = ''127.0.0.1'', db_Port = 3306,
     db_Timeout = 5, db_DatabaseName = ''silk'', db_RequireSSL = False, db_CACert = [], db_SkipHostnameValidation = False\<rparr>"

definition test_Config :: "int \<Rightarrow> controller_Config" where
  "test_Config prefixLength = \<lparr>DebugServerPort = 4103, ListenHost = ''0.0.0.0'', ListenPort = 4103, CACertFile = ''ca.crt'',
     ServerCertFile = ''server.crt'', ServerKeyFile = ''server.key'', Network = ''10.255.0.0/16'',
     SubnetPrefixLength = prefixLength, Database = test_Database, LeaseExpirationSeconds = 60, MetronPort = 3457,
     HealthCheckPort = 19683, MetricsEmitSeconds = 30, StalenessThresholdSeconds = 60, LogPrefix = ''cfnetworking'',
     MaxIdleConnections = 10, MaxOpenConnections = 200, MaxConnectionsLifetimeSeconds = 3600\<rparr>"

text \<open>Files in memory and services that always succeed; the servers run and stop.\<close>

definition calm_env :: "'w Db \<Rightarrow> 'w ioutil \<Rightarrow> 'w controller_env" where
  "calm_env db io =
     \<lparr>ce_io = io, ce_NewServerTLSConfig = \<lambda>_ _ _. ret (), ce_NewConnectionPool = \<lambda>_ _ _ _. ret db, ce_migrate = no_migrations,
      ce_runtime = seeded_runtime 7, ce_sleep = \<lambda>w. w, ce_dropsonde = \<lambda>_ _. ret (),
      ce_uptime = \<lparr>ms_Name = ''uptime'', ms_Unit = ''seconds'', ms_Getter = \<lambda>w. ((0, None), w)\<rparr>, ce_dbMonitor = \<lambda>_. [],
      ce_run = \<lambda>_. ret ()\<rparr>"

definition idle_db :: "'w Db" where
  "idle_db = \<lparr>Db_Exec = \<lambda>_ _ w. (Inl ErrNoRows, w), Db_Rebind = \<lambda>q. q, Db_Query = \<lambda>_ _ w. (Inl ErrNoRows, w),
     Db_QueryRow = \<lambda>_ _ w. (Inl ErrNoRows, w), DriverName = ''mysql''\<rparr>"

definition single_rows :: "subnet_row list" where
  "single_rows = [lease_row ''10.0.0.1'' ''10.255.0.1/32'' ''ee:ee:0a:ff:00:01'' 990,
     lease_row ''10.0.0.2'' ''10.255.0.2/32'' ''ee:ee:0a:ff:00:02'' 990,
     lease_row ''10.0.0.3'' ''10.255.0.3/32'' ''ee:ee:0a:ff:00:03'' 995]"

section \<open>Configuration\<close>

lemma test_Config_ok: "controller_Config_ok (test_Config 30)" "check_controller_Config (test_Config 30) = []"
  "check_controller_Config (test_Config 33) = []" "controller_Config_ok (test_Config 33)"
  by (simp_all add: controller_Config_ok_def db_Config_ok_def test_Config_def test_Database_def uint16_def int64_def
        check_controller_Config_def check_db_Config_def nonzero_s_def nonzero_i_def min_i_def)

text \<open>
  C28.  A valid configuration that was written to a file is read back unchanged: every text with any characters,
  every number of its field's width and the nested database settings survive the JSON form.
\<close>

theorem config_roundtrip:
  assumes "file_system io content" and "WriteToFile io c path w = (Inr u, w')"
    and "controller_Config_ok c" "check_controller_Config c = []"
    and "ReadFile io path w' = (Inr bytes, w'')"
  shows "ReadFromFile io path w' = (Inr c, w'')"
  by (rule file_system.written_is_read [OF assms])

theorem config_roundtrip_witness:
  "\<exists>w'. WriteToFile mem_files (test_Config 30) ''c.json'' Map.empty = (Inr (), w') \<and>
     ReadFromFile mem_files ''c.json'' w' = (Inr (test_Config 30), w')"
proof -
  let ?b = "json_text (enc_controller_Config (test_Config 30))"
  have w: "WriteToFile mem_files (test_Config 30) ''c.json'' Map.empty = (Inr (), [''c.json'' \<mapsto> ?b])"
    by (simp add: WriteToFile_def mem_files_def json_Marshal_def try_do_def)
  have r: "ReadFile mem_files ''c.json'' [''c.json'' \<mapsto> ?b] = (Inr ?b, [''c.json'' \<mapsto> ?b])"
    by (simp add: mem_files_def)
  from config_roundtrip [OF mem.file_system_axioms w test_Config_ok(1,2) r] w show ?thesis by blast
qed

section \<open>Start-up\<close>

text \<open>
  The process runs its servers only after every step of the start-up succeeded: a valid configuration,
  TLS material, a database connection, a pool for the network, the migrations and metron; the servers
  then are the lease API on the TLS address, the health check and the debug server on
  localhost, and the metrics, over the same database and pool.
\<close>

theorem controller_starts_in_order:
  assumes "controller_mainWithError env path w = (Returns None, w')"
  shows "\<exists>conf db pool w1 w2 w3 w4 w5.
     ReadFromFile (ce_io env) path w = (Inr conf, w1) \<and> check_controller_Config conf = [] \<and>
     ce_NewServerTLSConfig env (ServerCertFile conf) (ServerKeyFile conf) (CACertFile conf) w1 = (Inr (), w2) \<and>
     ce_NewConnectionPool env (Database conf) (MaxOpenConnections conf) (MaxIdleConnections conf)
       (MaxConnectionsLifetimeSeconds conf) w2 = (Inr db, w3) \<and>
     NewCIDRPool (Network conf) (SubnetPrefixLength conf) = Some (Inr pool) \<and>
     TryMigrations 5 (Migrate (NewDatabaseHandler (ce_migrate env) db)) (ce_sleep env) w3 = (None, w4) \<and>
     ce_dropsonde env (address ''127.0.0.1'' (MetronPort conf)) ''silk-controller'' w4 = (Inr (), w5) \<and>
     ce_run env (controller_members env conf db pool) w5 = (Inr (), w')"
proof -
  from assms obtain conf w1 w2 db w3 pool where s:
    "ReadFromFile (ce_io env) path w = (Inr conf, w1)"
    "ce_NewServerTLSConfig env (ServerCertFile conf) (ServerKeyFile conf) (CACertFile conf) w1 = (Inr (), w2)"
    "ce_NewConnectionPool env (Database conf) (MaxOpenConnections conf) (MaxIdleConnections conf)
       (MaxConnectionsLifetimeSeconds conf) w2 = (Inr db, w3)"
    "NewCIDRPool (Network conf) (SubnetPrefixLength conf) = Some (Inr pool)"
    "controller_serve env conf db pool w3 = (Returns None, w')"
    unfolding controller_mainWithError_def by (auto split: prod.splits sum.splits option.splits)
  from s(1) have "check_controller_Config conf = []"
    by (auto simp: ReadFromFile_def try_do_Inr validator_Validate_def split: if_splits)
  moreover from s(5) obtain w4 w5 where
    "TryMigrations 5 (Migrate (NewDatabaseHandler (ce_migrate env) db)) (ce_sleep env) w3 = (None, w4)"
    "ce_dropsonde env (address ''127.0.0.1'' (MetronPort conf)) ''silk-controller'' w4 = (Inr (), w5)"
    "ce_run env (controller_members env conf db pool) w5 = (Inr (), w')"
    unfolding controller_serve_def by (auto split: prod.splits sum.splits option.splits)
  ultimately show ?thesis using s by blast
qed

text \<open>
  C32.  A configuration file that passes every check can still keep the controller from starting: with an IPv4
  network and a subnet prefix length above 32 the process hangs after it has connected to the
  database, before it serves a request.
\<close>

theorem valid_config_can_hang:
  assumes "ReadFromFile (ce_io env) path w = (Inr conf, w1)"
    and "ce_NewServerTLSConfig env (ServerCertFile conf) (ServerKeyFile conf) (CACertFile conf) w1 = (Inr (), w2)"
    and "ce_NewConnectionPool env (Database conf) (MaxOpenConnections conf) (MaxIdleConnections conf)
       (MaxConnectionsLifetimeSeconds conf) w2 = (Inr db, w3)"
    and "ParseCIDR (Network conf) = Inr (ip, overlay)" "length (IPNet_Mask overlay) = 4"
    and "32 < SubnetPrefixLength conf" "SubnetPrefixLength conf < 2 ^ 63"
  shows "controller_mainWithError env path w = (Hangs, w3) \<and> controller_main env path w = (None, w3)"
  using assms NewCIDRPool_diverges [OF assms(4-7)]
  by (simp add: controller_mainWithError_def controller_main_def)

lemma written_config:
  assumes "controller_Config_ok c" "check_controller_Config c = []"
  shows "ReadFromFile mem_files path [path \<mapsto> json_text (enc_controller_Config c)] =
           (Inr c, [path \<mapsto> json_text (enc_controller_Config c)])"
  using assms
  by (simp add: ReadFromFile_def mem_files_def try_do_def json_Unmarshal_text controller_json_ok dec_enc_controller_Config
        validator_Validate_def)

theorem valid_config_can_hang_witness:
  "controller_main (calm_env idle_db mem_files) ''c.json'' [''c.json'' \<mapsto> json_text (enc_controller_Config (test_Config 33))]
     = (None, [''c.json'' \<mapsto> json_text (enc_controller_Config (test_Config 33))])"
proof -
  have p: "ParseCIDR (Network (test_Config 33))
      = Inr (IPv4 10 255 0 0, \<lparr>IPNet_IP = [10, 255, 0, 0], IPNet_Mask = [255, 255, 0, 0]\<rparr>)"
    unfolding test_Config_def by code_simp
  have r: "ReadFromFile (ce_io (calm_env idle_db mem_files)) ''c.json'' [''c.json'' \<mapsto> json_text (enc_controller_Config (test_Config 33))]
      = (Inr (test_Config 33), [''c.json'' \<mapsto> json_text (enc_controller_Config (test_Config 33))])"
    using written_config [OF test_Config_ok(4,3)] by (simp add: calm_env_def)
  show ?thesis
    by (rule valid_config_can_hang [OF r _ _ p, THEN conjunct2]) (simp_all add: calm_env_def test_Config_def)
qed

theorem controller_starts_in_order_witness:
  "\<exists>w'. controller_mainWithError (calm_env idle_db mem_files) ''c.json''
      [''c.json'' \<mapsto> json_text (enc_controller_Config (test_Config 30 \<lparr>Network := ''10.255.0.0/28''\<rparr>))] = (Returns None, w') \<and>
    (\<exists>conf w1. ReadFromFile mem_files ''c.json''
      [''c.json'' \<mapsto> json_text (enc_controller_Config (test_Config 30 \<lparr>Network := ''10.255.0.0/28''\<rparr>))] = (Inr conf, w1) \<and>
      check_controller_Config conf = [])"
proof -
  let ?c = "test_Config 30 \<lparr>Network := ''10.255.0.0/28''\<rparr>"
  let ?w = "[''c.json'' \<mapsto> json_text (enc_controller_Config ?c)]"
  have ok: "controller_Config_ok ?c" "check_controller_Config ?c = []"
    by (simp_all add: controller_Config_ok_def db_Config_ok_def test_Config_def test_Database_def uint16_def int64_def
        check_controller_Config_def check_db_Config_def nonzero_s_def nonzero_i_def min_i_def)
  have pool: "NewCIDRPool ''10.255.0.0/28'' 30 = Some (Inr test_pool)"
    using test_pool_for by (simp add: pool_for_def)
  have net: "Network ?c = ''10.255.0.0/28''" "SubnetPrefixLength ?c = 30" by (simp_all add: test_Config_def)
  have "controller_mainWithError (calm_env idle_db mem_files) ''c.json'' ?w = (Returns None, ?w)"
    using written_config [OF ok] pool net
    by (simp add: controller_mainWithError_def controller_serve_def calm_env_def TryMigrations_def Migrate_def
        NewDatabaseHandler_def no_migrations_def numeral_eq_Suc)
  then show ?thesis using controller_starts_in_order [of "calm_env idle_db mem_files" "''c.json''" ?w ?w]
    by (auto simp: calm_env_def)
qed

section \<open>Migrations\<close>

text \<open>The state before the attempt with number \<open>i\<close>, when all attempts before it failed.\<close>

definition before_attempt :: "('w \<Rightarrow> int result \<times> 'w) \<Rightarrow> ('w \<Rightarrow> 'w) \<Rightarrow> 'w \<Rightarrow> nat \<Rightarrow> 'w" where
  "before_attempt migrate sleep w i = ((\<lambda>w. sleep (snd (migrate w))) ^^ i) w"

definition fails :: "('w \<Rightarrow> int result \<times> 'w) \<Rightarrow> 'w \<Rightarrow> bool" where
  "fails migrate w \<longleftrightarrow> (case fst (migrate w) of Inl _ \<Rightarrow> True | Inr _ \<Rightarrow> False)"

lemma before_attempt_Suc:
  "before_attempt migrate sleep w (Suc i) = before_attempt migrate sleep (sleep (snd (migrate w))) i"
  unfolding before_attempt_def by (simp only: funpow_Suc_right comp_apply)

lemma TryMigrations_loop_success:
  "fst (TryMigrations_loop n migrate sleep err w) = None \<longleftrightarrow> (\<exists>k<n. \<not> fails migrate (before_attempt migrate sleep w k))"
proof (induction n arbitrary: err w)
  case (Suc n)
  show ?case
  proof (cases "fails migrate w")
    case True
    then obtain e w1 where m: "migrate w = (Inl e, w1)" by (auto simp: fails_def split: sum.splits) (metis prod.collapse)
    have "(\<exists>k<Suc n. \<not> fails migrate (before_attempt migrate sleep w k)) \<longleftrightarrow>
          (\<exists>k<n. \<not> fails migrate (before_attempt migrate sleep w (Suc k)))"
      using True by (auto simp: before_attempt_def less_Suc_eq_0_disj)
    with Suc m show ?thesis by (simp add: before_attempt_Suc)
  next
    case False
    then obtain k w1 where m: "migrate w = (Inr k, w1)" by (auto simp: fails_def split: sum.splits) (metis prod.collapse)
    have "before_attempt migrate sleep w 0 = w" by (simp add: before_attempt_def)
    with False m show ?thesis by auto
  qed
qed simp

lemma TryMigrations_loop_state:
  "TryMigrations_loop n migrate sleep err w = (Some e, w') \<Longrightarrow> w' = before_attempt migrate sleep w n"
proof (induction n arbitrary: err w)
  case (Suc n)
  then obtain e1 w1 where m: "migrate w = (Inl e1, w1)" by (auto split: prod.splits sum.splits)
  with Suc.prems have "TryMigrations_loop n migrate sleep (Some e1) (sleep w1) = (Some e, w')" by simp
  from Suc.IH [OF this] m show ?case by (simp add: before_attempt_Suc)
qed (simp add: before_attempt_def)

text \<open>
  C29.  The migrator succeeds exactly when one of its first five attempts does.  When it gives up it has made
  exactly five attempts with a pause after each, and says why the table could not be created.
\<close>

theorem migrations_bounded:
  "(fst (TryMigrations 5 migrate sleep w) = None \<longleftrightarrow> (\<exists>k<5. \<not> fails migrate (before_attempt migrate sleep w k))) \<and>
   (TryMigrations 5 migrate sleep w = (Some e, w') \<longrightarrow>
      w' = before_attempt migrate sleep w 5 \<and> (\<exists>msg. e = ErrorString (''creating table: '' @ msg)))"
proof -
  have msg: "TryMigrations_loop n migrate sleep err w = (Some e, w') \<Longrightarrow> \<exists>msg. e = ErrorString (''creating table: '' @ msg)"
    for n err w
    by (induction n arbitrary: err w) (auto split: prod.splits sum.splits)
  show ?thesis
    using TryMigrations_loop_success [of 5 migrate sleep None w] TryMigrations_loop_state [of 5 migrate sleep None w e w']
      msg [of 5 None w]
    by (simp add: TryMigrations_def)
qed

text \<open>A service that fails while the counter is positive.\<close>

definition fails_until :: "nat \<Rightarrow> int result \<times> nat" where
  "fails_until n = (case n of 0 \<Rightarrow> (Inr 1, 0) | Suc k \<Rightarrow> (Inl (ErrorString ''locked''), k))"

theorem migrations_bounded_witness:
  "TryMigrations 5 fails_until (\<lambda>w. w) 5 = (Some (ErrorString ''creating table: locked''), 0) \<and>
   0 = before_attempt fails_until (\<lambda>w. w) 5 5 \<and> fst (TryMigrations 5 fails_until (\<lambda>w. w) 4) = None"
proof -
  have f: "TryMigrations 5 fails_until (\<lambda>w. w) 5 = (Some (ErrorString ''creating table: locked''), 0)" by code_simp
  have "\<not> fails fails_until (before_attempt fails_until (\<lambda>w. w) 4 4)" by code_simp
  then have "\<exists>k<5. \<not> fails fails_until (before_attempt fails_until (\<lambda>w. w) 4 k)" by (intro exI [of _ 4]) simp
  with migrations_bounded [of fails_until "\<lambda>w. w" 4] f
    migrations_bounded [of fails_until "\<lambda>w. w" 5 "ErrorString ''creating table: locked''" 0]
  show ?thesis by blast
qed

section \<open>Metrics\<close>

context exclusive_store
begin

lemma all_counts:
  assumes "up w"
  shows "\<exists>w'. (\<exists>ls. dh_All dh w = (Inr ls, w') \<and> length ls = length (tbl w)) \<and> tbl w' = tbl w \<and> up w' \<and> clock w \<le> clock w'"
proof -
  obtain rs w' where a: "dh_All dh w = (rs, w')" by (cases "dh_All dh w")
  from All [OF this] exclusive obtain now where d: "tbl w = tbl w'" "clock w \<le> now" "now \<le> clock w'" "up w'"
    "lists_rows (up w) rs (tbl w')" using assms by (auto simp: during_def)
  with assms obtain ls where "rs = Inr ls" "mset ls = mset (map row_lease (tbl w'))" by (auto simp: lists_rows_def split: sum.splits)
  moreover from this have "length ls = length (tbl w')" by (metis length_map mset_eq_length)
  ultimately show ?thesis using a d by auto
qed

lemma active_counts:
  assumes "up w"
  shows "\<exists>now w'. (\<exists>ls. dh_AllActive dh d w = (Inr ls, w') \<and> length ls = length (filter (\<lambda>x. \<not> expired d now x) (tbl w))) \<and>
     tbl w' = tbl w \<and> clock w \<le> now \<and> now \<le> clock w'"
proof -
  obtain rs w' where a: "dh_AllActive dh d w = (rs, w')" by (cases "dh_AllActive dh d w")
  from AllActive [OF this] exclusive obtain now where e: "tbl w = tbl w'" "clock w \<le> now" "now \<le> clock w'"
    "lists_rows (up w) rs (filter (\<lambda>x. \<not> expired d now x) (tbl w'))" using assms by (auto simp: during_def)
  with assms obtain ls where ls: "rs = Inr ls" "mset ls = mset (map row_lease (filter (\<lambda>x. \<not> expired d now x) (tbl w')))"
    by (auto simp: lists_rows_def split: sum.splits)
  from ls(2) have "length ls = length (filter (\<lambda>x. \<not> expired d now x) (tbl w'))" by (metis length_map mset_eq_length)
  with a e ls show ?thesis by auto
qed

lemma metric_values:
  assumes "up w"
  shows "\<exists>w1. ms_Getter (NewTotalLeasesSource dh) w = ((int (length (tbl w)), None), w1) \<and> tbl w1 = tbl w"
    "\<exists>w2. ms_Getter (NewFreeLeasesSource dh pool) w = ((int (BlockPoolSize pool) - int (length (tbl w)), None), w2) \<and> tbl w2 = tbl w"
    "\<exists>now w3. ms_Getter (NewStaleLeasesSource dh d) w = ((int (length (filter (expired d now) (tbl w))), None), w3) \<and>
       tbl w3 = tbl w \<and> clock w \<le> now \<and> now \<le> clock w3"
proof -
  from all_counts [OF assms] obtain w1 ls where a: "dh_All dh w = (Inr ls, w1)" "length ls = length (tbl w)" "tbl w1 = tbl w"
    "up w1" "clock w \<le> clock w1" by blast
  from active_counts [OF a(4), of d] obtain now w3 ls3 where b: "dh_AllActive dh d w1 = (Inr ls3, w3)"
    "length ls3 = length (filter (\<lambda>x. \<not> expired d now x) (tbl w1))" "tbl w3 = tbl w1" "clock w1 \<le> now" "now \<le> clock w3" by blast
  have n: "int (length (tbl w)) - int (length (filter (\<lambda>x. \<not> expired d now x) (tbl w))) = int (length (filter (expired d now) (tbl w)))"
    using sum_length_filter_compl [of "expired d now" "tbl w"] by linarith
  from a show "\<exists>w1. ms_Getter (NewTotalLeasesSource dh) w = ((int (length (tbl w)), None), w1) \<and> tbl w1 = tbl w"
    by (simp add: NewTotalLeasesSource_def len_err_def)
  from a show "\<exists>w2. ms_Getter (NewFreeLeasesSource dh pool) w = ((int (BlockPoolSize pool) - int (length (tbl w)), None), w2) \<and> tbl w2 = tbl w"
    by (simp add: NewFreeLeasesSource_def len_err_def)
  show "\<exists>now w3. ms_Getter (NewStaleLeasesSource dh d) w = ((int (length (filter (expired d now) (tbl w))), None), w3) \<and>
       tbl w3 = tbl w \<and> clock w \<le> now \<and> now \<le> clock w3"
    using a b n by (intro exI [of _ now] exI [of _ w3]) (simp add: NewStaleLeasesSource_def len_err_def)
qed

end

lemma handler_exclusive:
  assumes "subnets_db db ts tbl clock up (=)"
  shows "exclusive_store (as_databaseHandler (NewDatabaseHandler mg db)) tbl clock up (=)"
  using handler_lease_store [OF assms] by (intro exclusive_store.intro exclusive_store_axioms.intro) simp_all

text \<open>
  On a healthy database the metrics count the table: the number of rows; the size of the block pool minus
  the number of rows; and the number of rows that are stale at the time of the query.  No
  metric changes the table.
\<close>

theorem metrics_count_the_table:
  assumes "subnets_db db ts tbl clock up (=)" "up w"
  shows "(\<exists>w1. ms_Getter (NewTotalLeasesSource (as_databaseHandler (NewDatabaseHandler mg db))) w
            = ((int (length (tbl w)), None), w1) \<and> tbl w1 = tbl w) \<and>
     (\<exists>w2. ms_Getter (NewFreeLeasesSource (as_databaseHandler (NewDatabaseHandler mg db)) pool) w
            = ((int (BlockPoolSize pool) - int (length (tbl w)), None), w2) \<and> tbl w2 = tbl w) \<and>
     (\<exists>now w3. ms_Getter (NewStaleLeasesSource (as_databaseHandler (NewDatabaseHandler mg db)) d) w
            = ((int (length (filter (expired d now) (tbl w))), None), w3) \<and>
         tbl w3 = tbl w \<and> clock w \<le> now \<and> now \<le> clock w3)"
  using exclusive_store.metric_values [OF handler_exclusive [OF assms(1)] assms(2), of mg] by blast

theorem metrics_count_the_table_witness:
  "\<exists>w1. ms_Getter (NewTotalLeasesSource (as_databaseHandler (NewDatabaseHandler no_migrations ref_db))) (world_at rows3)
     = ((3, None), w1) \<and> rw_rows w1 = rows3"
proof -
  have "healthy (world_at rows3)" by code_simp
  from metrics_count_the_table [OF ref_db_subnets_db this, of no_migrations] show ?thesis
    by (simp add: world_at_def rows3_def)
qed


text \<open>
  The metric of stale leases loses the error of its first query: when listing all leases fails and listing
  the active ones succeeds, the value is the negative number of active leases and no error is reported.
\<close>

theorem stale_leases_hides_error:
  assumes "dh_All lister w = (Inl e, w1)" "dh_AllActive lister seconds w1 = (Inr ls, w2)"
  shows "ms_Getter (NewStaleLeasesSource lister seconds) w = ((- int (length ls), None), w2)"
  using assms by (simp add: NewStaleLeasesSource_def len_err_def)

text \<open>The reference engine with a fault at the first statement.\<close>

theorem stale_leases_hides_error_witness:
  "fst (ms_Getter (NewStaleLeasesSource (as_databaseHandler (NewDatabaseHandler no_migrations ref_db)) 60)
     \<lparr>rw_rows = rows3, rw_now = 1000, rw_faults = [FailBefore]\<rparr>) = (- 2, None)"
proof -
  let ?h = "as_databaseHandler (NewDatabaseHandler no_migrations ref_db)"
  let ?w = "\<lparr>rw_rows = rows3, rw_now = 1000, rw_faults = [FailBefore]\<rparr>"
  obtain e w1 where 1: "dh_All ?h ?w = (Inl e, w1)"
    and 2: "\<exists>ls w2. dh_AllActive ?h 60 w1 = (Inr ls, w2) \<and> length ls = 2"
  proof -
    have "(case dh_All ?h ?w of (Inl e, w1) \<Rightarrow> (case dh_AllActive ?h 60 w1 of (Inr ls, _) \<Rightarrow> length ls = 2 | _ \<Rightarrow> False) | _ \<Rightarrow> False)"
      by code_simp
    then show thesis using that by (auto split: prod.splits sum.splits)
  qed
  from 2 obtain ls w2 where "dh_AllActive ?h 60 w1 = (Inr ls, w2)" "length ls = 2" by blast
  with stale_leases_hides_error [OF 1 this(1)] show ?thesis by simp
qed

end
