(* ===== verification/Datastore.thy ===== *)
theory Datastore
  imports Go_Json Go_Effects Go_Net "HOL-Library.AList" "HOL-Library.List_Lexorder" "HOL-Library.Char_ord"
begin

text \<open>
  The container store shared by the CNI plugin and the daemon: \<^verbatim>\<open>lib/serial\<close> (JSON in a file) and
  \<^verbatim>\<open>lib/datastore\<close>.  A Go map is an association list with distinct keys; \<^verbatim>\<open>json.Marshal\<close> prints a map in the order
  of its keys.  The metadata of a container is kept as the JSON value it is.  The locked file is a parameter; the locale
  \<open>locked_files\<close> states what is relied on, and the store refines a map from handles to containers.
\<close>

section \<open>Definitions\<close>

subsection \<open>Files and serialisation\<close>

text \<open>
  \<open>of_Read\<close> gives everything from the current position to the end, which is what the JSON decoder consumes;
  \<open>of_Write\<close> writes a text at the current position.
\<close>

record 'w OverwriteableFile =
  of_Read :: "('w, string) op"
  of_Write :: "string \<Rightarrow> ('w, unit) op"
  of_Seek :: "int \<Rightarrow> ('w, int) op"
  of_Truncate :: "int \<Rightarrow> ('w, unit) op"
  of_Close :: "('w, unit) op"

text \<open>
  \<^verbatim>\<open>json.NewDecoder(file).Decode\<close>: the first value of the text, what follows it is left alone; \<open>None\<close> is
  \<^verbatim>\<open>io.EOF\<close>, which an empty text gives.
\<close>

definition Decode :: "(json \<Rightarrow> 'a option) \<Rightarrow> string \<Rightarrow> 'a result option" where
  "Decode dec s =
     (if skip_space s = [] then None
      else Some (case read_value (2 * length s + 2) s of
             None \<Rightarrow> Inl syntax_err
           | Some (v, _) \<Rightarrow> (case dec v of None \<Rightarrow> Inl type_err | Some x \<Rightarrow> Inr x)))"

text \<open>\<open>DecodeAll\<close> starts from the value \<open>zero\<close> of the target, which stays when the file is empty.\<close>

definition DecodeAll :: "(json \<Rightarrow> 'a option) \<Rightarrow> 'a \<Rightarrow> 'w OverwriteableFile \<Rightarrow> ('w, 'a) op" where
  "DecodeAll dec zero file =
     try_do (of_Seek file 0) unchanged (\<lambda>_.
     try_do (of_Read file) unchanged (\<lambda>text.
       (case Decode dec text of
          None \<Rightarrow> ret zero
        | Some (Inl err) \<Rightarrow> fail err
        | Some (Inr x) \<Rightarrow> ret x)))"

definition EncodeAndOverwrite :: "('a \<Rightarrow> json) \<Rightarrow> 'w OverwriteableFile \<Rightarrow> 'a \<Rightarrow> ('w, unit) op" where
  "EncodeAndOverwrite enc file outData =
     try_do (of_Seek file 0) unchanged (\<lambda>_.
     try_do (of_Truncate file 0) unchanged (\<lambda>_.
     of_Write file (json_text (enc outData) @ [CHR 0x0A])))"

subsection \<open>Containers\<close>

record Container =
  Handle :: string
  Container_IP :: string
  Metadata :: json

type_synonym pool = "(string \<times> Container) list"

definition zero_Container :: Container where
  "zero_Container = \<lparr>Handle = [], Container_IP = [], Metadata = JNull\<rparr>"

fun dec_object :: "json \<Rightarrow> json option" where
  "dec_object (JObj ms) = Some (JObj ms)"
| "dec_object _ = None"

definition dec_Container :: "json \<Rightarrow> Container option" where
  "dec_Container j =
     (case members_of j of
        None \<Rightarrow> None
      | Some ms \<Rightarrow>
          (case (decode_field dec_string ''handle'' [] ms, decode_field dec_string ''ip'' [] ms,
                 decode_field dec_object ''metadata'' JNull ms) of
             ((h, e1), (i, e2), (m, e3)) \<Rightarrow>
               if e1 \<or> e2 \<or> e3 then None else Some \<lparr>Handle = h, Container_IP = i, Metadata = m\<rparr>))"

definition enc_Container :: "Container \<Rightarrow> json" where
  "enc_Container c = JObj [(''handle'', JStr (Handle c)), (''ip'', JStr (Container_IP c)), (''metadata'', Metadata c)]"

text \<open>Decoding into a map: every member is stored under its own key, a later one replaces an earlier one.\<close>

fun dec_members :: "(string \<times> json) list \<Rightarrow> pool \<Rightarrow> pool option" where
  "dec_members [] m = Some m"
| "dec_members ((k, v) # ms) m =
     (case dec_Container v of None \<Rightarrow> None | Some c \<Rightarrow> dec_members ms (AList.update k c m))"

definition dec_pool :: "json \<Rightarrow> pool option" where
  "dec_pool j = (case members_of j of None \<Rightarrow> None | Some ms \<Rightarrow> dec_members ms [])"

definition enc_pool :: "pool \<Rightarrow> json" where
  "enc_pool m = JObj (map (\<lambda>(k, c). (k, enc_Container c)) (sort_key fst m))"

subsection \<open>The store\<close>

record 'w Store =
  st_Decode :: "'w OverwriteableFile \<Rightarrow> ('w, pool) op"
  st_Encode :: "'w OverwriteableFile \<Rightarrow> pool \<Rightarrow> ('w, unit) op"
  st_LockerNew :: "string \<Rightarrow> ('w, 'w OverwriteableFile) op"

text \<open>The store of the program: the JSON serialiser over a file locker.\<close>

definition silk_Store :: "(string \<Rightarrow> ('w, 'w OverwriteableFile) op) \<Rightarrow> 'w Store" where
  "silk_Store newLocker =
     \<lparr>st_Decode = DecodeAll dec_pool [], st_Encode = EncodeAndOverwrite enc_pool, st_LockerNew = newLocker\<rparr>"

definition validate :: "string \<Rightarrow> string \<Rightarrow> go_error option" where
  "validate handle ip =
     (if handle = [] then Some (ErrorString ''invalid handle'')
      else if ParseIP ip = None then Some (ErrorString (''invalid ip: '' @ ip))
      else None)"

text \<open>\<^verbatim>\<open>defer file.Close()\<close>: the file is closed after the body on every path, the error of closing is dropped.\<close>

definition deferring :: "('w, unit) op \<Rightarrow> ('w, 'a) op \<Rightarrow> ('w, 'a) op" where
  "deferring close body w = (case body w of (r, w) \<Rightarrow> (case close w of (_, w) \<Rightarrow> (r, w)))"

definition Store_Add :: "'w Store \<Rightarrow> string \<Rightarrow> string \<Rightarrow> string \<Rightarrow> json \<Rightarrow> ('w, unit) op" where
  "Store_Add c filePath handle ip metadata =
     try_do (pure (of_err (validate handle ip))) unchanged (\<lambda>_.
     try_do (st_LockerNew c filePath) (errorf ''open lock: '') (\<lambda>file.
     deferring (of_Close file)
       (try_do (st_Decode c file) (errorf ''decoding file: '') (\<lambda>pool.
        try_do (st_Encode c file (AList.update handle \<lparr>Handle = handle, Container_IP = ip, Metadata = metadata\<rparr> pool))
          (errorf ''encode and overwrite: '') (\<lambda>_.
        ret ())))))"

definition Store_Delete :: "'w Store \<Rightarrow> string \<Rightarrow> string \<Rightarrow> ('w, Container) op" where
  "Store_Delete c filePath handle =
     (if handle = [] then fail (ErrorString ''invalid handle'')
      else
        try_do (st_LockerNew c filePath) (errorf ''open lock: '') (\<lambda>file.
        deferring (of_Close file)
          (try_do (st_Decode c file) (errorf ''decoding file: '') (\<lambda>pool.
           let deleted = (case map_of pool handle of None \<Rightarrow> zero_Container | Some d \<Rightarrow> d)
           in try_do (st_Encode c file (AList.delete handle pool)) (errorf ''encode and overwrite: '') (\<lambda>_.
              ret deleted)))))"

definition Store_ReadAll :: "'w Store \<Rightarrow> string \<Rightarrow> ('w, pool) op" where
  "Store_ReadAll c filePath =
     try_do (st_LockerNew c filePath) (errorf ''open lock: '') (\<lambda>file.
     deferring (of_Close file)
       (try_do (st_Decode c file) (errorf ''decoding file: '') (\<lambda>pool. ret pool)))"

subsection \<open>Files in memory\<close>

record mem_fs =
  fs_text :: "string \<Rightarrow> string"
  fs_pos :: "string \<Rightarrow> nat"
  fs_full :: bool

definition mem_file :: "string \<Rightarrow> mem_fs OverwriteableFile" where
  "mem_file path =
     \<lparr>of_Read = \<lambda>w. (Inr (drop (fs_pos w path) (fs_text w path)), w\<lparr>fs_pos := (fs_pos w)(path := length (fs_text w path))\<rparr>),
      of_Write = \<lambda>s w.
        if fs_full w then (Inl (ErrorString ''no space left on device''), w)
        else let t = fs_text w path; p = fs_pos w path
             in (Inr (), w\<lparr>fs_text := (fs_text w)(path := take p t @ replicate (p - length t) CHR 0x00 @ s @ drop (p + length s) t),
                           fs_pos := (fs_pos w)(path := p + length s)\<rparr>),
      of_Seek = \<lambda>off w. (Inr off, w\<lparr>fs_pos := (fs_pos w)(path := nat off)\<rparr>),
      of_Truncate = \<lambda>size w. (Inr (), w\<lparr>fs_text := (fs_text w)(path := take (nat size) (fs_text w path))\<rparr>),
      of_Close = \<lambda>w. (Inr (), w)\<rparr>"

definition mem_locker :: "string \<Rightarrow> (mem_fs, mem_fs OverwriteableFile) op" where
  "mem_locker path w = (Inr (mem_file path), w\<lparr>fs_pos := (fs_pos w)(path := 0)\<rparr>)"

section \<open>What is relied on of a locked file\<close>

text \<open>
  \<open>file_at f path\<close> says that \<open>f\<close> is open on \<open>path\<close>; \<open>text\<close> is the content of the files and \<open>pos\<close> the position.
  Operations that succeed have the effect documented for files; \<open>Close\<close> does not change a content.  A file that
  does not exist is created empty, so an absent file has the content \<open>[]\<close>.
\<close>

locale locked_files =
  fixes locker :: "string \<Rightarrow> ('w, 'w OverwriteableFile) op"
    and file_at :: "'w OverwriteableFile \<Rightarrow> string \<Rightarrow> bool"
    and ftext :: "'w \<Rightarrow> string \<Rightarrow> string"
    and pos :: "'w \<Rightarrow> string \<Rightarrow> nat"
  assumes open_file: "locker path w = (Inr f, w') \<Longrightarrow> file_at f path \<and> ftext w' = ftext w"
    and open_failed: "locker path w = (Inl e, w') \<Longrightarrow> ftext w' = ftext w"
    and seek: "file_at f path \<Longrightarrow> of_Seek f 0 w = (rs, w') \<Longrightarrow>
      ftext w' = ftext w \<and> ((\<exists>i. rs = Inr i) \<longrightarrow> pos w' path = 0)"
    and read: "file_at f path \<Longrightarrow> of_Read f w = (r, w') \<Longrightarrow>
      ftext w' = ftext w \<and> (\<forall>s. r = Inr s \<longrightarrow> s = drop (pos w path) (ftext w path))"
    and truncate: "file_at f path \<Longrightarrow> of_Truncate f 0 w = (Inr u, w') \<Longrightarrow>
      ftext w' = (ftext w)(path := []) \<and> pos w' path = pos w path"
    and write_empty: "file_at f path \<Longrightarrow> of_Write f s w = (Inr u, w') \<Longrightarrow> ftext w path = [] \<Longrightarrow> pos w path = 0 \<Longrightarrow>
      ftext w' = (ftext w)(path := s)"
    and close: "file_at f path \<Longrightarrow> of_Close f w = (rc, w') \<Longrightarrow> ftext w' = ftext w"

interpretation mem_fs: locked_files mem_locker "\<lambda>f path. f = mem_file path" fs_text fs_pos
  by unfold_locales (auto simp: mem_locker_def mem_file_def Let_def split: if_splits)

section \<open>A pool that is written is read back\<close>

text \<open>The map a text stands for; \<open>None\<close> when it cannot be decoded.\<close>

definition contents :: "string \<Rightarrow> (string \<rightharpoonup> Container) option" where
  "contents s = (case Decode dec_pool s of None \<Rightarrow> Some Map.empty | Some (Inl _) \<Rightarrow> None | Some (Inr m) \<Rightarrow> Some (map_of m))"

definition tidy_metadata :: "json \<Rightarrow> bool" where
  "tidy_metadata j \<longleftrightarrow> json_ok j \<and> (case j of JNull \<Rightarrow> True | JObj _ \<Rightarrow> True | _ \<Rightarrow> False)"

definition tidy :: "(string \<rightharpoonup> Container) \<Rightarrow> bool" where
  "tidy m \<longleftrightarrow> (\<forall>c\<in>ran m. tidy_metadata (Metadata c))"

lemma container_keys: "\<not> same_key ''handle'' ''ip''" "\<not> same_key ''handle'' ''metadata''" "\<not> same_key ''ip'' ''handle''"
  "\<not> same_key ''ip'' ''metadata''" "\<not> same_key ''metadata'' ''handle''" "\<not> same_key ''metadata'' ''ip''"
  by code_simp+

lemma dec_enc_Container:
  assumes "tidy_metadata (Metadata c)"
  shows "dec_Container (enc_Container c) = Some c"
  using assms
  by (cases "Metadata c")
     (simp_all add: dec_Container_def enc_Container_def decode_field_def container_keys keys_differ(1) tidy_metadata_def)

lemma json_ok_Container: "tidy_metadata (Metadata c) \<Longrightarrow> json_ok (enc_Container c)"
  by (simp add: enc_Container_def tidy_metadata_def)

lemma update_fresh: "k \<notin> fst ` set m \<Longrightarrow> AList.update k c m = m @ [(k, c)]"
  by (induction m) auto

lemma dec_members_distinct:
  assumes "distinct (map fst (acc @ m))" "\<forall>(k, c)\<in>set m. tidy_metadata (Metadata c)"
  shows "dec_members (map (\<lambda>(k, c). (k, enc_Container c)) m) acc = Some (acc @ m)"
  using assms
proof (induction m arbitrary: acc)
  case (Cons x m)
  obtain k c where x: "x = (k, c)" by (cases x)
  from Cons.prems x have "k \<notin> fst ` set acc" by auto
  with Cons.prems x Cons.IH [of "acc @ [x]"] show ?case by (simp add: dec_enc_Container update_fresh)
qed simp

lemma map_of_sort_key:
  assumes "distinct (map fst m)"
  shows "map_of (sort_key fst m) = map_of m"
proof -
  have "mset (map fst (sort_key fst m)) = mset (map fst m)" by simp
  then have "distinct (map fst (sort_key fst m))" using assms by (metis mset_eq_imp_distinct_iff)
  then show ?thesis using assms by (intro map_of_inject_set [THEN iffD2]) simp_all
qed

lemma dec_enc_pool:
  assumes "distinct (map fst m)" "tidy (map_of m)"
  shows "dec_pool (enc_pool m) = Some (sort_key fst m)"
proof -
  have "mset (map fst (sort_key fst m)) = mset (map fst m)" by simp
  then have d: "distinct (map fst (sort_key fst m))" using assms(1) by (metis mset_eq_imp_distinct_iff)
  have "\<forall>(k, c)\<in>set (sort_key fst m). tidy_metadata (Metadata c)"
    using assms by (auto simp: tidy_def ran_def)
  with d dec_members_distinct [of "[]" "sort_key fst m"] show ?thesis by (simp add: dec_pool_def enc_pool_def)
qed

lemma json_ok_pool:
  assumes "distinct (map fst m)" "tidy (map_of m)"
  shows "json_ok (enc_pool m)"
  using assms by (auto simp: enc_pool_def list_all_iff tidy_def ran_def intro!: json_ok_Container)

lemma Decode_text:
  assumes "json_ok j" "dec j = Some x"
  shows "Decode dec (json_text j @ [CHR 0x0A]) = Some (Inr x)"
proof -
  obtain c t where c: "json_text j = c # t" "\<not> is_space c" using assms(1) by (rule json_text_first)
  have "read_value (2 * length (json_text j @ [CHR 0x0A]) + 2) (json_text j @ [CHR 0x0A]) = Some (j, [CHR 0x0A])"
    using assms(1) by (intro read_value_text(1)) simp_all
  with c assms(2) show ?thesis by (simp add: Decode_def)
qed

lemma contents_text:
  assumes "distinct (map fst m)" "tidy (map_of m)"
  shows "contents (json_text (enc_pool m) @ [CHR 0x0A]) = Some (map_of m)"
  using Decode_text [of _ dec_pool, OF json_ok_pool [OF assms] dec_enc_pool [OF assms]]
  by (simp add: contents_def map_of_sort_key [OF assms(1)])

lemma dec_members_keys: "dec_members ms acc = Some m \<Longrightarrow> distinct (map fst acc) \<Longrightarrow> distinct (map fst m)"
  by (induction ms acc rule: dec_members.induct) (auto split: option.splits simp: distinct_update)

lemma dec_pool_keys: "dec_pool j = Some m \<Longrightarrow> distinct (map fst m)"
  by (auto simp: dec_pool_def split: option.splits dest: dec_members_keys)

lemma Decode_keys: "Decode dec_pool s = Some (Inr m) \<Longrightarrow> distinct (map fst m)"
  by (auto simp: Decode_def split: if_splits option.splits dest: dec_pool_keys)

section \<open>The store refines a map\<close>

lemma deferring_cases:
  "deferring close body w = (r, w') \<longleftrightarrow> (\<exists>w1 rc. body w = (r, w1) \<and> close w1 = (rc, w'))"
  by (auto simp: deferring_def split: prod.splits)

context locked_files
begin

lemma decoded:
  assumes "file_at f path" "DecodeAll dec_pool [] f w = (Inr m, w')"
  shows "ftext w' = ftext w \<and> contents (ftext w path) = Some (map_of m) \<and> distinct (map fst m)"
proof -
  from assms(2) obtain i w1 s w2 where s: "of_Seek f 0 w = (Inr i, w1)" "of_Read f w1 = (Inr s, w2)"
    "(case Decode dec_pool s of None \<Rightarrow> ret [] | Some (Inl err) \<Rightarrow> fail err | Some (Inr x) \<Rightarrow> ret x) w2 = (Inr m, w')"
    by (auto simp: DecodeAll_def try_do_Inr)
  have "ftext w1 = ftext w" "pos w1 path = 0" using seek [OF assms(1) s(1)] by auto
  moreover have "ftext w2 = ftext w1" "s = drop (pos w1 path) (ftext w1 path)" using read [OF assms(1) s(2)] by auto
  ultimately have "ftext w2 = ftext w" "s = ftext w path" by simp_all
  with s(3) show ?thesis
    by (auto simp: contents_def split: option.splits sum.splits dest: Decode_keys)
qed

lemma encoded:
  assumes "file_at f path" "EncodeAndOverwrite enc_pool f m w = (Inr u, w')"
  shows "ftext w' = (ftext w)(path := json_text (enc_pool m) @ [CHR 0x0A])"
proof -
  from assms(2) obtain i w1 w2 where s: "of_Seek f 0 w = (Inr i, w1)" "of_Truncate f 0 w1 = (Inr (), w2)"
    "of_Write f (json_text (enc_pool m) @ [CHR 0x0A]) w2 = (Inr u, w')"
    by (auto simp: EncodeAndOverwrite_def try_do_Inr)
  have 1: "ftext w1 = ftext w" "pos w1 path = 0" using seek [OF assms(1) s(1)] by auto
  have 2: "ftext w2 = (ftext w1)(path := [])" "pos w2 path = pos w1 path" using truncate [OF assms(1) s(2)] by auto
  have "ftext w' = (ftext w2)(path := json_text (enc_pool m) @ [CHR 0x0A])"
    using write_empty [OF assms(1) s(3)] 1 2 by simp
  with 1 2 show ?thesis by simp
qed

lemma add_refines:
  assumes "Store_Add (silk_Store locker) path h ip md w = (Inr u, w')" "tidy_metadata md"
    and "contents (ftext w path) = Some m" "tidy m"
  shows "ftext w' = (ftext w)(path := ftext w' path) \<and>
    contents (ftext w' path) = Some (m(h \<mapsto> \<lparr>Handle = h, Container_IP = ip, Metadata = md\<rparr>))"
proof -
  let ?c = "\<lparr>Handle = h, Container_IP = ip, Metadata = md\<rparr>"
  from assms(1) obtain f w1 w2 w3 rc pool where s: "locker path w = (Inr f, w1)" "DecodeAll dec_pool [] f w1 = (Inr pool, w2)"
    "EncodeAndOverwrite enc_pool f (AList.update h ?c pool) w2 = (Inr (), w3)" "of_Close f w3 = (rc, w')"
    by (auto simp: Store_Add_def silk_Store_def try_do_Inr deferring_cases)
  from open_file [OF s(1)] have f: "file_at f path" "ftext w1 = ftext w" by auto
  from decoded [OF f(1) s(2)] f(2) assms(3) have p: "ftext w2 = ftext w" "map_of pool = m" "distinct (map fst pool)" by auto
  let ?m = "AList.update h ?c pool"
  have d: "distinct (map fst ?m)" using p(3) by (rule distinct_update)
  have m: "map_of ?m = m(h \<mapsto> ?c)" using p(2) by (simp add: update_conv')
  have t: "tidy (map_of ?m)" unfolding m using assms(2,4) by (auto simp: tidy_def ran_def)
  have "ftext w' = (ftext w)(path := json_text (enc_pool ?m) @ [CHR 0x0A])"
    using close [OF f(1) s(4)] encoded [OF f(1) s(3)] p(1) by simp
  with contents_text [OF d t] m show ?thesis by simp
qed

lemma delete_refines:
  assumes "Store_Delete (silk_Store locker) path h w = (Inr d, w')"
    and "contents (ftext w path) = Some m" "tidy m"
  shows "ftext w' = (ftext w)(path := ftext w' path) \<and> contents (ftext w' path) = Some (m(h := None)) \<and>
    d = (case m h of None \<Rightarrow> zero_Container | Some c \<Rightarrow> c)"
proof -
  from assms(1) obtain f w1 w2 w3 rc pool where s: "locker path w = (Inr f, w1)" "DecodeAll dec_pool [] f w1 = (Inr pool, w2)"
    "EncodeAndOverwrite enc_pool f (AList.delete h pool) w2 = (Inr (), w3)" "of_Close f w3 = (rc, w')"
    "d = (case map_of pool h of None \<Rightarrow> zero_Container | Some c \<Rightarrow> c)"
    by (auto simp: Store_Delete_def silk_Store_def try_do_Inr deferring_cases Let_def split: if_splits)
  from open_file [OF s(1)] have f: "file_at f path" "ftext w1 = ftext w" by auto
  from decoded [OF f(1) s(2)] f(2) assms(2) have p: "ftext w2 = ftext w" "map_of pool = m" "distinct (map fst pool)" by auto
  let ?m = "AList.delete h pool"
  have dk: "distinct (map fst ?m)" using p(3) by (rule distinct_delete)
  have m: "map_of ?m = m(h := None)" using p(2) by (simp add: delete_conv')
  have t: "tidy (map_of ?m)" unfolding m using assms(3) by (auto simp: tidy_def ran_def split: if_splits)
  have "ftext w' = (ftext w)(path := json_text (enc_pool ?m) @ [CHR 0x0A])"
    using close [OF f(1) s(4)] encoded [OF f(1) s(3)] p(1) by simp
  with contents_text [OF dk t] m s(5) p(2) show ?thesis by simp
qed

lemma readall_refines:
  assumes "Store_ReadAll (silk_Store locker) path w = (Inr pool, w')"
  shows "ftext w' = ftext w \<and> contents (ftext w path) = Some (map_of pool) \<and> distinct (map fst pool)"
proof -
  from assms obtain f w1 w2 rc where s: "locker path w = (Inr f, w1)" "DecodeAll dec_pool [] f w1 = (Inr pool, w2)"
    "of_Close f w2 = (rc, w')"
    by (auto simp: Store_ReadAll_def silk_Store_def try_do_Inr deferring_cases)
  from open_file [OF s(1)] have f: "file_at f path" "ftext w1 = ftext w" by auto
  from decoded [OF f(1) s(2)] close [OF f(1) s(3)] f(2) show ?thesis by simp
qed

end

text \<open>
  C19.  The store is a map from handles to containers kept in a file.  When the file holds the map \<open>m\<close>: adding a
  container makes it \<open>m\<close> with the handle bound to that container; deleting gives back the old
  container and makes it \<open>m\<close> without the handle; reading gives \<open>m\<close> and leaves the file alone.  Other files
  are not touched.
\<close>

theorem datastore_refines_map:
  assumes "locked_files locker file_at ftext pos"
    and "contents (ftext w path) = Some m" "tidy m" "tidy_metadata md"
  shows "(Store_Add (silk_Store locker) path h ip md w = (Inr u, w1) \<longrightarrow>
       ftext w1 = (ftext w)(path := ftext w1 path) \<and>
       contents (ftext w1 path) = Some (m(h \<mapsto> \<lparr>Handle = h, Container_IP = ip, Metadata = md\<rparr>))) \<and>
     (Store_Delete (silk_Store locker) path h w = (Inr d, w2) \<longrightarrow>
       ftext w2 = (ftext w)(path := ftext w2 path) \<and> contents (ftext w2 path) = Some (m(h := None)) \<and>
       d = (case m h of None \<Rightarrow> zero_Container | Some c \<Rightarrow> c)) \<and>
     (Store_ReadAll (silk_Store locker) path w = (Inr pool, w3) \<longrightarrow> map_of pool = m \<and> ftext w3 = ftext w)"
  using locked_files.add_refines [OF assms(1) _ assms(4,2,3)] locked_files.delete_refines [OF assms(1) _ assms(2,3)]
    locked_files.readall_refines [OF assms(1)] assms(2) by fastforce

definition empty_fs :: "bool \<Rightarrow> mem_fs" where
  "empty_fs full = \<lparr>fs_text = \<lambda>_. [], fs_pos = \<lambda>_. 0, fs_full = full\<rparr>"

lemma mem_add_ok:
  assumes "validate h ip = None" "fs_text w path = []" "\<not> fs_full w"
  shows "\<exists>w1. Store_Add (silk_Store mem_locker) path h ip md w = (Inr (), w1)"
  using assms
  by (simp add: Store_Add_def silk_Store_def DecodeAll_def EncodeAndOverwrite_def deferring_def mem_locker_def mem_file_def
      Decode_def skip_space_def try_do_def Let_def del: json_text.simps)

theorem datastore_refines_map_witness:
  "\<exists>w1. Store_Add (silk_Store mem_locker) ''store'' ''c1'' ''10.255.0.5'' JNull (empty_fs False) = (Inr (), w1) \<and>
     contents (fs_text w1 ''store'') = Some [''c1'' \<mapsto> \<lparr>Handle = ''c1'', Container_IP = ''10.255.0.5'', Metadata = JNull\<rparr>]"
proof -
  let ?w = "empty_fs False"
  have c: "contents (fs_text ?w ''store'') = Some Map.empty"
    by (simp add: contents_def Decode_def empty_fs_def skip_space_def)
  have "validate ''c1'' ''10.255.0.5'' = None" by code_simp
  then obtain w1 where a: "Store_Add (silk_Store mem_locker) ''store'' ''c1'' ''10.255.0.5'' JNull ?w = (Inr (), w1)"
    using mem_add_ok [of "''c1''" "''10.255.0.5''" ?w "''store''"] by (auto simp: empty_fs_def)
  have "tidy Map.empty" "tidy_metadata JNull" by (simp_all add: tidy_def tidy_metadata_def)
  then have r: "contents (fs_text w1 ''store'') = Some [''c1'' \<mapsto> \<lparr>Handle = ''c1'', Container_IP = ''10.255.0.5'', Metadata = JNull\<rparr>]"
    using datastore_refines_map [where w = ?w and path = "''store''" and m = Map.empty and md = JNull
        and h = "''c1''" and ip = "''10.255.0.5''" and ?w1.0 = w1, OF mem_fs.locked_files_axioms c] a by simp
  show ?thesis by (rule exI [of _ w1], rule conjI [OF a r])
qed


definition store_text :: string where
  "store_text = json_text (enc_pool [(''c0'', \<lparr>Handle = ''c0'', Container_IP = ''10.255.0.4'', Metadata = JNull\<rparr>)]) @ [CHR 0x0A]"

lemma store_text_decodes:
  "Decode dec_pool store_text = Some (Inr [(''c0'', \<lparr>Handle = ''c0'', Container_IP = ''10.255.0.4'', Metadata = JNull\<rparr>)])"
proof -
  let ?c0 = "\<lparr>Handle = ''c0'', Container_IP = ''10.255.0.4'', Metadata = JNull\<rparr>"
  have t: "distinct (map fst [(''c0'', ?c0)])" "tidy (map_of [(''c0'', ?c0)])" by (simp_all add: tidy_def tidy_metadata_def)
  show ?thesis
    unfolding store_text_def
    using Decode_text [of _ dec_pool, OF json_ok_pool [OF t] dec_enc_pool [OF t]] by simp
qed


end
