(* ===== verification/Daemon.thy ===== *)
theory Daemon
  imports Vtep_System Controller_Main Datastore
begin

text \<open>
  The daemon of a host: the planner with its failure detector (\<^verbatim>\<open>daemon/planner\<close>), the poller (\<^verbatim>\<open>daemon/poller\<close>), the
  start-up of \<^verbatim>\<open>cmd/silk-daemon/main.go\<close> and the teardown job \<^verbatim>\<open>cmd/silk-teardown/main.go\<close>.  Times and durations are in
  nanoseconds; the current time is a function of the world.  The poller receives a list of events; a list that ends
  before the poller does is a poller that still waits.
\<close>

section \<open>Definitions\<close>

subsection \<open>Planner\<close>

record NetworkInfo =
  ni_OverlaySubnet :: string
  ni_MTU :: int

record gracefulDetector =
  graceDuration :: int
  lastSuccessTime :: int

definition NewGracefulDetector :: "int \<Rightarrow> int \<Rightarrow> gracefulDetector" where
  "NewGracefulDetector gd now = \<lparr>graceDuration = gd, lastSuccessTime = now\<rparr>"

definition GotSuccess :: "int \<Rightarrow> gracefulDetector \<Rightarrow> gracefulDetector" where
  "GotSuccess now fed = fed\<lparr>lastSuccessTime := now\<rparr>"

definition IsFatal :: "int \<Rightarrow> gracefulDetector \<Rightarrow> go_error \<Rightarrow> bool" where
  "IsFatal now fed err \<longleftrightarrow> (if isNonRetriable err then True else now - lastSuccessTime fed \<ge> graceDuration fed)"

record 'w metricSender =
  SendValue :: "string \<Rightarrow> int \<Rightarrow> string \<Rightarrow> 'w \<Rightarrow> 'w"
  IncrementCounter :: "string \<Rightarrow> 'w \<Rightarrow> 'w"

record 'w controllerClient =
  cc_GetActiveLeases :: "('w, Lease list) op"
  cc_RenewSubnetLease :: "Lease \<Rightarrow> 'w \<Rightarrow> go_error option \<times> 'w"

record 'w VXLANPlanner =
  vp_ControllerClient :: "'w controllerClient"
  vp_Converge :: "Lease list \<Rightarrow> ('w, unit) op"
  vp_Lease :: Lease
  vp_MetricSender :: "'w metricSender"
  vp_now :: "'w \<Rightarrow> int"

text \<open>The detector is part of the state of a cycle.\<close>

definition DoCycle :: "'w VXLANPlanner \<Rightarrow> gracefulDetector \<times> 'w \<Rightarrow> go_error option \<times> gracefulDetector \<times> 'w" where
  "DoCycle v = (\<lambda>(fed, w).
     let inc = IncrementCounter (vp_MetricSender v) in
     (case cc_RenewSubnetLease (vp_ControllerClient v) (vp_Lease v) w of
        (Some err, w) \<Rightarrow>
          (let w = inc ''renewFailure'' w in
           if IsFatal (vp_now v w) fed err then (Some (FatalError (''renew lease: '' @ Error err)), fed, w)
           else (Some (errorf ''renew lease: '' err), fed, w))
      | (None, w) \<Rightarrow>
          (let fed = GotSuccess (vp_now v w) fed; w = inc ''renewSuccess'' w in
           case cc_GetActiveLeases (vp_ControllerClient v) w of
             (Inl err, w) \<Rightarrow> (Some (errorf ''get routable leases: '' err), fed, w)
           | (Inr leases, w) \<Rightarrow>
               (let w = SendValue (vp_MetricSender v) ''numberLeases'' (int (length leases)) [] w in
                case vp_Converge v leases w of
                  (Inl err, w) \<Rightarrow> (Some (errorf ''converge leases: '' err), fed, inc ''convergeFailure'' w)
                | (Inr _, w) \<Rightarrow> (None, fed, inc ''convergeSuccess'' w)))))"

subsection \<open>Poller\<close>

datatype poll_event = Signal | After

record 's Poller =
  PollInterval :: int
  SingleCycleFunc :: "'s \<Rightarrow> go_error option \<times> 's"

definition restart_message :: string where
  "restart_message = ''This cell must be restarted (run '' @ [CHR 0x22] @ ''bosh restart <job>'' @ [CHR 0x22] @ ''): ''"

definition runFunction :: "'s Poller \<Rightarrow> 's \<Rightarrow> go_error option \<times> 's" where
  "runFunction m s =
     (case SingleCycleFunc m s of
        (None, s) \<Rightarrow> (None, s)
      | (Some err, s) \<Rightarrow> if isFatalError err then (Some (errorf restart_message err), s) else (None, s))"

text \<open>\<open>wait\<close> is the passing of the poll interval.  The result is \<open>None\<close> while the poller runs.\<close>

fun poll_loop :: "'s Poller \<Rightarrow> (int \<Rightarrow> 's \<Rightarrow> 's) \<Rightarrow> poll_event list \<Rightarrow> 's \<Rightarrow> go_error option option \<times> 's" where
  "poll_loop m wait [] s = (None, s)"
| "poll_loop m wait (Signal # evs) s = (Some None, s)"
| "poll_loop m wait (After # evs) s =
     (case runFunction m (wait (PollInterval m) s) of
        (Some err, s) \<Rightarrow> (Some (Some err), s)
      | (None, s) \<Rightarrow> poll_loop m wait evs s)"

definition Poller_Run :: "'s Poller \<Rightarrow> (int \<Rightarrow> 's \<Rightarrow> 's) \<Rightarrow> poll_event list \<Rightarrow> 's \<Rightarrow> go_error option option \<times> 's" where
  "Poller_Run m wait evs s =
     (case runFunction m s of
        (Some err, s) \<Rightarrow> (Some (Some err), s)
      | (None, s) \<Rightarrow> poll_loop m wait evs s)"

subsection \<open>The process\<close>

text \<open>\<open>de_*\<close> are the packages the process uses.\<close>

record 'w daemon_env =
  de_io :: "'w ioutil"
  de_NewClientTLSConfig :: "string \<Rightarrow> string \<Rightarrow> string \<Rightarrow> ('w, unit) op"
  de_dropsonde :: "string \<Rightarrow> string \<Rightarrow> ('w, unit) op"
  de_httpClient :: "string \<Rightarrow> string \<Rightarrow> string \<Rightarrow> 'w \<Rightarrow> (int \<times> string result) result \<times> 'w"
  de_newRequest :: "string \<Rightarrow> string \<Rightarrow> go_error option"
  de_kernel :: "'w kernel"
  de_NewLocker :: "string \<Rightarrow> ('w, 'w OverwriteableFile) op"
  de_metrics :: "'w metricSender"
  de_now :: "'w \<Rightarrow> int"

definition enc_NetworkInfo :: "NetworkInfo \<Rightarrow> json" where
  "enc_NetworkInfo i = JObj [(''overlay_subnet'', JStr (ni_OverlaySubnet i)), (''mtu'', enc_int (ni_MTU i))]"

definition dec_NetworkInfo :: "json \<Rightarrow> NetworkInfo option" where
  "dec_NetworkInfo j =
     (case members_of j of
        None \<Rightarrow> None
      | Some ms \<Rightarrow>
          if mistyped [''overlay_subnet''] [] [''mtu''] [] ms then None
          else Some \<lparr>ni_OverlaySubnet = field_s ms ''overlay_subnet'', ni_MTU = field_i ms ''mtu''\<rparr>)"

definition vtepFactory :: "'w daemon_env \<Rightarrow> 'w Factory" where
  "vtepFactory env = \<lparr>fa_NetlinkAdapter = as_netlinkAdapter (de_kernel env)\<rparr>"

definition vtepConfigCreator :: "'w daemon_env \<Rightarrow> 'w vtep_ConfigCreator" where
  "vtepConfigCreator env = \<lparr>cc_NetAdapter = as_netAdapter (de_kernel env)\<rparr>"

definition daemon_client :: "'w daemon_env \<Rightarrow> client_Config \<Rightarrow> 'w Client" where
  "daemon_client env cfg = NewClient (de_httpClient env) (de_newRequest env) (cl_ConnectivityServerURL cfg)"

definition daemon_acquireLease :: "'w daemon_env \<Rightarrow> client_Config \<Rightarrow> ('w, Lease) op" where
  "daemon_acquireLease env cfg =
     (let client = daemon_client env cfg in
      try_do
        (if cl_SingleIPOnly cfg
         then try_do (AcquireSingleOverlayIPLease client (cl_UnderlayIP cfg)) (errorf ''acquire subnet lease: '') ret
         else try_do (Client_AcquireSubnetLease client (cl_UnderlayIP cfg)) (errorf ''acquire subnet lease: '') ret)
        unchanged (\<lambda>lease.
      if cl_HealthCheckPort cfg = 0 then fail (ErrorString (''invalid health check port: '' @ sprintf_d (cl_HealthCheckPort cfg)))
      else
        try_do (ConfigCreator_Create (vtepConfigCreator env) cfg lease) (errorf ''create vtep config: '') (\<lambda>vtepConf.
        try_do (CreateVTEP (vtepFactory env) vtepConf) (errorf ''create vtep: '') (\<lambda>_.
        ret lease))))"

definition leaseFromVTEPState :: "client_Config \<Rightarrow> HardwareAddr \<Rightarrow> IP \<Rightarrow> Lease" where
  "leaseFromVTEPState clientConfig overlayHwAddr overlayIP =
     (let overlaySubnet = \<lparr>IPNet_IP = overlayIP, IPNet_Mask = CIDRMask (cl_SubnetPrefixLength clientConfig) 32\<rparr>
      in \<lparr>UnderlayIP = cl_UnderlayIP clientConfig, OverlaySubnet = IPNet_String overlaySubnet,
          OverlayHardwareAddr = HardwareAddr_String overlayHwAddr\<rparr>)"

definition discoverLocalLease :: "'w daemon_env \<Rightarrow> client_Config \<Rightarrow> ('w, Lease) op" where
  "discoverLocalLease env clientConfig =
     try_do (GetVTEPState (vtepFactory env) (cl_VTEPName clientConfig)) (errorf ''get vtep overlay ip: '')
       (\<lambda>(overlayHwAddr, overlayIP, _). ret (leaseFromVTEPState clientConfig overlayHwAddr overlayIP))"

definition daemon_getNetworkInfo :: "'w daemon_env \<Rightarrow> client_Config \<Rightarrow> Lease \<Rightarrow> ('w, NetworkInfo) op" where
  "daemon_getNetworkInfo env clientConfig lease =
     try_do (GetVTEPState (vtepFactory env) (cl_VTEPName clientConfig)) (errorf ''get vtep mtu: '')
       (\<lambda>(_, _, mtu). ret \<lparr>ni_OverlaySubnet = OverlaySubnet lease, ni_MTU = mtu\<rparr>)"

definition deleteAndAcquire :: "'w daemon_env \<Rightarrow> client_Config \<Rightarrow> ('w, Lease) op" where
  "deleteAndAcquire env cfg =
     try_do (DeleteVTEP (vtepFactory env) (cl_VTEPName cfg)) (errorf ''delete vtep: '') (\<lambda>_. daemon_acquireLease env cfg)"

text \<open>The response of the health check server to every request.\<close>

definition buildHealthCheckServer :: "int \<Rightarrow> NetworkInfo \<Rightarrow> (string \<times> 'w handler) result" where
  "buildHealthCheckServer healthCheckPort networkInfo =
     (case json_Marshal enc_NetworkInfo networkInfo of
        Inl err \<Rightarrow> Inl (errorf ''unmarshaling network info: '' err)
      | Inr networkBytes \<Rightarrow>
          Inr (address ''127.0.0.1'' healthCheckPort, \<lambda>req w. (\<lparr>rs_status = 200, rs_body = networkBytes\<rparr>, w)))"

text \<open>
  Giving up a lease that cannot be used: allowed when the store has no container, an error with the
  number of containers otherwise.
\<close>

definition reacquire :: "'w daemon_env \<Rightarrow> client_Config \<Rightarrow> string \<Rightarrow> ('w, Lease) op" where
  "reacquire env cfg msg =
     try_do (Store_ReadAll (silk_Store (de_NewLocker env)) (cl_Datastore cfg)) (errorf ''read datastore: '') (\<lambda>metadata.
     if length metadata \<noteq> 0 then fail (ErrorString (msg @ itoa (length metadata)))
     else deleteAndAcquire env cfg)"

definition daemon_lease :: "'w daemon_env \<Rightarrow> client_Config \<Rightarrow> IPNet \<Rightarrow> ('w, Lease) op" where
  "daemon_lease env cfg overlayNetwork w =
     (case discoverLocalLease env cfg w of
        (Inl _, w) \<Rightarrow> daemon_acquireLease env cfg w
      | (Inr lease, w) \<Rightarrow>
          try_do (pure (ParseCIDR (OverlaySubnet lease))) (errorf ''parse local subnet CIDR: '') (\<lambda>(_, localSubnet).
          try_do
            (if \<not> Contains overlayNetwork (IPNet_IP localSubnet)
             then reacquire env cfg ''discovered lease is not in overlay network and has containers: ''
             else ret lease)
            unchanged (\<lambda>lease w.
          (case Client_RenewSubnetLease (daemon_client env cfg) lease w of
             (Some err, w) \<Rightarrow> reacquire env cfg ''renew subnet lease with containers: '' w
           | (None, w) \<Rightarrow> (Inr lease, w)))) w)"

datatype 'w daemon_member =
    HealthServer string "'w handler"
  | VxlanPoller "(gracefulDetector \<times> 'w) Poller" gracefulDetector
  | Debug string
  | Uptime int

definition vxlan_planner :: "'w daemon_env \<Rightarrow> client_Config \<Rightarrow> Lease \<Rightarrow> IPNet \<Rightarrow> IPNet \<Rightarrow> Interface \<Rightarrow> 'w VXLANPlanner" where
  "vxlan_planner env cfg lease overlayNetwork localSubnet vxlanIface =
     \<lparr>vp_ControllerClient = \<lparr>cc_GetActiveLeases = GetActiveLeases (daemon_client env cfg),
        cc_RenewSubnetLease = Client_RenewSubnetLease (daemon_client env cfg)\<rparr>,
      vp_Converge = Converge \<lparr>cv_OverlayNetwork = overlayNetwork, cv_LocalSubnet = localSubnet, cv_LocalVTEP = vxlanIface,
        cv_NetlinkAdapter = as_netlinkAdapter (de_kernel env)\<rparr>,
      vp_Lease = lease, vp_MetricSender = de_metrics env, vp_now = de_now env\<rparr>"

definition seconds :: "int \<Rightarrow> int" where
  "seconds n = n * 1000000000"

definition daemon_members :: "'w daemon_env \<Rightarrow> client_Config \<Rightarrow> ('w, (string \<times> 'w daemon_member) list) op" where
  "daemon_members env cfg =
     try_do (pure (ParseCIDR (cl_OverlayNetwork cfg))) (errorf ''parse overlay network CIDR: '') (\<lambda>(_, overlayNetwork).
     try_do (daemon_lease env cfg overlayNetwork) unchanged (\<lambda>lease.
     try_do (daemon_getNetworkInfo env cfg lease) (errorf ''get network info: '') (\<lambda>networkInfo.
     try_do (pure (buildHealthCheckServer (cl_HealthCheckPort cfg) networkInfo)) (errorf ''create health check server: '')
       (\<lambda>(healthAddress, healthHandler).
     try_do (pure (ParseCIDR (OverlaySubnet lease))) (errorf ''parse local subnet CIDR: '') (\<lambda>(_, localSubnet).
     try_do (InterfaceByName (de_kernel env) (cl_VTEPName cfg)) (errorf ''find local VTEP: '') (\<lambda>vxlanIface.
     (\<lambda>w. ret
       [(''server'', HealthServer healthAddress healthHandler),
        (''vxlan-poller'', VxlanPoller
           \<lparr>PollInterval = seconds (cl_PollInterval cfg),
            SingleCycleFunc = DoCycle (vxlan_planner env cfg lease overlayNetwork localSubnet vxlanIface)\<rparr>
           (NewGracefulDetector (seconds (cl_PartitionToleranceSeconds cfg)) (de_now env w))),
        (''debug-server'', Debug (address ''127.0.0.1'' (cl_DebugServerPort cfg))),
        (''metrics-emitter'', Uptime (seconds 30))] w)))))))"

definition daemon_mainWithError ::
  "'w daemon_env \<Rightarrow> ((string \<times> 'w daemon_member) list \<Rightarrow> ('w, unit) op) \<Rightarrow> string \<Rightarrow> ('w, unit) op" where
  "daemon_mainWithError env run configFilePath =
     try_do (LoadConfig (de_io env) configFilePath) (errorf ''load config file: '') (\<lambda>cfg.
     try_do (de_NewClientTLSConfig env (cl_ClientCertFile cfg) (cl_ClientKeyFile cfg) (cl_ServerCACertFile cfg))
       (errorf ''create tls config: '') (\<lambda>_.
     try_do (de_dropsonde env (address ''127.0.0.1'' (cl_MetronPort cfg)) ''silk-daemon'') (errorf ''initializing dropsonde: '') (\<lambda>_.
     try_do (daemon_members env cfg) unchanged (\<lambda>members.
     run members))))"

text \<open>\<^verbatim>\<open>log.Fatalf\<close> exits with 1.\<close>

definition daemon_main :: "'w daemon_env \<Rightarrow> ((string \<times> 'w daemon_member) list \<Rightarrow> ('w, unit) op) \<Rightarrow> string \<Rightarrow> 'w \<Rightarrow> nat \<times> 'w" where
  "daemon_main env run configFilePath w =
     (case daemon_mainWithError env run configFilePath w of (Inl _, w) \<Rightarrow> (1, w) | (Inr _, w) \<Rightarrow> (0, w))"

subsection \<open>Teardown\<close>

text \<open>The result is the list of the errors that \<^verbatim>\<open>multierror\<close> collected; it is empty on success.\<close>

definition teardown_mainWithError :: "'w daemon_env \<Rightarrow> string \<Rightarrow> 'w \<Rightarrow> go_error list \<times> 'w" where
  "teardown_mainWithError env configFilePath w =
     (case LoadConfig (de_io env) configFilePath w of
        (Inl err, w) \<Rightarrow> ([errorf ''load config file: '' err], w)
      | (Inr cfg, w) \<Rightarrow>
          (case de_NewClientTLSConfig env (cl_ClientCertFile cfg) (cl_ClientKeyFile cfg) (cl_ServerCACertFile cfg) w of
             (Inl err, w) \<Rightarrow> ([errorf ''create tls config: '' err], w)
           | (Inr _, w) \<Rightarrow>
               (case Client_ReleaseSubnetLease (daemon_client env cfg) (cl_UnderlayIP cfg) w of
                  (released, w) \<Rightarrow>
                    (let errList = (case released of Some err \<Rightarrow> [errorf ''release subnet lease: '' err] | None \<Rightarrow> [])
                     in case DeleteVTEP (vtepFactory env) (cl_VTEPName cfg) w of
                          (Inl err, w) \<Rightarrow> (errList @ [errorf ''delete vtep: '' err], w)
                        | (Inr _, w) \<Rightarrow> (errList, w)))))"

definition teardown_main :: "'w daemon_env \<Rightarrow> string \<Rightarrow> 'w \<Rightarrow> nat \<times> 'w" where
  "teardown_main env configFilePath w =
     (case teardown_mainWithError env configFilePath w of (errs, w) \<Rightarrow> (if errs = [] then 0 else 1, w))"

end
