(* ===== verification/Cni_Config.thy ===== *)
theory Cni_Config
  imports Daemon Hwaddr
begin

text \<open>
  What the plugin computes before it touches a device: the settings of a container of \<^verbatim>\<open>cni/config\<close> with the result
  that is reported for them, the configuration of the \<^verbatim>\<open>host-local\<close> address allocator, and the network information of
  \<^verbatim>\<open>cni/netinfo\<close>, from the daemon or from a flannel file.  The values of the CNI library have the fields the
  program sets or reads.
\<close>

section \<open>Definitions\<close>

subsection \<open>Texts\<close>

text \<open>\<^verbatim>\<open>%q\<close>, for a text that is valid UTF-8 without unprintable characters beyond ASCII.\<close>

definition quote_byte :: "char \<Rightarrow> string" where
  "quote_byte c =
     (if c = CHR 0x22 then [CHR 0x5C, CHR 0x22] else if c = CHR 0x5C then [CHR 0x5C, CHR 0x5C]
      else if c = CHR 0x07 then [CHR 0x5C, CHR ''a''] else if c = CHR 0x08 then [CHR 0x5C, CHR ''b'']
      else if c = CHR 0x0C then [CHR 0x5C, CHR ''f''] else if c = CHR 0x0A then [CHR 0x5C, CHR ''n'']
      else if c = CHR 0x0D then [CHR 0x5C, CHR ''r''] else if c = CHR 0x09 then [CHR 0x5C, CHR ''t'']
      else if c = CHR 0x0B then [CHR 0x5C, CHR ''v'']
      else if (of_char c :: nat) < 32 \<or> c = CHR 0x7F then [CHR 0x5C, CHR ''x''] @ sprintf_02x (of_char c)
      else [c])"

definition sprintf_q :: "string \<Rightarrow> string" where
  "sprintf_q s = [CHR 0x22] @ concat (map quote_byte s) @ [CHR 0x22]"

text \<open>\<^verbatim>\<open>strconv.Atoi\<close>.\<close>

definition Atoi :: "string \<Rightarrow> int result" where
  "Atoi s =
     (let neg = (s \<noteq> [] \<and> hd s = CHR ''-'');
          ds = (if s \<noteq> [] \<and> (hd s = CHR ''-'' \<or> hd s = CHR ''+'') then tl s else s);
          v = (if neg then - int (digits_val ds 0) else int (digits_val ds 0))
      in if ds = [] \<or> \<not> list_all is_digit ds then Inl (ErrorString (''strconv.Atoi: parsing '' @ sprintf_q s @ '': invalid syntax''))
         else if \<not> int64 v then Inl (ErrorString (''strconv.Atoi: parsing '' @ sprintf_q s @ '': value out of range''))
         else Inr v)"

text \<open>\<^verbatim>\<open>filepath.Clean\<close>, \<^verbatim>\<open>Join\<close> and \<^verbatim>\<open>Base\<close>.\<close>

fun split_path :: "string \<Rightarrow> string \<Rightarrow> string list" where
  "split_path acc [] = [rev acc]"
| "split_path acc (c # cs) = (if c = CHR ''/'' then rev acc # split_path [] cs else split_path (c # acc) cs)"

definition clean_step :: "bool \<Rightarrow> string \<Rightarrow> string list \<Rightarrow> string list" where
  "clean_step rooted e acc =
     (if e = [] \<or> e = ''.'' then acc
      else if e = ''..'' then
        (if acc \<noteq> [] \<and> hd acc \<noteq> ''..'' then tl acc else if rooted then acc else ''..'' # acc)
      else e # acc)"

definition filepath_Clean :: "string \<Rightarrow> string" where
  "filepath_Clean path =
     (if path = [] then ''.''
      else
        (let rooted = (hd path = CHR ''/'');
             elems = rev (fold (clean_step rooted) (split_path [] path) [])
         in if rooted then ''/'' @ join ''/'' elems else if elems = [] then ''.'' else join ''/'' elems))"

fun filepath_Join :: "string list \<Rightarrow> string" where
  "filepath_Join [] = []"
| "filepath_Join (e # es) = (if e = [] then filepath_Join es else filepath_Clean (join ''/'' (e # es)))"

definition filepath_Base :: "string \<Rightarrow> string" where
  "filepath_Base path =
     (if path = [] then ''.''
      else
        (let base = rev (takeWhile (\<lambda>c. c \<noteq> CHR ''/'') (dropWhile (\<lambda>c. c = CHR ''/'') (rev path)))
         in if base = [] then ''/'' else base))"

subsection \<open>Values of the CNI library\<close>

record types_Route =
  rt_Dst :: IPNet
  rt_GW :: IP

record cni_Interface =
  ci_Name :: string
  ci_Mac :: string
  ci_Sandbox :: string

record IPConfig =
  ic_Interface :: "int option"
  ic_Address :: IPNet
  ic_Gateway :: IP

record DNS =
  dns_Nameservers :: "string list"
  dns_Domain :: string
  dns_Search :: "string list"
  dns_Options :: "string list"

record cni_Result =
  re_Interfaces :: "cni_Interface list"
  re_IPs :: "IPConfig list"
  re_Routes :: "types_Route list"
  re_DNS :: DNS

text \<open>The arguments of a command: the fields of \<^verbatim>\<open>skel.CmdArgs\<close> that are read.\<close>

record CmdArgs =
  ca_Netns :: string
  ca_IfName :: string
  ca_StdinData :: string

definition types_ParseCIDR :: "string \<Rightarrow> IPNet result" where
  "types_ParseCIDR s = (case ParseCIDR s of Inl err \<Rightarrow> Inl err | Inr (ip, ipn) \<Rightarrow> Inr (ipn\<lparr>IPNet_IP := ip\<rparr>))"

subsection \<open>cni/config/config.go\<close>

record DualAddress =
  da_Hardware :: HardwareAddr
  da_IP :: IP

record 'w container_side =
  co_DeviceName :: string
  co_TemporaryDeviceName :: string
  co_Namespace :: "'w NetNS"
  co_Address :: DualAddress
  co_MTU :: int
  co_Routes :: "types_Route list"

record 'w host_side =
  ho_DeviceName :: string
  ho_Namespace :: "'w NetNS"
  ho_Address :: DualAddress

record 'w cni_Config =
  cf_Container :: "'w container_side"
  cf_Host :: "'w host_side"

definition AsCNIResult :: "'w cni_Config \<Rightarrow> cni_Result" where
  "AsCNIResult c =
     \<lparr>re_Interfaces =
        [\<lparr>ci_Name = ho_DeviceName (cf_Host c), ci_Mac = HardwareAddr_String (da_Hardware (ho_Address (cf_Host c))), ci_Sandbox = []\<rparr>,
         \<lparr>ci_Name = co_DeviceName (cf_Container c), ci_Mac = HardwareAddr_String (da_Hardware (co_Address (cf_Container c))),
          ci_Sandbox = ns_Path (co_Namespace (cf_Container c))\<rparr>],
      re_IPs =
        [\<lparr>ic_Interface = Some 1,
          ic_Address = \<lparr>IPNet_IP = da_IP (co_Address (cf_Container c)), IPNet_Mask = [255, 255, 255, 255]\<rparr>,
          ic_Gateway = da_IP (ho_Address (cf_Host c))\<rparr>],
      re_Routes = co_Routes (cf_Container c),
      re_DNS = \<lparr>dns_Nameservers = [], dns_Domain = [], dns_Search = [], dns_Options = []\<rparr>\<rparr>"

subsection \<open>cni/config/config\_creator.go\<close>

record 'w cni_ConfigCreator =
  gen_ForContainer :: "IP \<Rightarrow> HardwareAddr result"
  gen_ForHost :: "IP \<Rightarrow> HardwareAddr result"
  name_ForHost :: "IP \<Rightarrow> string result"
  name_TemporaryForContainer :: "IP \<Rightarrow> string result"
  ad_GetNS :: "string \<Rightarrow> ('w, 'w NetNS) op"

definition link_local :: IP where
  "link_local = [169, 254, 0, 1]"

definition cni_Create :: "'w cni_ConfigCreator \<Rightarrow> 'w NetNS \<Rightarrow> CmdArgs \<Rightarrow> cni_Result \<Rightarrow> int \<Rightarrow> ('w, 'w cni_Config) op" where
  "cni_Create c hostNS addCmdArgs ipamResult mtu =
     (if ca_IfName addCmdArgs = [] then fail (ErrorString ''IfName cannot be empty'')
      else if length (ca_IfName addCmdArgs) > 15 then fail (ErrorString ''IfName cannot be longer than 15 characters'')
      else
        try_do (ad_GetNS c (ca_Netns addCmdArgs)) (errorf ''getting container namespace: '') (\<lambda>containerNS.
        case re_IPs ipamResult of
          [] \<Rightarrow> fail (ErrorString ''no IP address in IPAM result'')
        | ip # _ \<Rightarrow>
            (let containerIP = IPNet_IP (ic_Address ip) in
             try_do (pure (name_TemporaryForContainer c containerIP)) (errorf ''generating temporary container device name: '') (\<lambda>temporaryName.
             try_do (pure (gen_ForContainer c containerIP)) (errorf ''generating container veth hardware address: '') (\<lambda>containerHw.
             try_do (pure (name_ForHost c containerIP)) (errorf ''generating host device name: '') (\<lambda>hostName.
             try_do (pure (gen_ForHost c containerIP)) (errorf ''generating host veth hardware address: '') (\<lambda>hostHw.
             ret
               \<lparr>cf_Container =
                  \<lparr>co_DeviceName = ca_IfName addCmdArgs, co_TemporaryDeviceName = temporaryName, co_Namespace = containerNS,
                   co_Address = \<lparr>da_Hardware = containerHw, da_IP = containerIP\<rparr>, co_MTU = mtu,
                   co_Routes = [\<lparr>rt_Dst = \<lparr>IPNet_IP = IPv4 0 0 0 0, IPNet_Mask = CIDRMask 0 32\<rparr>, rt_GW = link_local\<rparr>]\<rparr>,
                cf_Host =
                  \<lparr>ho_DeviceName = hostName, ho_Namespace = hostNS,
                   ho_Address = \<lparr>da_Hardware = hostHw, da_IP = link_local\<rparr>\<rparr>\<rparr>)))))))"

subsection \<open>cni/config/ipam.go\<close>

record Range =
  ra_RangeStart :: IP
  ra_RangeEnd :: IP
  ra_Subnet :: IPNet
  ra_Gateway :: IP

type_synonym RangeSet = "Range list"

text \<open>The embedded \<^verbatim>\<open>*Range\<close> may be nil.\<close>

record IPAMConfig =
  ip_Range :: "Range option"
  ip_Name :: string
  ip_Type :: string
  ip_Routes :: "types_Route list"
  ip_DataDir :: string
  ip_ResolvConf :: string
  ip_Ranges :: "RangeSet list"
  ip_IPArgs :: "IP list"

record HostLocalIPAM =
  hl_CNIVersion :: string
  hl_Name :: string
  hl_IPAM :: IPAMConfig

definition GenerateConfig :: "string \<Rightarrow> string \<Rightarrow> string \<Rightarrow> HostLocalIPAM result" where
  "GenerateConfig subnet network dataDirPath =
     (case types_ParseCIDR subnet of
        Inl err \<Rightarrow> Inl (errorf ''invalid subnet: '' err)
      | Inr subnetAsIPNet \<Rightarrow>
          Inr \<lparr>hl_CNIVersion = ''1.0.0'', hl_Name = network,
            hl_IPAM = \<lparr>ip_Range = None, ip_Name = [], ip_Type = ''host-local'', ip_Routes = [],
              ip_DataDir = filepath_Join [dataDirPath, ''ipam''], ip_ResolvConf = [],
              ip_Ranges = [[\<lparr>ra_RangeStart = [], ra_RangeEnd = [], ra_Subnet = subnetAsIPNet, ra_Gateway = []\<rparr>]],
              ip_IPArgs = []\<rparr>\<rparr>)"

text \<open>The JSON form; an \<^verbatim>\<open>omitempty\<close> address is left out when it is empty.\<close>

definition opt_IP :: "string \<Rightarrow> IP \<Rightarrow> (string \<times> json) list" where
  "opt_IP name ip = (if ip = [] then [] else [(name, JStr (IP_String ip))])"

definition enc_Range :: "Range \<Rightarrow> (string \<times> json) list" where
  "enc_Range r = opt_IP ''rangeStart'' (ra_RangeStart r) @ opt_IP ''rangeEnd'' (ra_RangeEnd r) @
     [(''subnet'', JStr (IPNet_String (ra_Subnet r)))] @ opt_IP ''gateway'' (ra_Gateway r)"

definition enc_Route :: "types_Route \<Rightarrow> json" where
  "enc_Route r = JObj ([(''dst'', JStr (IPNet_String (rt_Dst r)))] @ opt_IP ''gw'' (rt_GW r))"

definition enc_HostLocalIPAM :: "HostLocalIPAM \<Rightarrow> json" where
  "enc_HostLocalIPAM h = JObj
     [(''cniVersion'', JStr (hl_CNIVersion h)), (''name'', JStr (hl_Name h)),
      (''ipam'', JObj ((case ip_Range (hl_IPAM h) of None \<Rightarrow> [] | Some r \<Rightarrow> enc_Range r) @
         [(''Name'', JStr (ip_Name (hl_IPAM h))), (''type'', JStr (ip_Type (hl_IPAM h))),
          (''routes'', JArr (map enc_Route (ip_Routes (hl_IPAM h)))), (''dataDir'', JStr (ip_DataDir (hl_IPAM h))),
          (''resolvConf'', JStr (ip_ResolvConf (hl_IPAM h))),
          (''ranges'', JArr (map (\<lambda>rs. JArr (map (\<lambda>r. JObj (enc_Range r)) rs)) (ip_Ranges (hl_IPAM h))))]))]"

subsection \<open>cni/netinfo\<close>

record 'w Discoverer =
  di_NetInfo :: "('w, NetworkInfo) op"

definition Discover :: "'w Discoverer \<Rightarrow> int \<Rightarrow> ('w, NetworkInfo) op" where
  "Discover d mtu =
     try_do (di_NetInfo d) (errorf ''get netinfo: '') (\<lambda>info.
     ret (if mtu \<noteq> 0 then info\<lparr>ni_MTU := mtu\<rparr> else info))"

record 'w netinfo_Daemon =
  nd_JSONClient :: "'w json_Client"

definition netinfo_Daemon_Get :: "'w netinfo_Daemon \<Rightarrow> ('w, NetworkInfo) op" where
  "netinfo_Daemon_Get d =
     try_do (json_Do (nd_JSONClient d) ''GET'' ''/'' None (json_Unmarshal dec_NetworkInfo)) (errorf ''json client do: '') ret"

text \<open>
  The regular expressions that are used: literal characters, \<^verbatim>\<open>[0-9]{lo,hi}\<close>, sequences, and a capturing group.  A match
  is the captured texts and the rest; \<open>rx_match\<close> lists the matches at the front of a text, the one that is preferred first.
\<close>

datatype rx = Chars string | Digits nat nat | Cat rx rx | Group rx

definition rx_repeat :: "nat \<Rightarrow> rx \<Rightarrow> rx" where
  "rx_repeat n r = foldr Cat (replicate n r) (Chars [])"

fun rx_match :: "rx \<Rightarrow> string \<Rightarrow> (string list \<times> string) list" where
  "rx_match (Chars t) s = (if take (length t) s = t then [([], drop (length t) s)] else [])"
| "rx_match (Digits lo hi) s =
     map (\<lambda>k. ([], drop k s)) (rev [lo..<Suc (length (takeWhile is_digit (take hi s)))])"
| "rx_match (Cat a b) s = concat (map (\<lambda>(c, r). map (\<lambda>(d, r'). (c @ d, r')) (rx_match b r)) (rx_match a s))"
| "rx_match (Group a) s = map (\<lambda>(c, r). (take (length s - length r) s # c, r)) (rx_match a s)"

text \<open>\<^verbatim>\<open>FindStringSubmatch\<close>: the leftmost match and its groups, empty when there is none.\<close>

fun FindStringSubmatch :: "rx \<Rightarrow> string \<Rightarrow> string list" where
  "FindStringSubmatch r [] = (case rx_match r [] of [] \<Rightarrow> [] | (c, _) # _ \<Rightarrow> [] # c)"
| "FindStringSubmatch r (x # xs) =
     (case rx_match r (x # xs) of
        [] \<Rightarrow> FindStringSubmatch r xs
      | (c, rest) # _ \<Rightarrow> take (length (x # xs) - length rest) (x # xs) # c)"

definition flannelSubnetRegex :: rx where
  "flannelSubnetRegex =
     Cat (Chars ''FLANNEL_SUBNET='')
       (Group (Cat (rx_repeat 3 (Cat (Digits 1 3) (Chars ''.''))) (Cat (Digits 1 3) (Cat (Chars ''/'') (Digits 1 2)))))"

definition flannelMTURegex :: rx where
  "flannelMTURegex = Cat (Chars ''FLANNEL_MTU='') (Group (Digits 1 5))"

record Flannel =
  fl_SubnetFilePath :: string

definition Flannel_Get :: "'w ioutil \<Rightarrow> Flannel \<Rightarrow> ('w, NetworkInfo) op" where
  "Flannel_Get io f =
     try_do (ReadFile io (fl_SubnetFilePath f)) unchanged (\<lambda>fileContents.
     (let subnetMatches = FindStringSubmatch flannelSubnetRegex fileContents;
          mtuMatches = FindStringSubmatch flannelMTURegex fileContents
      in if length subnetMatches < 2 then fail (ErrorString ''unable to parse flannel subnet file'')
         else if length mtuMatches < 2 then fail (ErrorString ''unable to parse MTU from subnet file'')
         else
           try_do (pure (Atoi (mtuMatches ! 1))) unchanged (\<lambda>mtu.
           ret \<lparr>ni_OverlaySubnet = subnetMatches ! 1, ni_MTU = mtu\<rparr>)))"

end
