(* ===== verification/Cni_Setup.thy ===== *)
theory Cni_Setup
  imports Cni_Config
begin

text \<open>
  The operations of \<^verbatim>\<open>cni/lib\<close> on devices: creating the pair of virtual devices, and setting up and
  tearing down its two ends.  The adapters are fields of the records, as in the code.
\<close>

section \<open>Definitions\<close>

subsection \<open>cni/lib/interface.go\<close>

text \<open>\<^verbatim>\<open>QdiscAdd\<close>, \<^verbatim>\<open>FilterAdd\<close> and \<^verbatim>\<open>TickInUsec\<close> have no caller and are left out.\<close>

record 'w cni_netlinkAdapter =
  cn_LinkByName :: "string \<Rightarrow> ('w, Link) op"
  cn_ParseAddr :: "string \<Rightarrow> Addr result"
  cn_AddrAddScopeLink :: "Link \<Rightarrow> Addr \<Rightarrow> ('w, unit) op"
  cn_LinkSetHardwareAddr :: "Link \<Rightarrow> HardwareAddr \<Rightarrow> ('w, unit) op"
  cn_NeighAddPermanentIPv4 :: "int \<Rightarrow> IP \<Rightarrow> HardwareAddr \<Rightarrow> ('w, unit) op"
  cn_LinkSetARPOff :: "Link \<Rightarrow> ('w, unit) op"
  cn_LinkSetName :: "Link \<Rightarrow> string \<Rightarrow> ('w, unit) op"
  cn_LinkSetUp :: "Link \<Rightarrow> ('w, unit) op"
  cn_LinkDel :: "Link \<Rightarrow> ('w, unit) op"
  cn_LinkAdd :: "Link \<Rightarrow> ('w, unit) op"
  cn_LinkSetNsFd :: "Link \<Rightarrow> int \<Rightarrow> ('w, unit) op"
  cn_RouteAdd :: "Route \<Rightarrow> ('w, unit) op"

definition as_cni_netlinkAdapter :: "'w kernel \<Rightarrow> 'w cni_netlinkAdapter" where
  "as_cni_netlinkAdapter k =
     \<lparr>cn_LinkByName = LinkByName k, cn_ParseAddr = ParseAddr, cn_AddrAddScopeLink = AddrAddScopeLink k,
      cn_LinkSetHardwareAddr = LinkSetHardwareAddr k, cn_NeighAddPermanentIPv4 = NeighAddPermanentIPv4 k,
      cn_LinkSetARPOff = LinkSetARPOff k, cn_LinkSetName = LinkSetName k, cn_LinkSetUp = LinkSetUp k, cn_LinkDel = LinkDel k,
      cn_LinkAdd = LinkAdd k, cn_LinkSetNsFd = LinkSetNsFd k, cn_RouteAdd = RouteAdd k\<rparr>"

record 'w linkOperations =
  l_DisableIPv6 :: "string \<Rightarrow> ('w, unit) op"
  l_StaticNeighborNoARP :: "Link \<Rightarrow> IP \<Rightarrow> HardwareAddr \<Rightarrow> ('w, unit) op"
  l_SetPointToPointAddress :: "Link \<Rightarrow> IP \<Rightarrow> IP \<Rightarrow> ('w, unit) op"
  l_RenameLink :: "string \<Rightarrow> string \<Rightarrow> ('w, unit) op"
  l_DeleteLinkByName :: "string \<Rightarrow> ('w, unit) op"
  l_RouteAddAll :: "types_Route list \<Rightarrow> IP \<Rightarrow> ('w, unit) op"
  l_EnableIPv4Forwarding :: "('w, unit) op"
  l_EnableReversePathFiltering :: "string \<Rightarrow> ('w, unit) op"

subsection \<open>cni/lib/link\_operations.go\<close>

record 'w LinkOperations =
  lo_Sysctl :: "string \<Rightarrow> string list \<Rightarrow> ('w, string) op"
  lo_NetlinkAdapter :: "'w cni_netlinkAdapter"

definition DisableIPv6 :: "'w LinkOperations \<Rightarrow> string \<Rightarrow> ('w, unit) op" where
  "DisableIPv6 s deviceName =
     try_do (lo_Sysctl s (''net.ipv6.conf.'' @ deviceName @ ''.disable_ipv6'') [''1''])
       (errorf (''sysctl for '' @ deviceName @ '': '')) (\<lambda>_. ret ())"

definition EnableReversePathFiltering :: "'w LinkOperations \<Rightarrow> string \<Rightarrow> ('w, unit) op" where
  "EnableReversePathFiltering s deviceName =
     try_do (lo_Sysctl s (''net.ipv4.conf.'' @ deviceName @ ''.rp_filter'') [''1''])
       (errorf (''sysctl for '' @ deviceName @ '': '')) (\<lambda>_. ret ())"

definition EnableIPv4Forwarding :: "'w LinkOperations \<Rightarrow> ('w, unit) op" where
  "EnableIPv4Forwarding s =
     try_do (lo_Sysctl s ''net.ipv4.ip_forward'' [''1'']) (errorf ''enabling IPv4 forwarding: '') (\<lambda>_. ret ())"

definition StaticNeighborNoARP :: "'w LinkOperations \<Rightarrow> Link \<Rightarrow> IP \<Rightarrow> HardwareAddr \<Rightarrow> ('w, unit) op" where
  "StaticNeighborNoARP s link destIP hwAddr =
     try_do (cn_LinkSetARPOff (lo_NetlinkAdapter s) link) (errorf ''set ARP off: '') (\<lambda>_.
     try_do (cn_NeighAddPermanentIPv4 (lo_NetlinkAdapter s) (lk_Index link) destIP hwAddr) (errorf ''neigh add: '') (\<lambda>_.
     ret ()))"

definition SetPointToPointAddress :: "'w LinkOperations \<Rightarrow> Link \<Rightarrow> IP \<Rightarrow> IP \<Rightarrow> ('w, unit) op" where
  "SetPointToPointAddress s link localIPAddr peerIPAddr =
     (let localAddr = \<lparr>IPNet_IP = localIPAddr, IPNet_Mask = [255, 255, 255, 255]\<rparr>;
          peerAddr = \<lparr>IPNet_IP = peerIPAddr, IPNet_Mask = [255, 255, 255, 255]\<rparr>
      in try_do (pure (cn_ParseAddr (lo_NetlinkAdapter s) (IPNet_String localAddr)))
           (errorf (''parsing address '' @ IPNet_String localAddr @ '': '')) (\<lambda>addr.
         try_do (cn_AddrAddScopeLink (lo_NetlinkAdapter s) link (addr\<lparr>ad_Peer := Some peerAddr\<rparr>))
           (errorf (''adding IP address '' @ IPNet_String localAddr @ '': '')) (\<lambda>_.
         ret ())))"

definition RenameLink :: "'w LinkOperations \<Rightarrow> string \<Rightarrow> string \<Rightarrow> ('w, unit) op" where
  "RenameLink s oldName newName =
     try_do (cn_LinkByName (lo_NetlinkAdapter s) oldName) (errorf (''failed to find link '' @ sprintf_q oldName @ '': '')) (\<lambda>link.
     try_do (cn_LinkSetName (lo_NetlinkAdapter s) link newName) (errorf ''set link name: '') (\<lambda>_.
     ret ()))"

definition DeleteLinkByName :: "'w LinkOperations \<Rightarrow> string \<Rightarrow> ('w, unit) op" where
  "DeleteLinkByName s deviceName w =
     (case cn_LinkByName (lo_NetlinkAdapter s) deviceName w of
        (Inl _, w) \<Rightarrow> (Inr (), w)
      | (Inr link, w) \<Rightarrow> cn_LinkDel (lo_NetlinkAdapter s) link w)"

definition RouteAddAll :: "'w LinkOperations \<Rightarrow> types_Route list \<Rightarrow> IP \<Rightarrow> ('w, unit) op" where
  "RouteAddAll s routes sourceIP =
     for_each routes (\<lambda>r.
       try_do (cn_RouteAdd (lo_NetlinkAdapter s)
                 \<lparr>ro_LinkIndex = 0, ro_Scope = SCOPE_UNIVERSE, ro_Dst = Some (rt_Dst r), ro_Gw = rt_GW r, ro_Src = sourceIP\<rparr>)
         (errorf ''adding route: '') ret)"

definition as_linkOperations :: "'w LinkOperations \<Rightarrow> 'w linkOperations" where
  "as_linkOperations s =
     \<lparr>l_DisableIPv6 = DisableIPv6 s, l_StaticNeighborNoARP = StaticNeighborNoARP s, l_SetPointToPointAddress = SetPointToPointAddress s,
      l_RenameLink = RenameLink s, l_DeleteLinkByName = DeleteLinkByName s, l_RouteAddAll = RouteAddAll s,
      l_EnableIPv4Forwarding = EnableIPv4Forwarding s, l_EnableReversePathFiltering = EnableReversePathFiltering s\<rparr>"

subsection \<open>cni/lib/common.go\<close>

record 'w Common =
  cm_NetlinkAdapter :: "'w cni_netlinkAdapter"
  cm_LinkOperations :: "'w linkOperations"

definition MAX_ATTEMPTS :: nat where
  "MAX_ATTEMPTS = 10"

text \<open>
  The link is read again with the error ignored; on an error the link is nil and reading its attributes panics.
\<close>

definition hardware_addr_of :: "'w Common \<Rightarrow> string \<Rightarrow> ('w, go_error, string) pop" where
  "hardware_addr_of s deviceName w =
     (case cn_LinkByName (cm_NetlinkAdapter s) deviceName w of
        (Inl _, w) \<Rightarrow> (None, w)
      | (Inr l, w) \<Rightarrow> (Some (Inr (HardwareAddr_String (lk_HardwareAddr l))), w))"

fun hwaddr_loop :: "'w Common \<Rightarrow> string \<Rightarrow> Link \<Rightarrow> HardwareAddr \<Rightarrow> nat \<Rightarrow> string \<Rightarrow> ('w, go_error, string) pop" where
  "hwaddr_loop s deviceName link hw 0 got = total (ret got)"
| "hwaddr_loop s deviceName link hw (Suc n) got =
     (if got = HardwareAddr_String hw then total (ret got)
      else
        then_do (total (cn_LinkSetHardwareAddr (cm_NetlinkAdapter s) link hw)) (errorf ''setting hardware address: '') (\<lambda>_.
        then_do (hardware_addr_of s deviceName) unchanged (\<lambda>got.
        hwaddr_loop s deviceName link hw n got)))"

definition BasicSetup :: "'w Common \<Rightarrow> string \<Rightarrow> DualAddress \<Rightarrow> DualAddress \<Rightarrow> ('w, go_error, unit) pop" where
  "BasicSetup s deviceName loc peer =
     then_do (total (cn_LinkByName (cm_NetlinkAdapter s) deviceName)) (errorf (''failed to find link '' @ sprintf_q deviceName @ '': '')) (\<lambda>link.
     then_do (hardware_addr_of s deviceName) unchanged (\<lambda>got.
     then_do (hwaddr_loop s deviceName link (da_Hardware loc) MAX_ATTEMPTS got) unchanged (\<lambda>got.
     if got \<noteq> HardwareAddr_String (da_Hardware loc)
     then total (fail (ErrorString (''failed to set hardware addr after '' @ itoa MAX_ATTEMPTS @ '' attempts'')))
     else
       (\<lambda>w. total (
          try_do (l_StaticNeighborNoARP (cm_LinkOperations s) link (da_IP peer) (da_Hardware peer))
            (errorf ''replace ARP with permanent neighbor rule: '') (\<lambda>_.
          try_do (l_SetPointToPointAddress (cm_LinkOperations s) link (da_IP loc) (da_IP peer))
            (errorf ''setting point to point address: '') (\<lambda>_.
          try_do (l_EnableReversePathFiltering (cm_LinkOperations s) deviceName)
            (errorf ''enable reverse path filtering: '') (\<lambda>_.
          try_do (cn_LinkSetUp (cm_NetlinkAdapter s) link) (errorf (''setting link '' @ deviceName @ '' up: '')) (\<lambda>_.
          ret ())))))
          (snd (l_DisableIPv6 (cm_LinkOperations s) deviceName w))))))"

subsection \<open>cni/lib/container\_setup.go, host\_setup.go and pair\_creator.go\<close>

record 'w cni_Container =
  ct_BasicSetup :: "string \<Rightarrow> DualAddress \<Rightarrow> DualAddress \<Rightarrow> ('w, go_error, unit) pop"
  ct_LinkOperations :: "'w linkOperations"

definition Container_Teardown :: "'w cni_Container \<Rightarrow> 'w NetNS \<Rightarrow> string \<Rightarrow> ('w, go_error, unit) pop" where
  "Container_Teardown c containerNS deviceName =
     ns_Do containerNS
       (total (try_do (l_DeleteLinkByName (ct_LinkOperations c) deviceName) (errorf ''deleting link: '') (\<lambda>_. ret ())))"

definition Container_Setup :: "'w cni_Container \<Rightarrow> 'w cni_Config \<Rightarrow> ('w, go_error, unit) pop" where
  "Container_Setup c cfg =
     (let deviceName = co_DeviceName (cf_Container cfg);
          loc = co_Address (cf_Container cfg);
          peer = ho_Address (cf_Host cfg)
      in ns_Do (co_Namespace (cf_Container cfg))
           (then_do (total (l_RenameLink (ct_LinkOperations c) (co_TemporaryDeviceName (cf_Container cfg)) deviceName))
              (errorf ''renaming link in container: '') (\<lambda>_.
            then_do (ct_BasicSetup c deviceName loc peer) (errorf ''setting up device in container: '') (\<lambda>_.
            total (try_do (l_RouteAddAll (ct_LinkOperations c) (co_Routes (cf_Container cfg)) (da_IP (co_Address (cf_Container cfg))))
              (errorf ''adding route in container: '') (\<lambda>_. ret ()))))))"

record 'w cni_Host =
  hs_BasicSetup :: "string \<Rightarrow> DualAddress \<Rightarrow> DualAddress \<Rightarrow> ('w, go_error, unit) pop"
  hs_LinkOperations :: "'w linkOperations"

definition Host_Setup :: "'w cni_Host \<Rightarrow> 'w cni_Config \<Rightarrow> ('w, go_error, unit) pop" where
  "Host_Setup h cfg =
     (let deviceName = ho_DeviceName (cf_Host cfg);
          loc = ho_Address (cf_Host cfg);
          peer = co_Address (cf_Container cfg)
      in ns_Do (ho_Namespace (cf_Host cfg))
           (then_do (hs_BasicSetup h deviceName loc peer) (errorf ''setting up device in host: '') (\<lambda>_.
            total (try_do (l_EnableIPv4Forwarding (hs_LinkOperations h)) (errorf ''enabling packet forwarding on host: '') (\<lambda>_. ret ())))))"

record 'w VethPairCreator =
  vp_NetlinkAdapter :: "'w cni_netlinkAdapter"

definition veth_request :: "'w cni_Config \<Rightarrow> Link" where
  "veth_request cfg =
     \<lparr>lk_Index = 0, lk_Name = ho_DeviceName (cf_Host cfg), lk_HardwareAddr = da_Hardware (ho_Address (cf_Host cfg)),
      lk_MTU = co_MTU (cf_Container cfg), lk_Up = True,
      lk_kind = Veth (co_TemporaryDeviceName (cf_Container cfg)) (da_Hardware (co_Address (cf_Container cfg)))\<rparr>"

definition VethPairCreator_Create :: "'w VethPairCreator \<Rightarrow> 'w cni_Config \<Rightarrow> ('w, go_error, unit) pop" where
  "VethPairCreator_Create c cfg =
     (let containerName = co_TemporaryDeviceName (cf_Container cfg) in
      ns_Do (ho_Namespace (cf_Host cfg))
        (total (
          try_do (cn_LinkAdd (vp_NetlinkAdapter c) (veth_request cfg)) (errorf ''creating veth pair: '') (\<lambda>_.
          try_do (cn_LinkByName (vp_NetlinkAdapter c) containerName)
            (errorf (''failed to find newly-created veth device '' @ sprintf_q containerName @ '': '')) (\<lambda>containerVeth.
          try_do (cn_LinkSetNsFd (vp_NetlinkAdapter c) containerVeth (ns_Fd (co_Namespace (cf_Container cfg))))
            (errorf ''failed to move veth to container namespace: '') (\<lambda>_.
          ret ()))))))"

end
