(* ===== verification/Cni_Main.thy ===== *)
theory Cni_Main
  imports Cni_Setup
begin

text \<open>
  The plugin of \<^verbatim>\<open>cmd/silk-cni/main.go\<close>: its configuration, its three commands and its start-up.  The allocator
  \<^verbatim>\<open>host-local\<close> (run through the \<^verbatim>\<open>invoke\<close> package), printing the result, the kernel, the namespaces, the files and the
  HTTP transport are fields of \<open>cni_env\<close>.
\<close>

section \<open>Definitions\<close>

subsection \<open>Errors\<close>

text \<open>The errors of a command: \<^verbatim>\<open>*types.Error\<close> or any other error.\<close>

datatype cni_error = Plain go_error | TypesError nat string string

definition typedError :: "string \<Rightarrow> go_error \<Rightarrow> cni_error" where
  "typedError msg err = TypesError 100 msg (Error err)"

subsection \<open>The configuration of the network\<close>

text \<open>The fields of \<^verbatim>\<open>types.NetConf\<close> that are read, and those of the plugin.\<close>

record NetConf =
  nc_CNIVersion :: string
  nc_Name :: string
  nc_DataDir :: string
  nc_SubnetFile :: string
  nc_MTU :: int
  nc_Datastore :: string
  nc_DaemonPort :: int

text \<open>
  Decoding checks the types of all fields, also of those that are not read: \<^verbatim>\<open>type\<close>, \<^verbatim>\<open>capabilities\<close>, \<^verbatim>\<open>ipam\<close>,
  \<^verbatim>\<open>dns\<close> and \<^verbatim>\<open>prevResult\<close>.
\<close>

fun is_object :: "(string \<times> json \<Rightarrow> bool) \<Rightarrow> json \<Rightarrow> bool" where
  "is_object P JNull = True"
| "is_object P (JObj ms) = list_all P ms"
| "is_object P _ = False"

fun is_string_list :: "json \<Rightarrow> bool" where
  "is_string_list JNull = True"
| "is_string_list (JArr js) = list_all (\<lambda>j. dec_string j \<noteq> None \<or> j = JNull) js"
| "is_string_list _ = False"

definition field_ok :: "(json \<Rightarrow> bool) \<Rightarrow> string \<Rightarrow> (string \<times> json) list \<Rightarrow> bool" where
  "field_ok P name ms = list_all (\<lambda>(k, j). same_key name k \<longrightarrow> P j) ms"

definition string_or_null :: "json \<Rightarrow> bool" where
  "string_or_null j \<longleftrightarrow> j = JNull \<or> dec_string j \<noteq> None"

definition types_NetConf_ok :: "(string \<times> json) list \<Rightarrow> bool" where
  "types_NetConf_ok ms \<longleftrightarrow>
     field_ok string_or_null ''type'' ms \<and>
     field_ok (is_object (\<lambda>(_, j). j = JNull \<or> dec_bool j \<noteq> None)) ''capabilities'' ms \<and>
     field_ok (is_object (\<lambda>(k, j). same_key ''type'' k \<longrightarrow> string_or_null j)) ''ipam'' ms \<and>
     field_ok (is_object (\<lambda>(k, j). (same_key ''domain'' k \<longrightarrow> string_or_null j) \<and>
       (same_key ''nameservers'' k \<or> same_key ''search'' k \<or> same_key ''options'' k \<longrightarrow> is_string_list j))) ''dns'' ms \<and>
     field_ok (is_object (\<lambda>_. True)) ''prevResult'' ms"

definition dec_NetConf :: "json \<Rightarrow> NetConf option" where
  "dec_NetConf j =
     (case members_of j of
        None \<Rightarrow> None
      | Some ms \<Rightarrow>
          if mistyped [''cniVersion'', ''name'', ''dataDir'', ''subnetFile'', ''datastore''] [] [''mtu'', ''daemonPort''] [] ms
             \<or> \<not> types_NetConf_ok ms
          then None
          else Some \<lparr>nc_CNIVersion = field_s ms ''cniVersion'', nc_Name = field_s ms ''name'', nc_DataDir = field_s ms ''dataDir'',
                 nc_SubnetFile = field_s ms ''subnetFile'', nc_MTU = field_i ms ''mtu'', nc_Datastore = field_s ms ''datastore'',
                 nc_DaemonPort = field_i ms ''daemonPort''\<rparr>)"

definition check_NetConf :: "NetConf \<Rightarrow> (string \<times> string) list" where
  "check_NetConf c = min_i 0 ''MTU'' (nc_MTU c)"

text \<open>Two structs that the program declares and never uses.\<close>

record main_HostLocalIPAM =
  mh_Type :: string
  mh_Subnet :: string
  mh_Gateway :: string
  mh_Routes :: "types_Route list"
  mh_DataDir :: string

record ConfForHostLocal =
  ch_CNIVersion :: string
  ch_Name :: string
  ch_IPAM :: main_HostLocalIPAM

subsection \<open>The packages\<close>

text \<open>\<^verbatim>\<open>types.Result\<close>: what converting the result of the allocator to the current version gives.\<close>

record types_Result =
  GetAsCurrent :: "cni_Result result"

record 'w cni_env =
  ne_kernel :: "'w kernel"
  ne_namespaces :: "'w namespaces"
  ne_NewLocker :: "string \<Rightarrow> ('w, 'w OverwriteableFile) op"
  ne_io :: "'w ioutil"
  ne_httpClient :: "string \<Rightarrow> string \<Rightarrow> string \<Rightarrow> 'w \<Rightarrow> (int \<times> string result) result \<times> 'w"
  ne_newRequest :: "string \<Rightarrow> string \<Rightarrow> go_error option"
  ne_DelegateAdd :: "string \<Rightarrow> string \<Rightarrow> ('w, types_Result) op"
  ne_DelegateDel :: "string \<Rightarrow> string \<Rightarrow> ('w, unit) op"
  ne_PrintResult :: "cni_Result \<Rightarrow> string \<Rightarrow> ('w, unit) op"
  ne_OpenFile :: "string \<Rightarrow> ('w, unit) op"

definition cni_getNetworkInfo :: "'w cni_env \<Rightarrow> NetConf \<Rightarrow> ('w, NetworkInfo) op" where
  "cni_getNetworkInfo env netConf =
     try_do (pure (of_err (validator_Validate (check_NetConf netConf)))) (errorf ''invalid config: '') (\<lambda>_.
     Discover
       \<lparr>di_NetInfo =
          (if nc_SubnetFile netConf \<noteq> [] then Flannel_Get (ne_io env) \<lparr>fl_SubnetFilePath = nc_SubnetFile netConf\<rparr>
           else netinfo_Daemon_Get \<lparr>nd_JSONClient = json_client_New (ne_httpClient env) (ne_newRequest env)
                  (''http://127.0.0.1:'' @ sprintf_d (nc_DaemonPort netConf))\<rparr>)\<rparr>
       (nc_MTU netConf))"

subsection \<open>The commands\<close>

record 'w CNIPlugin =
  pl_HostNSPath :: string
  pl_HostNS :: "'w NetNS"
  pl_ConfigCreator :: "'w cni_ConfigCreator"
  pl_VethPairCreator :: "'w VethPairCreator"
  pl_Host :: "'w cni_Host"
  pl_Container :: "'w cni_Container"
  pl_Store :: "'w Store"

text \<open>The part of \<^verbatim>\<open>cmdAdd\<close> that sets up the devices and records the container, once its settings are known.\<close>

definition connect_container :: "'w cni_env \<Rightarrow> 'w CNIPlugin \<Rightarrow> CmdArgs \<Rightarrow> NetConf \<Rightarrow> 'w cni_Config \<Rightarrow> ('w, cni_error, unit) pop" where
  "connect_container env p args netConf cfg =
     then_do (VethPairCreator_Create (pl_VethPairCreator p) cfg) (typedError ''create veth pair'') (\<lambda>_.
     then_do (Host_Setup (pl_Host p) cfg) (typedError ''set up host'') (\<lambda>_.
     then_do (Container_Setup (pl_Container p) cfg) (typedError ''set up container'') (\<lambda>_.
     then_do (total (Store_Add (pl_Store p) (nc_Datastore netConf) (filepath_Base (ca_Netns args))
                (IP_String (da_IP (co_Address (cf_Container cfg)))) JNull))
       (typedError ''write container metadata'') (\<lambda>_.
     then_do (total (ne_PrintResult env (AsCNIResult cfg) (nc_CNIVersion netConf))) Plain (\<lambda>_ w. (Some (Inr ()), w))))))"

definition cmdAdd :: "'w cni_env \<Rightarrow> 'w CNIPlugin \<Rightarrow> CmdArgs \<Rightarrow> ('w, cni_error, unit) pop" where
  "cmdAdd env p args =
     then_do (total (pure (json_Unmarshal dec_NetConf (ca_StdinData args)))) Plain (\<lambda>netConf.
     then_do (total (cni_getNetworkInfo env netConf)) (typedError ''discover network info'') (\<lambda>networkInfo.
     then_do (total (pure (GenerateConfig (ni_OverlaySubnet networkInfo) (nc_Name netConf) (nc_DataDir netConf))))
       (typedError ''generate ipam config'') (\<lambda>ipamConfig.
     then_do (total (ne_DelegateAdd env ''host-local'' (json_text (enc_HostLocalIPAM ipamConfig))))
       (typedError ''run ipam plugin'') (\<lambda>result.
     then_do (total (pure (GetAsCurrent result))) (\<lambda>err. Plain (errorf ''convert result to current CNI version: '' err)) (\<lambda>cniResult.
     then_do (total (cni_Create (pl_ConfigCreator p) (pl_HostNS p) args cniResult (ni_MTU networkInfo)))
       (typedError ''create config'') (\<lambda>cfg.
     connect_container env p args netConf cfg))))))"

text \<open>Errors of the allocator and of the store do not stop the clean-up; without the namespace it ends at once.\<close>

definition cmdDel :: "'w cni_env \<Rightarrow> 'w CNIPlugin \<Rightarrow> CmdArgs \<Rightarrow> ('w, cni_error, unit) pop" where
  "cmdDel env p args =
     then_do (total (pure (json_Unmarshal dec_NetConf (ca_StdinData args)))) Plain (\<lambda>netConf w.
     (let ipamConfigBytes =
            (case GenerateConfig ''0.0.0.0/0'' (nc_Name netConf) (nc_DataDir netConf) of
               Inl _ \<Rightarrow> ''null'' | Inr ipamConfig \<Rightarrow> json_text (enc_HostLocalIPAM ipamConfig));
          w = snd (ne_DelegateDel env ''host-local'' ipamConfigBytes w)
      in case n_GetNS (ne_namespaces env) (ca_Netns args) w of
           (Inl _, w) \<Rightarrow> (Some (Inr ()), w)
         | (Inr containerNS, w) \<Rightarrow>
             then_do (Container_Teardown (pl_Container p) containerNS (ca_IfName args)) (typedError ''teardown failed'') (\<lambda>_ w.
             (Some (Inr ()), snd (Store_Delete (pl_Store p) (nc_Datastore netConf) (filepath_Base (ca_Netns args)) w))) w))"

definition cmdCheck :: "'w cni_env \<Rightarrow> 'w CNIPlugin \<Rightarrow> CmdArgs \<Rightarrow> ('w, cni_error, unit) pop" where
  "cmdCheck env p args w = (Some (Inl (Plain (ErrorString ''Meow this isn't implemented yet''))), w)"

subsection \<open>Start-up\<close>

definition silk_linkOperations :: "'w cni_env \<Rightarrow> 'w LinkOperations" where
  "silk_linkOperations env = \<lparr>lo_Sysctl = Sysctl (ne_kernel env), lo_NetlinkAdapter = as_cni_netlinkAdapter (ne_kernel env)\<rparr>"

definition silk_common :: "'w cni_env \<Rightarrow> 'w Common" where
  "silk_common env =
     \<lparr>cm_NetlinkAdapter = as_cni_netlinkAdapter (ne_kernel env), cm_LinkOperations = as_linkOperations (silk_linkOperations env)\<rparr>"

definition silk_CNIPlugin :: "'w cni_env \<Rightarrow> 'w NetNS \<Rightarrow> 'w CNIPlugin" where
  "silk_CNIPlugin env hostNS =
     \<lparr>pl_HostNSPath = ns_Path hostNS, pl_HostNS = hostNS,
      pl_ConfigCreator = \<lparr>gen_ForContainer = GenerateForContainer, gen_ForHost = GenerateForHost, name_ForHost = DeviceName_GenerateForHost,
        name_TemporaryForContainer = DeviceName_GenerateTemporaryForContainer, ad_GetNS = GetNS (ne_namespaces env)\<rparr>,
      pl_VethPairCreator = \<lparr>vp_NetlinkAdapter = as_cni_netlinkAdapter (ne_kernel env)\<rparr>,
      pl_Host = \<lparr>hs_BasicSetup = BasicSetup (silk_common env), hs_LinkOperations = as_linkOperations (silk_linkOperations env)\<rparr>,
      pl_Container = \<lparr>ct_BasicSetup = BasicSetup (silk_common env), ct_LinkOperations = as_linkOperations (silk_linkOperations env)\<rparr>,
      pl_Store = silk_Store (ne_NewLocker env)\<rparr>"

text \<open>
  \<open>LoggingDevice\<close> is the compile-time flag.  \<^verbatim>\<open>skel.PluginMain\<close> chooses the command; it is a parameter and gives the
  exit status.
\<close>

definition cni_main ::
  "'w cni_env \<Rightarrow> string \<Rightarrow>
   ((CmdArgs \<Rightarrow> ('w, cni_error, unit) pop) \<Rightarrow> (CmdArgs \<Rightarrow> ('w, cni_error, unit) pop) \<Rightarrow> (CmdArgs \<Rightarrow> ('w, cni_error, unit) pop) \<Rightarrow>
    string list \<Rightarrow> string \<Rightarrow> 'w \<Rightarrow> nat \<times> 'w) \<Rightarrow> 'w \<Rightarrow> nat \<times> 'w" where
  "cni_main env LoggingDevice PluginMain w =
     (case n_GetCurrentNS (ne_namespaces env) w of
        (Inl err, w) \<Rightarrow> (1, w)
      | (Inr hostNS, w) \<Rightarrow>
          (case (if LoggingDevice \<noteq> ''stderr'' then ne_OpenFile env ''/var/vcap/sys/log/silk-cni/silk-cni.stdout.log'' w else (Inr (), w)) of
             (Inl err, w) \<Rightarrow> (1, w)
           | (Inr _, w) \<Rightarrow>
               (let plugin = silk_CNIPlugin env hostNS
                in PluginMain (cmdAdd env plugin) (cmdCheck env plugin) (cmdDel env plugin) [''1.0.0''] ''CNI Plugin silk-cni'' w)))"

end
