(* ===== verification/Cni_Contract.thy ===== *)
theory Cni_Contract
  imports Cni_Main Converger_Tables
begin

text \<open>
  What the plugin relies on of the kernel, the namespaces and the other services, as a contract over a view of the
  network: the devices, routes and settings of every namespace.  The lemmas follow the view through the
  operations of the plugin.  The contract does not say that a hardware address that is set is the one the device then has.
\<close>

section \<open>The view of the network\<close>

text \<open>
  A device: its name and hardware address, whether it is up and answers ARP, its addresses with their peers, and its
  permanent neighbours with their hardware addresses.
\<close>

record device =
  dv_name :: string
  dv_hw :: HardwareAddr
  dv_up :: bool
  dv_noarp :: bool
  dv_addrs :: "(string \<times> string option) list"
  dv_neighs :: "(string \<times> string) list"

record 'n netview =
  v_cur :: 'n
  v_dev :: "'n \<Rightarrow> int \<Rightarrow> device option"
  v_routes :: "'n \<Rightarrow> (string \<times> string \<times> string) set"
  v_sys :: "'n \<Rightarrow> string \<Rightarrow> string option"

definition here :: "'n netview \<Rightarrow> int \<Rightarrow> device option" where
  "here v = v_dev v (v_cur v)"

definition set_dev :: "'n netview \<Rightarrow> int \<Rightarrow> device \<Rightarrow> 'n netview" where
  "set_dev v i d = v\<lparr>v_dev := (v_dev v)(v_cur v := (here v)(i \<mapsto> d))\<rparr>"

definition set_sys :: "'n netview \<Rightarrow> (string \<Rightarrow> string option) \<Rightarrow> 'n netview" where
  "set_sys v s = v\<lparr>v_sys := (v_sys v)(v_cur v := s)\<rparr>"

definition new_device :: "string \<Rightarrow> HardwareAddr \<Rightarrow> bool \<Rightarrow> device" where
  "new_device name hw up = \<lparr>dv_name = name, dv_hw = hw, dv_up = up, dv_noarp = False, dv_addrs = [], dv_neighs = []\<rparr>"

text \<open>A device after the setup of its end of the pair.\<close>

definition configured :: "device \<Rightarrow> HardwareAddr \<Rightarrow> DualAddress \<Rightarrow> DualAddress \<Rightarrow> device" where
  "configured d h loc peer =
     d\<lparr>dv_hw := h, dv_noarp := True,
       dv_neighs := dv_neighs d @ [(IP_String (da_IP peer), HardwareAddr_String (da_Hardware peer))],
       dv_addrs := dv_addrs d @ [(IP_String (da_IP loc) @ ''/'' @ itoa 32, Some (IP_String (da_IP peer) @ ''/'' @ itoa 32))], dv_up := True\<rparr>"

text \<open>A step that keeps the files and leads to the view \<open>v\<close>.\<close>

definition becomes ::
  "('w \<Rightarrow> 'n netview) \<Rightarrow> ('w \<Rightarrow> string \<Rightarrow> string) \<Rightarrow> ('w \<Rightarrow> bool) \<Rightarrow> 'w \<Rightarrow> 'w \<Rightarrow> 'n netview \<Rightarrow> bool" where
  "becomes view files ok w w' v \<longleftrightarrow> view w' = v \<and> files w' = files w \<and> ok w'"

lemma set_dev_simps [simp]:
  "v_cur (set_dev v i d) = v_cur v" "v_routes (set_dev v i d) = v_routes v" "v_sys (set_dev v i d) = v_sys v"
  "here (set_dev v i d) i = Some d" "set_dev (set_dev v i d) i e = set_dev v i e"
  by (simp_all add: set_dev_def here_def)

lemma set_sys_simps [simp]:
  "v_cur (set_sys v s) = v_cur v" "v_routes (set_sys v s) = v_routes v" "v_dev (set_sys v s) = v_dev v"
  "here (set_sys v s) = here v" "set_sys (set_sys v s) t = set_sys v t" "v_sys (set_sys v s) (v_cur v) = s"
  "n \<noteq> v_cur v \<Longrightarrow> v_sys (set_sys v s) n = v_sys v n"
  by (simp_all add: set_sys_def here_def)

lemma set_dev_sys: "set_dev (set_sys v s) i d = set_sys (set_dev v i d) s"
  by (simp add: set_dev_def set_sys_def here_def)

lemma set_dev_same: "here v i = Some d \<Longrightarrow> set_dev v i d = v"
  by (auto simp: set_dev_def here_def fun_upd_idem)

section \<open>Addresses\<close>

lemma no_blank:
  "is_digit c \<Longrightarrow> c \<noteq> CHR '' ''"
  by (auto simp: is_digit_def)

lemma all_ones: "[255, 255, 255, 255] = CIDRMask (int 32) 32"
  by code_simp

lemma IP_String_To4: "To4 ip \<noteq> [] \<Longrightarrow> IP_String ip = dotted (To4 ip)"
  by (erule To4_cases) (metis IP_String_v4)

lemma host_address_text:
  assumes "To4 ip \<noteq> []"
  shows "IPNet_String \<lparr>IPNet_IP = ip, IPNet_Mask = [255, 255, 255, 255]\<rparr> = IP_String ip @ ''/'' @ itoa 32"
proof -
  from assms obtain p where "length p = 4" "To4 ip = p" "ip = p \<or> ip = v4InV6Prefix @ p" by (rule To4_cases)
  then show ?thesis unfolding all_ones using IPNet_String_v4 [of p 32] IP_String_v4 [of p] by auto
qed

lemma ParseAddr_host:
  assumes "ParseAddr (IPNet_String \<lparr>IPNet_IP = ip, IPNet_Mask = [255, 255, 255, 255]\<rparr>) = Inr a" "To4 ip \<noteq> []"
  shows "IPNet_String (ad_IPNet a) = IP_String ip @ ''/'' @ itoa 32"
proof -
  have p: "length (To4 ip) = 4" using assms(2) by (rule To4_cases) simp
  have t: "takeWhile (\<lambda>c. c \<noteq> CHR '' '') (dotted (To4 ip) @ ''/'' @ itoa 32) = dotted (To4 ip) @ ''/'' @ itoa 32"
    unfolding takeWhile_eq_all_conv using dotted_chars [of _ "To4 ip"] itoa_digits [of _ 32] no_blank by fastforce
  from assms(1) have "a = \<lparr>ad_IPNet = \<lparr>IPNet_IP = v4InV6Prefix @ To4 ip, IPNet_Mask = CIDRMask (int 32) 32\<rparr>, ad_Peer = None, ad_Scope = 0\<rparr>"
    unfolding host_address_text [OF assms(2)] IP_String_To4 [OF assms(2)] ParseAddr_def t
    using ParseCIDR_dotted [OF p, of 32] by simp
  then show ?thesis using IPNet_String_v4(2) [OF p, of 32] by (simp add: IP_String_To4 [OF assms(2)])
qed

section \<open>The contract\<close>

locale namespace_kernel =
  fixes k :: "'w kernel" and nss :: "'w namespaces"
    and view :: "'w \<Rightarrow> 'n netview" and files :: "'w \<Rightarrow> string \<Rightarrow> string" and ok :: "'w \<Rightarrow> bool"
    and ident :: "int \<Rightarrow> 'n" and isns :: "'w NetNS \<Rightarrow> bool"
  assumes unique: "ok w \<Longrightarrow> v_dev (view w) c i = Some d \<Longrightarrow> v_dev (view w) c j = Some e \<Longrightarrow> dv_name d = dv_name e \<Longrightarrow> i = j"
    and link_by_name: "ok w \<Longrightarrow> k_LinkByName k name w = (rl, w') \<Longrightarrow> becomes view files ok w w' (view w) \<and>
      (\<forall>l. rl = Inr l \<longrightarrow> (\<exists>d. here (view w) (lk_Index l) = Some d \<and> dv_name d = name \<and> dv_hw d = lk_HardwareAddr l))"
    and set_hw: "ok w \<Longrightarrow> here (view w) (lk_Index l) = Some d \<Longrightarrow> k_LinkSetHardwareAddr k l h w = (Inr u, w') \<Longrightarrow>
      \<exists>h'. becomes view files ok w w' (set_dev (view w) (lk_Index l) (d\<lparr>dv_hw := h'\<rparr>))"
    and set_name: "ok w \<Longrightarrow> here (view w) (lk_Index l) = Some d \<Longrightarrow> k_LinkSetName k l name w = (Inr u, w') \<Longrightarrow>
      becomes view files ok w w' (set_dev (view w) (lk_Index l) (d\<lparr>dv_name := name\<rparr>))"
    and set_up: "ok w \<Longrightarrow> here (view w) (lk_Index l) = Some d \<Longrightarrow> k_LinkSetUp k l w = (Inr u, w') \<Longrightarrow>
      becomes view files ok w w' (set_dev (view w) (lk_Index l) (d\<lparr>dv_up := True\<rparr>))"
    and arp_off: "ok w \<Longrightarrow> here (view w) (lk_Index l) = Some d \<Longrightarrow> k_LinkSetARPOff k l w = (Inr u, w') \<Longrightarrow>
      becomes view files ok w w' (set_dev (view w) (lk_Index l) (d\<lparr>dv_noarp := True\<rparr>))"
    and addr_add: "ok w \<Longrightarrow> here (view w) (lk_Index l) = Some d \<Longrightarrow> k_AddrAdd k l a w = (Inr u, w') \<Longrightarrow>
      becomes view files ok w w' (set_dev (view w) (lk_Index l)
        (d\<lparr>dv_addrs := dv_addrs d @ [(IPNet_String (ad_IPNet a), map_option IPNet_String (ad_Peer a))]\<rparr>))"
    and neigh_add: "ok w \<Longrightarrow> here (view w) (ne_LinkIndex q) = Some d \<Longrightarrow> k_NeighAdd k q w = (Inr u, w') \<Longrightarrow>
      ne_State q = NUD_PERMANENT \<Longrightarrow> becomes view files ok w w' (set_dev (view w) (ne_LinkIndex q)
        (d\<lparr>dv_neighs := dv_neighs d @ [(IP_String (ne_IP q), HardwareAddr_String (ne_HardwareAddr q))]\<rparr>))"
    and route_add: "ok w \<Longrightarrow> k_RouteAdd k t w = (Inr u, w') \<Longrightarrow>
      becomes view files ok w w' ((view w)\<lparr>v_routes := (v_routes (view w))(v_cur (view w) :=
        insert (Dst_String (ro_Dst t), IP_String (ro_Gw t), IP_String (ro_Src t)) (v_routes (view w) (v_cur (view w))))\<rparr>)"
    and sysctl: "ok w \<Longrightarrow> k_Sysctl k key [x] w = (rs, w') \<Longrightarrow>
      \<exists>s. becomes view files ok w w' (set_sys (view w) s) \<and>
        (\<forall>y. rs = Inr y \<longrightarrow> s = (v_sys (view w) (v_cur (view w)))(key \<mapsto> x))"
    and link_add: "ok w \<Longrightarrow> lk_kind l = Veth peer peerHw \<Longrightarrow> k_LinkAdd k l w = (Inr u, w') \<Longrightarrow>
      \<exists>i j h h'. i \<noteq> j \<and> here (view w) i = None \<and> here (view w) j = None \<and>
        becomes view files ok w w' (set_dev (set_dev (view w) i (new_device (lk_Name l) h (lk_Up l))) j (new_device peer h' False))"
    and set_ns: "ok w \<Longrightarrow> here (view w) (lk_Index l) = Some d \<Longrightarrow> k_LinkSetNsFd k l fd w = (Inr u, w') \<Longrightarrow>
      ident fd \<noteq> v_cur (view w) \<Longrightarrow>
      \<exists>j rts. v_dev (view w) (ident fd) j = None \<and>
        becomes view files ok w w' ((view w)\<lparr>v_dev := (v_dev (view w))(v_cur (view w) := (here (view w))(lk_Index l := None),
          ident fd := (v_dev (view w) (ident fd))(j \<mapsto> new_device (dv_name d) (dv_hw d) False)),
          v_routes := (v_routes (view w))(v_cur (view w) := rts)\<rparr>)"
    and link_del: "ok w \<Longrightarrow> here (view w) (lk_Index l) = Some d \<Longrightarrow> k_LinkDel k l w = (Inr u, w') \<Longrightarrow>
      files w' = files w \<and> ok w' \<and> v_cur (view w') = v_cur (view w) \<and> here (view w') (lk_Index l) = None \<and>
      (\<forall>c i. v_dev (view w') c i \<in> {None, v_dev (view w) c i})"
    and get_ns: "ok w \<Longrightarrow> n_GetNS nss path w = (rn, w') \<Longrightarrow>
      becomes view files ok w w' (view w) \<and> (\<forall>n. rn = Inr n \<longrightarrow> isns n)"
    and ns_do: "ok w \<Longrightarrow> isns n \<Longrightarrow> ns_Do n f w = (Some (Inr u), w') \<Longrightarrow>
      \<exists>w1 w2. becomes view files ok w w1 ((view w)\<lparr>v_cur := ident (ns_Fd n)\<rparr>) \<and> f w1 = (Some (Inr ()), w2) \<and>
        (ok w2 \<longrightarrow> becomes view files ok w2 w' ((view w2)\<lparr>v_cur := v_cur (view w)\<rparr>))"
begin

lemma hardware_addr_of_ok:
  assumes "hardware_addr_of s name w = (Some (Inr got), w')" "cm_NetlinkAdapter s = as_cni_netlinkAdapter k" "ok w"
    and "here (view w) i = Some d" "dv_name d = name"
  shows "becomes view files ok w w' (view w) \<and> got = HardwareAddr_String (dv_hw d)"
proof -
  from assms(1,2) obtain l where l: "k_LinkByName k name w = (Inr l, w')" "got = HardwareAddr_String (lk_HardwareAddr l)"
    by (auto simp: hardware_addr_of_def as_cni_netlinkAdapter_def LinkByName_def split: prod.splits sum.splits)
  from link_by_name [OF assms(3) l(1)] obtain e where e: "becomes view files ok w w' (view w)"
    "here (view w) (lk_Index l) = Some e" "dv_name e = name" "dv_hw e = lk_HardwareAddr l" by blast
  with unique [OF assms(3), of "v_cur (view w)" i d "lk_Index l" e] assms(4,5) have "e = d" by (auto simp: here_def)
  with e l(2) show ?thesis by simp
qed

lemma hwaddr_loop_ok:
  assumes "hwaddr_loop s name link hw n got w = (Some (Inr g), w')" "cm_NetlinkAdapter s = as_cni_netlinkAdapter k" "ok w"
    and "here (view w) (lk_Index link) = Some d" "dv_name d = name" "got = HardwareAddr_String (dv_hw d)"
  shows "\<exists>h. becomes view files ok w w' (set_dev (view w) (lk_Index link) (d\<lparr>dv_hw := h\<rparr>)) \<and> g = HardwareAddr_String h"
  using assms(1,3-6)
proof (induction n arbitrary: got w d)
  case 0
  then show ?case by (intro exI [of _ "dv_hw d"]) (simp add: becomes_def set_dev_same)
next
  case (Suc n)
  show ?case
  proof (cases "got = HardwareAddr_String hw")
    case True
    with Suc.prems show ?thesis by (intro exI [of _ "dv_hw d"]) (simp add: becomes_def set_dev_same)
  next
    case False
    with Suc.prems(1) obtain w1 got' w2 where s: "k_LinkSetHardwareAddr k link hw w = (Inr (), w1)"
      "hardware_addr_of s name w1 = (Some (Inr got'), w2)" "hwaddr_loop s name link hw n got' w2 = (Some (Inr g), w')"
      using assms(2) by (auto simp: then_do_Inr as_cni_netlinkAdapter_def LinkSetHardwareAddr_def)
    from set_hw [OF Suc.prems(2,3) s(1)] obtain h where 1: "becomes view files ok w w1 (set_dev (view w) (lk_Index link) (d\<lparr>dv_hw := h\<rparr>))" by blast
    then have w1: "ok w1" "here (view w1) (lk_Index link) = Some (d\<lparr>dv_hw := h\<rparr>)" by (simp_all add: becomes_def)
    from hardware_addr_of_ok [OF s(2) assms(2) w1] Suc.prems(4)
    have 2: "becomes view files ok w1 w2 (view w1)" "got' = HardwareAddr_String h" by simp_all
    then have w2: "ok w2" "here (view w2) (lk_Index link) = Some (d\<lparr>dv_hw := h\<rparr>)" using w1 by (simp_all add: becomes_def)
    from Suc.IH [OF s(3) w2] Suc.prems(4) 2(2) 1 2(1) show ?thesis by (auto simp: becomes_def)
  qed
qed

lemma static_neighbor_ok:
  assumes "StaticNeighborNoARP s link ip hw w = (Inr u, w')" "lo_NetlinkAdapter s = as_cni_netlinkAdapter k" "ok w"
    and "here (view w) (lk_Index link) = Some d"
  shows "becomes view files ok w w' (set_dev (view w) (lk_Index link)
    (d\<lparr>dv_noarp := True, dv_neighs := dv_neighs d @ [(IP_String ip, HardwareAddr_String hw)]\<rparr>))"
proof -
  let ?n = "\<lparr>ne_LinkIndex = lk_Index link, ne_Family = FAMILY_V4, ne_State = NUD_PERMANENT, ne_Type = 0, ne_Flags = 0,
       ne_IP = ip, ne_HardwareAddr = hw\<rparr>"
  from assms(1,2) obtain w1 where s: "k_LinkSetARPOff k link w = (Inr (), w1)" "k_NeighAdd k ?n w1 = (Inr (), w')"
    by (auto simp: StaticNeighborNoARP_def try_do_Inr as_cni_netlinkAdapter_def LinkSetARPOff_def NeighAddPermanentIPv4_def)
  from arp_off [OF assms(3,4) s(1)] have 1: "ok w1" "here (view w1) (lk_Index link) = Some (d\<lparr>dv_noarp := True\<rparr>)"
    "view w1 = set_dev (view w) (lk_Index link) (d\<lparr>dv_noarp := True\<rparr>)" "files w1 = files w" by (simp_all add: becomes_def)
  from neigh_add [of w1 ?n, OF 1(1) _ s(2)] 1 show ?thesis by (simp add: becomes_def)
qed

lemma point_to_point_ok:
  assumes "SetPointToPointAddress s link ip peer w = (Inr u, w')" "lo_NetlinkAdapter s = as_cni_netlinkAdapter k" "ok w"
    and "here (view w) (lk_Index link) = Some d" "To4 ip \<noteq> []" "To4 peer \<noteq> []"
  shows "becomes view files ok w w' (set_dev (view w) (lk_Index link)
    (d\<lparr>dv_addrs := dv_addrs d @ [(IP_String ip @ ''/'' @ itoa 32, Some (IP_String peer @ ''/'' @ itoa 32))]\<rparr>))"
proof -
  let ?peer = "\<lparr>IPNet_IP = peer, IPNet_Mask = [255, 255, 255, 255]\<rparr>"
  from assms(1,2) obtain a where s: "ParseAddr (IPNet_String \<lparr>IPNet_IP = ip, IPNet_Mask = [255, 255, 255, 255]\<rparr>) = Inr a"
    "k_AddrAdd k link (a\<lparr>ad_Peer := Some ?peer, ad_Scope := SCOPE_LINK\<rparr>) w = (Inr (), w')"
    by (auto simp: SetPointToPointAddress_def Let_def try_do_Inr as_cni_netlinkAdapter_def AddrAddScopeLink_def)
  from addr_add [OF assms(3,4) s(2)] show ?thesis
    by (simp add: ParseAddr_host [OF s(1) assms(5)] host_address_text [OF assms(6)])
qed

lemma disable_ipv6_ok:
  assumes "DisableIPv6 s name w = (r, w')" "lo_Sysctl s = Sysctl k" "ok w"
  shows "\<exists>t. becomes view files ok w w' (set_sys (view w) t)"
proof -
  from assms(1,2) obtain r' where "k_Sysctl k (''net.ipv6.conf.'' @ name @ ''.disable_ipv6'') [''1''] w = (r', w')"
    by (auto simp: DisableIPv6_def try_do_cases Sysctl_def)
  from sysctl [OF assms(3) this] show ?thesis by blast
qed

lemma rp_filter_ok:
  assumes "EnableReversePathFiltering s name w = (Inr u, w')" "lo_Sysctl s = Sysctl k" "ok w"
  shows "becomes view files ok w w'
    (set_sys (view w) ((v_sys (view w) (v_cur (view w)))(''net.ipv4.conf.'' @ name @ ''.rp_filter'' \<mapsto> ''1'')))"
proof -
  from assms(1,2) obtain y where "k_Sysctl k (''net.ipv4.conf.'' @ name @ ''.rp_filter'') [''1''] w = (Inr y, w')"
    by (auto simp: EnableReversePathFiltering_def try_do_Inr Sysctl_def)
  from sysctl [OF assms(3) this] show ?thesis by blast
qed

lemma forwarding_ok:
  assumes "EnableIPv4Forwarding s w = (Inr u, w')" "lo_Sysctl s = Sysctl k" "ok w"
  shows "becomes view files ok w w' (set_sys (view w) ((v_sys (view w) (v_cur (view w)))(''net.ipv4.ip_forward'' \<mapsto> ''1'')))"
proof -
  from assms(1,2) obtain y where "k_Sysctl k ''net.ipv4.ip_forward'' [''1''] w = (Inr y, w')"
    by (auto simp: EnableIPv4Forwarding_def try_do_Inr Sysctl_def)
  from sysctl [OF assms(3) this] show ?thesis by blast
qed

lemma rename_ok:
  assumes "RenameLink s old new w = (Inr u, w')" "lo_NetlinkAdapter s = as_cni_netlinkAdapter k" "ok w"
    and "here (view w) i = Some d" "dv_name d = old"
  shows "becomes view files ok w w' (set_dev (view w) i (d\<lparr>dv_name := new\<rparr>))"
proof -
  from assms(1,2) obtain l w1 where s: "k_LinkByName k old w = (Inr l, w1)" "k_LinkSetName k l new w1 = (Inr (), w')"
    by (auto simp: RenameLink_def try_do_Inr as_cni_netlinkAdapter_def LinkByName_def LinkSetName_def)
  from link_by_name [OF assms(3) s(1)] obtain e where e: "becomes view files ok w w1 (view w)" "here (view w) (lk_Index l) = Some e" "dv_name e = old"
    by blast
  with unique [OF assms(3), of "v_cur (view w)" i d "lk_Index l" e] assms(4,5) have i: "lk_Index l = i" by (auto simp: here_def)
  from e(1) have 1: "ok w1" "view w1 = view w" "files w1 = files w" by (simp_all add: becomes_def)
  from set_name [OF 1(1) _ s(2)] 1 i assms(4) show ?thesis by (simp add: becomes_def)
qed

text \<open>The setup of one end of the pair.\<close>

lemma basic_setup_ok:
  assumes "BasicSetup c name loc peer w = (Some (Inr u), w')" "ok w" "here (view w) i = Some d" "dv_name d = name"
    and "cm_NetlinkAdapter c = as_cni_netlinkAdapter k" "cm_LinkOperations c = as_linkOperations s"
    and "lo_NetlinkAdapter s = as_cni_netlinkAdapter k" "lo_Sysctl s = Sysctl k"
    and "To4 (da_IP loc) \<noteq> []" "To4 (da_IP peer) \<noteq> []"
  shows "\<exists>h t. HardwareAddr_String h = HardwareAddr_String (da_Hardware loc) \<and> t (''net.ipv4.conf.'' @ name @ ''.rp_filter'') = Some ''1'' \<and>
    becomes view files ok w w' (set_sys (set_dev (view w) i (configured d h loc peer)) t)"
proof -
  from assms(1,5,6) obtain link w1 got w2 w3 r4 w4 w5 w6 w7 where s: "k_LinkByName k name w = (Inr link, w1)"
    "hardware_addr_of c name w1 = (Some (Inr got), w2)"
    "hwaddr_loop c name link (da_Hardware loc) MAX_ATTEMPTS got w2 = (Some (Inr (HardwareAddr_String (da_Hardware loc))), w3)"
    "DisableIPv6 s name w3 = (r4, w4)" "StaticNeighborNoARP s link (da_IP peer) (da_Hardware peer) w4 = (Inr (), w5)"
    "SetPointToPointAddress s link (da_IP loc) (da_IP peer) w5 = (Inr (), w6)"
    "EnableReversePathFiltering s name w6 = (Inr (), w7)" "k_LinkSetUp k link w7 = (Inr (), w')"
    by (auto simp: BasicSetup_def then_do_Inr try_do_Inr as_cni_netlinkAdapter_def as_linkOperations_def LinkByName_def LinkSetUp_def
        split: if_splits) (metis prod.collapse)
  from link_by_name [OF assms(2) s(1)] obtain e where e: "becomes view files ok w w1 (view w)" "here (view w) (lk_Index link) = Some e" "dv_name e = name"
    by blast
  with unique [OF assms(2), of "v_cur (view w)" i d "lk_Index link" e] assms(3,4) have i: "lk_Index link = i" by (auto simp: here_def)
  have 1: "ok w1" "view w1 = view w" "files w1 = files w" using e(1) by (simp_all add: becomes_def)
  from hardware_addr_of_ok [OF s(2) assms(5) 1(1), of i d] 1 assms(3,4)
  have 2: "ok w2" "view w2 = view w" "files w2 = files w" "got = HardwareAddr_String (dv_hw d)" by (simp_all add: becomes_def)
  from hwaddr_loop_ok [OF s(3) assms(5) 2(1), of d] 2 i assms(3,4) obtain h where
    h: "HardwareAddr_String h = HardwareAddr_String (da_Hardware loc)"
    and 3: "ok w3" "view w3 = set_dev (view w) i (d\<lparr>dv_hw := h\<rparr>)" "files w3 = files w" by (auto simp: becomes_def)
  from disable_ipv6_ok [OF s(4) assms(8) 3(1)] obtain t where
    4: "ok w4" "view w4 = set_sys (set_dev (view w) i (d\<lparr>dv_hw := h\<rparr>)) t" "files w4 = files w" using 3 by (auto simp: becomes_def)
  from static_neighbor_ok [OF s(5) assms(7) 4(1)] 4 i have
    5: "ok w5" "view w5 = set_sys (set_dev (view w) i (d\<lparr>dv_hw := h, dv_noarp := True,
      dv_neighs := dv_neighs d @ [(IP_String (da_IP peer), HardwareAddr_String (da_Hardware peer))]\<rparr>)) t" "files w5 = files w"
    by (simp_all add: becomes_def set_dev_sys)
  from point_to_point_ok [OF s(6) assms(7) 5(1) _ assms(9,10)] 5 i have
    6: "ok w6" "view w6 = set_sys (set_dev (view w) i (d\<lparr>dv_hw := h, dv_noarp := True,
      dv_neighs := dv_neighs d @ [(IP_String (da_IP peer), HardwareAddr_String (da_Hardware peer))],
      dv_addrs := dv_addrs d @ [(IP_String (da_IP loc) @ ''/'' @ itoa 32, Some (IP_String (da_IP peer) @ ''/'' @ itoa 32))]\<rparr>)) t" "files w6 = files w"
    by (simp_all add: becomes_def set_dev_sys)
  let ?t = "t(''net.ipv4.conf.'' @ name @ ''.rp_filter'' \<mapsto> ''1'')"
  from rp_filter_ok [OF s(7) assms(8) 6(1)] 6 have
    7: "ok w7" "view w7 = set_sys (set_dev (view w) i (d\<lparr>dv_hw := h, dv_noarp := True,
      dv_neighs := dv_neighs d @ [(IP_String (da_IP peer), HardwareAddr_String (da_Hardware peer))],
      dv_addrs := dv_addrs d @ [(IP_String (da_IP loc) @ ''/'' @ itoa 32, Some (IP_String (da_IP peer) @ ''/'' @ itoa 32))]\<rparr>)) ?t" "files w7 = files w"
    by (simp_all add: becomes_def set_sys_def)
  from set_up [OF 7(1) _ s(8)] 7 i have
    "becomes view files ok w w' (set_sys (set_dev (view w) i (configured d h loc peer)) ?t)"
    by (simp add: becomes_def set_dev_sys configured_def)
  with h show ?thesis by (intro exI [of _ h] exI [of _ ?t]) simp
qed

lemma veth_create_ok:
  assumes "VethPairCreator_Create \<lparr>vp_NetlinkAdapter = as_cni_netlinkAdapter k\<rparr> cfg w = (Some (Inr u), w')" "ok w"
    and "isns (ho_Namespace (cf_Host cfg))" "ident (ns_Fd (ho_Namespace (cf_Host cfg))) = hid"
    and "ident (ns_Fd (co_Namespace (cf_Container cfg))) = cid" "hid \<noteq> cid"
  shows "\<exists>i j h h' rts. v_dev (view w) hid i = None \<and> v_dev (view w) cid j = None \<and>
    becomes view files ok w w' ((view w)\<lparr>v_dev := (v_dev (view w))
      (hid := (v_dev (view w) hid)(i \<mapsto> new_device (ho_DeviceName (cf_Host cfg)) h True),
       cid := (v_dev (view w) cid)(j \<mapsto> new_device (co_TemporaryDeviceName (cf_Container cfg)) h' False)),
      v_routes := (v_routes (view w))(hid := rts)\<rparr>)"
proof -
  let ?tmp = "co_TemporaryDeviceName (cf_Container cfg)" and ?fd = "ns_Fd (co_Namespace (cf_Container cfg))"
  from ns_do [OF assms(2,3) assms(1) [unfolded VethPairCreator_Create_def Let_def]] obtain w1 w2 l w3 w4 where
    1: "becomes view files ok w w1 ((view w)\<lparr>v_cur := hid\<rparr>)"
    and s: "k_LinkAdd k (veth_request cfg) w1 = (Inr (), w3)" "k_LinkByName k ?tmp w3 = (Inr l, w4)"
      "k_LinkSetNsFd k l ?fd w4 = (Inr (), w2)"
    and 2: "ok w2 \<longrightarrow> becomes view files ok w2 w' ((view w2)\<lparr>v_cur := v_cur (view w)\<rparr>)"
    unfolding assms(4) by (auto simp: try_do_Inr as_cni_netlinkAdapter_def LinkAdd_def LinkByName_def LinkSetNsFd_def)
  let ?v1 = "(view w)\<lparr>v_cur := hid\<rparr>"
  have w1: "ok w1" "view w1 = ?v1" "files w1 = files w" using 1 by (simp_all add: becomes_def)
  from link_add [OF w1(1) _ s(1), of ?tmp "da_Hardware (co_Address (cf_Container cfg))"] obtain i j h h' where
    ij: "i \<noteq> j" "v_dev (view w) hid i = None" "v_dev (view w) hid j = None"
    and 3: "ok w3" "view w3 = set_dev (set_dev ?v1 i (new_device (ho_DeviceName (cf_Host cfg)) h True)) j (new_device ?tmp h' False)"
      "files w3 = files w"
    using w1 by (auto simp: veth_request_def here_def becomes_def)
  have j: "v_dev (view w3) hid j = Some (new_device ?tmp h' False)" using 3(2) by (simp add: set_dev_def)
  from link_by_name [OF 3(1) s(2)] obtain e where e: "becomes view files ok w3 w4 (view w3)" "here (view w3) (lk_Index l) = Some e" "dv_name e = ?tmp"
    by blast
  have "lk_Index l = j" using unique [OF 3(1) j, of "lk_Index l" e] e(2,3) 3(2) by (simp add: here_def new_device_def)
  moreover have w4: "ok w4" "view w4 = view w3" "files w4 = files w" using e(1) 3(3) by (simp_all add: becomes_def)
  moreover have "v_cur (view w3) = hid" using 3(2) by simp
  ultimately obtain j' rts where j': "v_dev (view w3) cid j' = None"
    and 5: "becomes view files ok w4 w2 ((view w3)\<lparr>v_dev := (v_dev (view w3))(hid := (v_dev (view w3) hid)(j := None),
        cid := (v_dev (view w3) cid)(j' \<mapsto> new_device ?tmp h' False)), v_routes := (v_routes (view w3))(hid := rts)\<rparr>)"
    using set_ns [OF w4(1) _ s(3)] j assms(5,6) by (auto simp: here_def new_device_def)
  have c: "v_dev (view w3) cid = v_dev (view w) cid" using 3(2) assms(6) by (simp add: set_dev_def here_def)
  have h: "(v_dev (view w3) hid)(j := None) = (v_dev (view w) hid)(i \<mapsto> new_device (ho_DeviceName (cf_Host cfg)) h True)"
    using 3(2) ij by (auto simp: set_dev_def here_def)
  have r: "v_dev (view w3) n = v_dev (view w) n" if "n \<noteq> hid" for n using 3(2) that by (simp add: set_dev_def here_def)
  have f: "(v_dev (view w3))(hid := (v_dev (view w3) hid)(j := None), cid := (v_dev (view w3) cid)(j' \<mapsto> new_device ?tmp h' False))
      = (v_dev (view w))(hid := (v_dev (view w) hid)(i \<mapsto> new_device (ho_DeviceName (cf_Host cfg)) h True),
         cid := (v_dev (view w) cid)(j' \<mapsto> new_device ?tmp h' False))"
    unfolding h c by (auto simp: r fun_eq_iff)
  have "ok w2" using 5 by (simp add: becomes_def)
  with 2 5 w4(3) 3(2) have "becomes view files ok w w' ((view w)\<lparr>v_dev := (v_dev (view w))
      (hid := (v_dev (view w) hid)(i \<mapsto> new_device (ho_DeviceName (cf_Host cfg)) h True),
       cid := (v_dev (view w) cid)(j' \<mapsto> new_device ?tmp h' False)), v_routes := (v_routes (view w))(hid := rts)\<rparr>)"
    unfolding f by (simp add: becomes_def set_dev_def)
  with ij(2) j' c show ?thesis by metis
qed

lemma host_setup_ok:
  assumes "Host_Setup \<lparr>hs_BasicSetup = BasicSetup c, hs_LinkOperations = as_linkOperations s\<rparr> cfg w = (Some (Inr u), w')" "ok w"
    and "isns (ho_Namespace (cf_Host cfg))" "ident (ns_Fd (ho_Namespace (cf_Host cfg))) = hid"
    and "v_dev (view w) hid i = Some d" "dv_name d = ho_DeviceName (cf_Host cfg)"
    and "cm_NetlinkAdapter c = as_cni_netlinkAdapter k" "cm_LinkOperations c = as_linkOperations s"
    and "lo_NetlinkAdapter s = as_cni_netlinkAdapter k" "lo_Sysctl s = Sysctl k"
    and "To4 (da_IP (ho_Address (cf_Host cfg))) \<noteq> []" "To4 (da_IP (co_Address (cf_Container cfg))) \<noteq> []"
  shows "\<exists>h t. HardwareAddr_String h = HardwareAddr_String (da_Hardware (ho_Address (cf_Host cfg))) \<and>
    t (''net.ipv4.conf.'' @ ho_DeviceName (cf_Host cfg) @ ''.rp_filter'') = Some ''1'' \<and> t ''net.ipv4.ip_forward'' = Some ''1'' \<and>
    becomes view files ok w w' ((view w)\<lparr>v_dev := (v_dev (view w))(hid := (v_dev (view w) hid)
      (i \<mapsto> configured d h (ho_Address (cf_Host cfg)) (co_Address (cf_Container cfg)))), v_sys := (v_sys (view w))(hid := t)\<rparr>)"
proof -
  let ?loc = "ho_Address (cf_Host cfg)" and ?peer = "co_Address (cf_Container cfg)"
  from ns_do [OF assms(2,3) assms(1) [unfolded Host_Setup_def Let_def]] obtain w1 w2 w3 where
    1: "becomes view files ok w w1 ((view w)\<lparr>v_cur := hid\<rparr>)"
    and s: "BasicSetup c (ho_DeviceName (cf_Host cfg)) ?loc ?peer w1 = (Some (Inr ()), w3)" "EnableIPv4Forwarding s w3 = (Inr (), w2)"
    and 2: "ok w2 \<longrightarrow> becomes view files ok w2 w' ((view w2)\<lparr>v_cur := v_cur (view w)\<rparr>)"
    unfolding assms(4) by (auto simp: then_do_Inr try_do_Inr as_linkOperations_def)
  have w1: "ok w1" "here (view w1) i = Some d" using 1 assms(5) by (simp_all add: becomes_def here_def)
  from basic_setup_ok [OF s(1) w1 assms(6-12)] obtain h t where
    h: "HardwareAddr_String h = HardwareAddr_String (da_Hardware ?loc)" "t (''net.ipv4.conf.'' @ ho_DeviceName (cf_Host cfg) @ ''.rp_filter'') = Some ''1''"
    and 3: "becomes view files ok w1 w3 (set_sys (set_dev (view w1) i (configured d h ?loc ?peer)) t)" by blast
  then have "ok w3" by (simp add: becomes_def)
  from forwarding_ok [OF s(2) assms(10) this] 1 2 3 h show ?thesis
    by (intro exI [of _ h] exI [of _ "t(''net.ipv4.ip_forward'' \<mapsto> ''1'')"]) (simp add: becomes_def set_dev_def set_sys_def here_def)
qed

lemma container_setup_ok:
  assumes "Container_Setup \<lparr>ct_BasicSetup = BasicSetup c, ct_LinkOperations = as_linkOperations s\<rparr> cfg w = (Some (Inr u), w')" "ok w"
    and "isns (co_Namespace (cf_Container cfg))" "ident (ns_Fd (co_Namespace (cf_Container cfg))) = cid"
    and "v_dev (view w) cid j = Some d" "dv_name d = co_TemporaryDeviceName (cf_Container cfg)"
    and "cm_NetlinkAdapter c = as_cni_netlinkAdapter k" "cm_LinkOperations c = as_linkOperations s"
    and "lo_NetlinkAdapter s = as_cni_netlinkAdapter k" "lo_Sysctl s = Sysctl k"
    and "To4 (da_IP (co_Address (cf_Container cfg))) \<noteq> []" "To4 (da_IP (ho_Address (cf_Host cfg))) \<noteq> []"
    and "co_Routes (cf_Container cfg) = [r]"
  shows "\<exists>h t. HardwareAddr_String h = HardwareAddr_String (da_Hardware (co_Address (cf_Container cfg))) \<and>
    t (''net.ipv4.conf.'' @ co_DeviceName (cf_Container cfg) @ ''.rp_filter'') = Some ''1'' \<and>
    becomes view files ok w w' ((view w)\<lparr>v_dev := (v_dev (view w))(cid := (v_dev (view w) cid)
      (j \<mapsto> configured (d\<lparr>dv_name := co_DeviceName (cf_Container cfg)\<rparr>) h (co_Address (cf_Container cfg)) (ho_Address (cf_Host cfg)))),
      v_routes := (v_routes (view w))(cid := insert (IPNet_String (rt_Dst r), IP_String (rt_GW r), IP_String (da_IP (co_Address (cf_Container cfg))))
        (v_routes (view w) cid)), v_sys := (v_sys (view w))(cid := t)\<rparr>)"
proof -
  let ?loc = "co_Address (cf_Container cfg)" and ?peer = "ho_Address (cf_Host cfg)" and ?name = "co_DeviceName (cf_Container cfg)"
  let ?r = "\<lparr>ro_LinkIndex = 0, ro_Scope = SCOPE_UNIVERSE, ro_Dst = Some (rt_Dst r), ro_Gw = rt_GW r, ro_Src = da_IP ?loc\<rparr>"
  let ?d = "d\<lparr>dv_name := ?name\<rparr>"
  from ns_do [OF assms(2,3) assms(1) [unfolded Container_Setup_def Let_def]] obtain w1 w2 w3 w4 where
    1: "becomes view files ok w w1 ((view w)\<lparr>v_cur := cid\<rparr>)"
    and s: "RenameLink s (co_TemporaryDeviceName (cf_Container cfg)) ?name w1 = (Inr (), w3)"
      "BasicSetup c ?name ?loc ?peer w3 = (Some (Inr ()), w4)" "k_RouteAdd k ?r w4 = (Inr (), w2)"
    and 2: "ok w2 \<longrightarrow> becomes view files ok w2 w' ((view w2)\<lparr>v_cur := v_cur (view w)\<rparr>)"
    unfolding assms(4) using assms(9,13)
    by (auto simp: then_do_Inr try_do_Inr as_linkOperations_def RouteAddAll_def as_cni_netlinkAdapter_def RouteAdd_def)
  have w1: "ok w1" "here (view w1) j = Some d" using 1 assms(5) by (simp_all add: becomes_def here_def)
  from rename_ok [OF s(1) assms(9) w1 assms(6)] have 3: "becomes view files ok w1 w3 (set_dev (view w1) j ?d)" .
  then have w3: "ok w3" "here (view w3) j = Some ?d" by (simp_all add: becomes_def)
  from basic_setup_ok [OF s(2) w3 _ assms(7-12)] obtain h t where
    h: "HardwareAddr_String h = HardwareAddr_String (da_Hardware ?loc)" "t (''net.ipv4.conf.'' @ ?name @ ''.rp_filter'') = Some ''1''"
    and 4: "becomes view files ok w3 w4 (set_sys (set_dev (view w3) j (configured ?d h ?loc ?peer)) t)" by auto
  then have "ok w4" by (simp add: becomes_def)
  from route_add [OF this s(3)] 1 2 3 4 h show ?thesis
    by (intro exI [of _ h] exI [of _ t]) (simp add: becomes_def set_dev_def set_sys_def here_def Dst_String_def)
qed

end

end
