(* ===== verification/Cni_System.thy ===== *)
theory Cni_System
  imports Cni_Contract
begin

text \<open>
  The properties of the plugin: what a successful \<^verbatim>\<open>ADD\<close> makes of the network and the store, and what \<^verbatim>\<open>DEL\<close> leaves.
\<close>

section \<open>The services\<close>

lemma json_Do_get:
  assumes "json_Do c ''GET'' route None dec w = (Inr x, w')"
  obtains rh where "jc_HttpClient c ''GET'' (jc_Url c @ route) [] w = (rh, w')"
proof (cases "jc_HttpClient c ''GET'' (jc_Url c @ route) [] w")
  case (Pair rh w1)
  with assms have "w1 = w'"
    by (simp add: json_Do_def Let_def split: option.splits prod.splits sum.splits if_splits)
  with Pair that show ?thesis by blast
qed

text \<open>
  One end of a pair that works: up, with the hardware address it should have, its address towards the peer, and the peer as
  its only neighbour, which is why it needs no ARP.
\<close>

definition end_ok :: "'n netview \<Rightarrow> 'n \<Rightarrow> string \<Rightarrow> DualAddress \<Rightarrow> DualAddress \<Rightarrow> bool" where
  "end_ok v n name loc peer \<longleftrightarrow>
     (\<exists>i d. v_dev v n i = Some d \<and> dv_name d = name \<and> HardwareAddr_String (dv_hw d) = HardwareAddr_String (da_Hardware loc) \<and>
        dv_up d \<and> dv_noarp d \<and>
        dv_addrs d = [(IP_String (da_IP loc) @ ''/'' @ itoa 32, Some (IP_String (da_IP peer) @ ''/'' @ itoa 32))] \<and>
        dv_neighs d = [(IP_String (da_IP peer), HardwareAddr_String (da_Hardware peer))] \<and>
        v_sys v n (''net.ipv4.conf.'' @ name @ ''.rp_filter'') = Some ''1'')"

text \<open>Besides the kernel: the files of the store, and services that touch neither them nor the devices.\<close>

locale cni_services =
  namespace_kernel "ne_kernel env" "ne_namespaces env" view files ok ident isns +
  locked_files "ne_NewLocker env" file_at files pos
  for env :: "'w cni_env" and view :: "'w \<Rightarrow> 'n netview" and files ok ident isns file_at pos +
  assumes http_quiet: "ok w \<Longrightarrow> ne_httpClient env m url body w = (rh, w') \<Longrightarrow> becomes view files ok w w' (view w)"
    and file_quiet: "ok w \<Longrightarrow> ReadFile (ne_io env) path w = (rr, w') \<Longrightarrow> becomes view files ok w w' (view w)"
    and delegate_quiet: "ok w \<Longrightarrow> ne_DelegateAdd env plugin conf w = (ra, w') \<Longrightarrow> becomes view files ok w w' (view w)"
    and delegate_del_quiet: "ok w \<Longrightarrow> ne_DelegateDel env plugin conf w = (rd, w') \<Longrightarrow> becomes view files ok w w' (view w)"
    and print_quiet: "ok w \<Longrightarrow> ne_PrintResult env res version w = (rp, w') \<Longrightarrow> becomes view files ok w w' (view w)"
    and lock_quiet: "ok w \<Longrightarrow> ne_NewLocker env path w = (rf, w') \<Longrightarrow> view w' = view w \<and> ok w'"
    and seek_quiet: "file_at f path \<Longrightarrow> ok w \<Longrightarrow> of_Seek f off w = (rk, w') \<Longrightarrow> view w' = view w \<and> ok w'"
    and read_quiet: "file_at f path \<Longrightarrow> ok w \<Longrightarrow> of_Read f w = (rr, w') \<Longrightarrow> view w' = view w \<and> ok w'"
    and truncate_quiet: "file_at f path \<Longrightarrow> ok w \<Longrightarrow> of_Truncate f len w = (rt, w') \<Longrightarrow> view w' = view w \<and> ok w'"
    and write_quiet: "file_at f path \<Longrightarrow> ok w \<Longrightarrow> of_Write f txt w = (rw, w') \<Longrightarrow> view w' = view w \<and> ok w'"
    and close_quiet: "file_at f path \<Longrightarrow> ok w \<Longrightarrow> of_Close f w = (rc, w') \<Longrightarrow> view w' = view w \<and> ok w'"
begin

lemma decode_quiet:
  assumes "DecodeAll dec z f w = (r, w')" "file_at f path" "ok w"
  shows "view w' = view w \<and> ok w'"
proof -
  from assms(1) consider e where "of_Seek f 0 w = (Inl e, w')" | i w1 rr where "of_Seek f 0 w = (Inr i, w1)" "of_Read f w1 = (rr, w')"
    by (auto simp: DecodeAll_def try_do_cases split: option.split_asm sum.split_asm) (metis sum.exhaust)
  then show ?thesis using seek_quiet [OF assms(2)] read_quiet [OF assms(2)] assms(3) by cases metis+
qed

lemma encode_quiet:
  assumes "EncodeAndOverwrite enc f x w = (r, w')" "file_at f path" "ok w"
  shows "view w' = view w \<and> ok w'"
proof -
  from assms(1) consider e where "of_Seek f 0 w = (Inl e, w')"
    | i w1 e where "of_Seek f 0 w = (Inr i, w1)" "of_Truncate f 0 w1 = (Inl e, w')"
    | i w1 w2 where "of_Seek f 0 w = (Inr i, w1)" "of_Truncate f 0 w1 = (Inr (), w2)" "of_Write f (json_text (enc x) @ [CHR 0x0A]) w2 = (r, w')"
    by (auto simp: EncodeAndOverwrite_def try_do_cases)
  then show ?thesis
    using seek_quiet [OF assms(2)] truncate_quiet [OF assms(2)] write_quiet [OF assms(2)] assms(3) by cases metis+
qed

lemma store_add_quiet:
  assumes "Store_Add (silk_Store (ne_NewLocker env)) path h ip md w = (Inr u, w')" "ok w"
  shows "view w' = view w \<and> ok w'"
proof -
  let ?c = "\<lparr>Handle = h, Container_IP = ip, Metadata = md\<rparr>"
  from assms(1) obtain f w1 w2 w3 rc pool where s: "ne_NewLocker env path w = (Inr f, w1)" "DecodeAll dec_pool [] f w1 = (Inr pool, w2)"
    "EncodeAndOverwrite enc_pool f (AList.update h ?c pool) w2 = (Inr (), w3)" "of_Close f w3 = (rc, w')"
    by (auto simp: Store_Add_def silk_Store_def try_do_Inr deferring_cases)
  have f: "file_at f path" using open_file [OF s(1)] by simp
  from lock_quiet [OF assms(2) s(1)] decode_quiet [OF s(2) f] encode_quiet [OF s(3) f] close_quiet [OF f _ s(4)] show ?thesis by simp
qed

lemma network_info_quiet:
  assumes "cni_getNetworkInfo env conf w = (Inr info, w')" "ok w"
  shows "becomes view files ok w w' (view w)"
proof (cases "nc_SubnetFile conf = []")
  case True
  let ?url = "''http://127.0.0.1:'' @ sprintf_d (nc_DaemonPort conf)"
  from assms(1) True obtain x where "json_Do (json_client_New (ne_httpClient env) (ne_newRequest env) ?url) ''GET'' ''/'' None
      (json_Unmarshal dec_NetworkInfo) w = (Inr x, w')"
    by (auto simp: cni_getNetworkInfo_def Discover_def netinfo_Daemon_Get_def try_do_Inr split: if_splits)
  then obtain rh where "ne_httpClient env ''GET'' (?url @ ''/'') [] w = (rh, w')"
    by (rule json_Do_get) (simp only: json_client_New_def json_Client.select_convs)
  from http_quiet [OF assms(2) this] show ?thesis .
next
  case False
  with assms(1) obtain b where "ReadFile (ne_io env) (nc_SubnetFile conf) w = (Inr b, w')"
    by (auto simp: cni_getNetworkInfo_def Discover_def Flannel_Get_def try_do_Inr Let_def split: if_splits)
  from file_quiet [OF assms(2) this] show ?thesis .
qed

lemma pair_ok:
  assumes "VethPairCreator_Create \<lparr>vp_NetlinkAdapter = as_cni_netlinkAdapter (ne_kernel env)\<rparr> cfg w = (Some (Inr ()), w1)"
    and "Host_Setup \<lparr>hs_BasicSetup = BasicSetup c, hs_LinkOperations = as_linkOperations s\<rparr> cfg w1 = (Some (Inr ()), w2)"
    and "Container_Setup \<lparr>ct_BasicSetup = BasicSetup c, ct_LinkOperations = as_linkOperations s\<rparr> cfg w2 = (Some (Inr ()), w3)"
    and c: "cm_NetlinkAdapter c = as_cni_netlinkAdapter (ne_kernel env)" "cm_LinkOperations c = as_linkOperations s"
      "lo_NetlinkAdapter s = as_cni_netlinkAdapter (ne_kernel env)" "lo_Sysctl s = Sysctl (ne_kernel env)"
    and ok: "ok w" and ns: "isns (ho_Namespace (cf_Host cfg))" "ident (ns_Fd (ho_Namespace (cf_Host cfg))) = hid"
    and cns: "isns (co_Namespace (cf_Container cfg))" "ident (ns_Fd (co_Namespace (cf_Container cfg))) = cid" "hid \<noteq> cid"
    and ip: "To4 (da_IP (ho_Address (cf_Host cfg))) \<noteq> []" "To4 (da_IP (co_Address (cf_Container cfg))) \<noteq> []"
    and r: "co_Routes (cf_Container cfg) = [r]"
  shows "ok w3 \<and> files w3 = files w \<and>
    end_ok (view w3) hid (ho_DeviceName (cf_Host cfg)) (ho_Address (cf_Host cfg)) (co_Address (cf_Container cfg)) \<and>
    end_ok (view w3) cid (co_DeviceName (cf_Container cfg)) (co_Address (cf_Container cfg)) (ho_Address (cf_Host cfg)) \<and>
    (IPNet_String (rt_Dst r), IP_String (rt_GW r), IP_String (da_IP (co_Address (cf_Container cfg)))) \<in> v_routes (view w3) cid \<and>
    v_sys (view w3) hid ''net.ipv4.ip_forward'' = Some ''1'' \<and>
    (\<forall>n i d. v_dev (view w) n i = Some d \<longrightarrow> v_dev (view w3) n i = Some d)"
proof -
  let ?host = "ho_Address (cf_Host cfg)" and ?ctr = "co_Address (cf_Container cfg)"
  let ?hn = "ho_DeviceName (cf_Host cfg)" and ?cn = "co_DeviceName (cf_Container cfg)"
  from veth_create_ok [OF assms(1) ok ns cns(2,3)] obtain i j h h' rts where
    ij: "v_dev (view w) hid i = None" "v_dev (view w) cid j = None" and 1: "ok w1" "files w1 = files w"
    and v1: "view w1 = (view w)\<lparr>v_dev := (v_dev (view w))(hid := (v_dev (view w) hid)(i \<mapsto> new_device ?hn h True),
       cid := (v_dev (view w) cid)(j \<mapsto> new_device (co_TemporaryDeviceName (cf_Container cfg)) h' False)),
       v_routes := (v_routes (view w))(hid := rts)\<rparr>"
    by (auto simp: becomes_def)
  have "v_dev (view w1) hid i = Some (new_device ?hn h True)" using v1 cns(3) by simp
  from host_setup_ok [OF assms(2) 1(1) ns this _ c ip] obtain g t where
    g: "HardwareAddr_String g = HardwareAddr_String (da_Hardware ?host)" "t (''net.ipv4.conf.'' @ ?hn @ ''.rp_filter'') = Some ''1''"
      "t ''net.ipv4.ip_forward'' = Some ''1''" and 2: "ok w2" "files w2 = files w"
    and v2: "view w2 = (view w1)\<lparr>v_dev := (v_dev (view w1))(hid := (v_dev (view w1) hid)(i \<mapsto> configured (new_device ?hn h True) g ?host ?ctr)),
      v_sys := (v_sys (view w1))(hid := t)\<rparr>"
    using 1 by (auto simp: becomes_def new_device_def)
  let ?d = "new_device (co_TemporaryDeviceName (cf_Container cfg)) h' False"
  have "v_dev (view w2) cid j = Some ?d" using v1 v2 cns(3) by simp
  from container_setup_ok [OF assms(3) 2(1) cns(1,2) this _ c ip(2,1) r] obtain g' t' where
    g': "HardwareAddr_String g' = HardwareAddr_String (da_Hardware ?ctr)" "t' (''net.ipv4.conf.'' @ ?cn @ ''.rp_filter'') = Some ''1''"
    and 3: "ok w3" "files w3 = files w"
    and v3: "view w3 = (view w2)\<lparr>v_dev := (v_dev (view w2))(cid := (v_dev (view w2) cid)(j \<mapsto> configured (?d\<lparr>dv_name := ?cn\<rparr>) g' ?ctr ?host)),
      v_routes := (v_routes (view w2))(cid := insert (IPNet_String (rt_Dst r), IP_String (rt_GW r), IP_String (da_IP ?ctr)) (v_routes (view w2) cid)),
      v_sys := (v_sys (view w2))(cid := t')\<rparr>"
    using 2 by (auto simp: becomes_def new_device_def)
  have d: "v_dev (view w3) = (v_dev (view w))(hid := (v_dev (view w) hid)(i \<mapsto> configured (new_device ?hn h True) g ?host ?ctr),
       cid := (v_dev (view w) cid)(j \<mapsto> configured (?d\<lparr>dv_name := ?cn\<rparr>) g' ?ctr ?host))"
    using v1 v2 v3 cns(3) by (simp add: fun_eq_iff)
  have "v_dev (view w3) n q = Some e" if "v_dev (view w) n q = Some e" for n q e using that ij d by auto
  moreover have "end_ok (view w3) hid ?hn ?host ?ctr"
    using d g v3 v2 cns(3) by (auto simp: end_ok_def configured_def new_device_def intro!: exI [of _ i])
  moreover have "end_ok (view w3) cid ?cn ?ctr ?host"
    using d g' v3 by (auto simp: end_ok_def configured_def new_device_def intro!: exI [of _ j])
  moreover have "v_sys (view w3) hid ''net.ipv4.ip_forward'' = Some ''1''" using v3 v2 g(3) cns(3) by simp
  ultimately show ?thesis using 3 v3 by simp
qed

lemma connect_ok:
  assumes "connect_container env (silk_CNIPlugin env (ho_Namespace (cf_Host cfg))) args conf cfg w = (Some (Inr u), w')"
    and ok: "ok w" and ns: "isns (ho_Namespace (cf_Host cfg))" "ident (ns_Fd (ho_Namespace (cf_Host cfg))) = hid"
    and cns: "isns (co_Namespace (cf_Container cfg))" "ident (ns_Fd (co_Namespace (cf_Container cfg))) = cid" "hid \<noteq> cid"
    and ip: "To4 (da_IP (ho_Address (cf_Host cfg))) \<noteq> []" "To4 (da_IP (co_Address (cf_Container cfg))) \<noteq> []"
    and r: "co_Routes (cf_Container cfg) = [r]" and m: "contents (files w (nc_Datastore conf)) = Some m" "tidy m"
  shows "end_ok (view w') hid (ho_DeviceName (cf_Host cfg)) (ho_Address (cf_Host cfg)) (co_Address (cf_Container cfg)) \<and>
    end_ok (view w') cid (co_DeviceName (cf_Container cfg)) (co_Address (cf_Container cfg)) (ho_Address (cf_Host cfg)) \<and>
    (IPNet_String (rt_Dst r), IP_String (rt_GW r), IP_String (da_IP (co_Address (cf_Container cfg)))) \<in> v_routes (view w') cid \<and>
    v_sys (view w') hid ''net.ipv4.ip_forward'' = Some ''1'' \<and>
    (\<forall>n i d. v_dev (view w) n i = Some d \<longrightarrow> v_dev (view w') n i = Some d) \<and>
    contents (files w' (nc_Datastore conf)) = Some (m(filepath_Base (ca_Netns args) \<mapsto>
      \<lparr>Handle = filepath_Base (ca_Netns args), Container_IP = IP_String (da_IP (co_Address (cf_Container cfg))), Metadata = JNull\<rparr>))"
proof -
  let ?k = "ne_kernel env" and ?ip = "IP_String (da_IP (co_Address (cf_Container cfg)))"
  let ?c = "silk_common env" and ?s = "silk_linkOperations env"
  have c: "cm_NetlinkAdapter ?c = as_cni_netlinkAdapter ?k" "cm_LinkOperations ?c = as_linkOperations ?s"
    "lo_NetlinkAdapter ?s = as_cni_netlinkAdapter ?k" "lo_Sysctl ?s = Sysctl ?k"
    by (simp_all add: silk_common_def silk_linkOperations_def)
  from assms(1) obtain w1 w2 w3 w4 where
    s: "VethPairCreator_Create \<lparr>vp_NetlinkAdapter = as_cni_netlinkAdapter ?k\<rparr> cfg w = (Some (Inr ()), w1)"
      "Host_Setup \<lparr>hs_BasicSetup = BasicSetup ?c, hs_LinkOperations = as_linkOperations ?s\<rparr> cfg w1 = (Some (Inr ()), w2)"
      "Container_Setup \<lparr>ct_BasicSetup = BasicSetup ?c, ct_LinkOperations = as_linkOperations ?s\<rparr> cfg w2 = (Some (Inr ()), w3)"
      "Store_Add (silk_Store (ne_NewLocker env)) (nc_Datastore conf) (filepath_Base (ca_Netns args)) ?ip JNull w3 = (Inr (), w4)"
      "ne_PrintResult env (AsCNIResult cfg) (nc_CNIVersion conf) w4 = (Inr (), w')"
    by (auto simp: connect_container_def silk_CNIPlugin_def then_do_Inr)
  note p = pair_ok [OF s(1-3) c ok ns cns ip r]
  have "view w4 = view w3" "ok w4" using store_add_quiet [OF s(4)] p by simp_all
  with print_quiet [OF _ s(5)] have 4: "view w' = view w3" "files w' = files w4" by (simp_all add: becomes_def)
  have "contents (files w' (nc_Datastore conf)) = Some (m(filepath_Base (ca_Netns args) \<mapsto>
      \<lparr>Handle = filepath_Base (ca_Netns args), Container_IP = ?ip, Metadata = JNull\<rparr>))"
    using add_refines [OF s(4) _ _ m(2)] p 4(2) m(1) by (simp add: tidy_metadata_def)
  with p 4(1) show ?thesis by simp
qed

lemma add_ok:
  assumes "cmdAdd env (silk_CNIPlugin env hostNS) args w = (Some (Inr u), w')" and ok: "ok w" and ns: "isns hostNS"
    and sep: "\<And>v v' n. n_GetNS (ne_namespaces env) (ca_Netns args) v = (Inr n, v') \<Longrightarrow> ident (ns_Fd n) = cid"
    and conf: "json_Unmarshal dec_NetConf (ca_StdinData args) = Inr conf"
    and m: "contents (files w (nc_Datastore conf)) = Some m" "tidy m"
  obtains cfg v where "connect_container env (silk_CNIPlugin env (ho_Namespace (cf_Host cfg))) args conf cfg v = (Some (Inr u), w')"
    "becomes view files ok w v (view w)" "ho_Namespace (cf_Host cfg) = hostNS" "isns (co_Namespace (cf_Container cfg))"
    "ident (ns_Fd (co_Namespace (cf_Container cfg))) = cid" "da_IP (ho_Address (cf_Host cfg)) = link_local"
    "To4 (da_IP (co_Address (cf_Container cfg))) \<noteq> []" "co_DeviceName (cf_Container cfg) = ca_IfName args"
    "co_Routes (cf_Container cfg) = [\<lparr>rt_Dst = \<lparr>IPNet_IP = IPv4 0 0 0 0, IPNet_Mask = CIDRMask 0 32\<rparr>, rt_GW = link_local\<rparr>]"
    "DeviceName_GenerateForHost (da_IP (co_Address (cf_Container cfg))) = Inr (ho_DeviceName (cf_Host cfg))"
    "GenerateForHost (da_IP (co_Address (cf_Container cfg))) = Inr (da_Hardware (ho_Address (cf_Host cfg)))"
    "GenerateForContainer (da_IP (co_Address (cf_Container cfg))) = Inr (da_Hardware (co_Address (cf_Container cfg)))"
proof -
  from assms(1) conf obtain info w1 ipam res w2 cres cfg w3 where
    s: "cni_getNetworkInfo env conf w = (Inr info, w1)" "ne_DelegateAdd env ''host-local'' (json_text (enc_HostLocalIPAM ipam)) w1 = (Inr res, w2)"
      "cni_Create (pl_ConfigCreator (silk_CNIPlugin env hostNS)) hostNS args cres (ni_MTU info) w2 = (Inr cfg, w3)"
      "connect_container env (silk_CNIPlugin env hostNS) args conf cfg w3 = (Some (Inr u), w')"
    by (auto simp: cmdAdd_def then_do_Inr silk_CNIPlugin_def)
  have "becomes view files ok w w1 (view w)" by (rule network_info_quiet [OF s(1) ok])
  with delegate_quiet [OF _ s(2)] have 2: "becomes view files ok w w2 (view w)" by (simp add: becomes_def)
  have "re_IPs cres \<noteq> []" using s(3) by (auto simp: cni_Create_def try_do_Inr split: if_split_asm)
  then obtain x xs where x: "re_IPs cres = x # xs" by (cases "re_IPs cres") simp_all
  from s(3) obtain n where n: "n_GetNS (ne_namespaces env) (ca_Netns args) w2 = (Inr n, w3)" "co_Namespace (cf_Container cfg) = n"
    and c: "ho_Namespace (cf_Host cfg) = hostNS" "da_IP (ho_Address (cf_Host cfg)) = link_local" "co_DeviceName (cf_Container cfg) = ca_IfName args"
      "co_Routes (cf_Container cfg) = [\<lparr>rt_Dst = \<lparr>IPNet_IP = IPv4 0 0 0 0, IPNet_Mask = CIDRMask 0 32\<rparr>, rt_GW = link_local\<rparr>]"
      "DeviceName_GenerateForHost (da_IP (co_Address (cf_Container cfg))) = Inr (ho_DeviceName (cf_Host cfg))"
      "GenerateForHost (da_IP (co_Address (cf_Container cfg))) = Inr (da_Hardware (ho_Address (cf_Host cfg)))"
      "GenerateForContainer (da_IP (co_Address (cf_Container cfg))) = Inr (da_Hardware (co_Address (cf_Container cfg)))"
    by (auto simp: x cni_Create_def silk_CNIPlugin_def GetNS_def try_do_Inr Let_def split: if_split_asm)
  have 3: "becomes view files ok w w3 (view w)" "isns n" using get_ns [OF _ n(1)] 2 by (simp_all add: becomes_def)
  have "To4 (da_IP (co_Address (cf_Container cfg))) \<noteq> []"
    using c(5) by (auto simp: DeviceName_GenerateForHost_def DeviceName_generate_Inr)
  with that [of cfg w3] s(4) 3 c n(2) sep [OF n(1)] show thesis by simp
qed

lemma store_delete_quiet:
  assumes "Store_Delete (silk_Store (ne_NewLocker env)) path h w = (r, w')" "ok w"
  shows "view w' = view w \<and> ok w'"
proof -
  from assms(1) consider "w' = w" | e where "ne_NewLocker env path w = (Inl e, w')"
    | f w1 e w2 rc where "ne_NewLocker env path w = (Inr f, w1)" "DecodeAll dec_pool [] f w1 = (Inl e, w2)" "of_Close f w2 = (rc, w')"
    | f w1 pool w2 re w3 rc where "ne_NewLocker env path w = (Inr f, w1)" "DecodeAll dec_pool [] f w1 = (Inr pool, w2)"
        "EncodeAndOverwrite enc_pool f (AList.delete h pool) w2 = (re, w3)" "of_Close f w3 = (rc, w')"
    by (auto simp: Store_Delete_def silk_Store_def try_do_cases deferring_cases Let_def split: if_split_asm)
  then show ?thesis
  proof cases
    case 2
    with lock_quiet [OF assms(2)] show ?thesis by blast
  next
    case 3
    have f: "file_at f path" using open_file [OF 3(1)] by simp
    from lock_quiet [OF assms(2) 3(1)] decode_quiet [OF 3(2) f] close_quiet [OF f _ 3(3)] show ?thesis by simp
  next
    case 4
    have f: "file_at f path" using open_file [OF 4(1)] by simp
    from lock_quiet [OF assms(2) 4(1)] decode_quiet [OF 4(2) f] encode_quiet [OF 4(3) f] close_quiet [OF f _ 4(4)] show ?thesis by simp
  qed (simp add: assms(2))
qed

lemma delete_link_ok:
  assumes "DeleteLinkByName s name w = (Inr u, w')" "lo_NetlinkAdapter s = as_cni_netlinkAdapter (ne_kernel env)" "ok w"
    and found: "\<forall>v e v'. ok v \<longrightarrow> k_LinkByName (ne_kernel env) name v = (Inl e, v') \<longrightarrow> (\<forall>i d. here (view v) i = Some d \<longrightarrow> dv_name d \<noteq> name)"
  shows "files w' = files w \<and> ok w' \<and> v_cur (view w') = v_cur (view w) \<and>
    (\<forall>n i. v_dev (view w') n i \<in> {None, v_dev (view w) n i}) \<and>
    (\<forall>i d. here (view w') i = Some d \<longrightarrow> dv_name d \<noteq> name)"
proof -
  from assms(1,2) consider e where "k_LinkByName (ne_kernel env) name w = (Inl e, w')"
    | l w1 where "k_LinkByName (ne_kernel env) name w = (Inr l, w1)" "k_LinkDel (ne_kernel env) l w1 = (Inr (), w')"
    by (auto simp: DeleteLinkByName_def as_cni_netlinkAdapter_def LinkByName_def LinkDel_def split: prod.splits sum.splits)
  then show ?thesis
  proof cases
    case 1
    with link_by_name [OF assms(3) 1] found [rule_format, OF assms(3) 1] show ?thesis by (simp add: becomes_def)
  next
    case 2
    from link_by_name [OF assms(3) 2(1)] obtain d where d: "becomes view files ok w w1 (view w)" "here (view w) (lk_Index l) = Some d" "dv_name d = name"
      by blast
    then have 1: "ok w1" "view w1 = view w" "files w1 = files w" by (simp_all add: becomes_def)
    note del = link_del [OF 1(1) _ 2(2), of d]
    have u: "\<forall>c i. v_dev (view w') c i \<in> {None, v_dev (view w) c i}" "v_cur (view w') = v_cur (view w)" using del d(2) 1(2) by simp_all
    have "dv_name d' \<noteq> name" if "here (view w') i = Some d'" for i d'
    proof
      assume "dv_name d' = name"
      moreover have "here (view w) i = Some d'" using that u(1) [rule_format, of "v_cur (view w)" i] u(2) by (simp add: here_def)
      ultimately have "i = lk_Index l" using unique [OF assms(3), of "v_cur (view w)" i d' "lk_Index l" d] d(2,3) by (simp add: here_def)
      with that del d(2) 1(2) show False by simp
    qed
    with del d(2) 1 show ?thesis by auto
  qed
qed

lemma teardown_ok:
  assumes "Container_Teardown (pl_Container (silk_CNIPlugin env hostNS)) n name w = (Some (Inr u), w')" "ok w" "isns n"
    and found: "\<forall>v e v'. ok v \<longrightarrow> k_LinkByName (ne_kernel env) name v = (Inl e, v') \<longrightarrow> (\<forall>i d. here (view v) i = Some d \<longrightarrow> dv_name d \<noteq> name)"
  shows "files w' = files w \<and> ok w' \<and> (\<forall>c i. v_dev (view w') c i \<in> {None, v_dev (view w) c i}) \<and>
    (\<forall>i d. v_dev (view w') (ident (ns_Fd n)) i = Some d \<longrightarrow> dv_name d \<noteq> name)"
proof -
  let ?s = "silk_linkOperations env"
  from ns_do [OF assms(2,3) assms(1) [unfolded Container_Teardown_def]] obtain w1 w2 where
    1: "becomes view files ok w w1 ((view w)\<lparr>v_cur := ident (ns_Fd n)\<rparr>)"
    and s: "DeleteLinkByName ?s name w1 = (Inr (), w2)"
    and 2: "ok w2 \<longrightarrow> becomes view files ok w2 w' ((view w2)\<lparr>v_cur := v_cur (view w)\<rparr>)"
    by (auto simp: try_do_Inr silk_CNIPlugin_def as_linkOperations_def)
  have "lo_NetlinkAdapter ?s = as_cni_netlinkAdapter (ne_kernel env)" by (simp add: silk_linkOperations_def)
  note d = delete_link_ok [OF s this _ found]
  have w1: "ok w1" "files w1 = files w" "v_dev (view w1) = v_dev (view w)" "v_cur (view w1) = ident (ns_Fd n)" using 1 by (simp_all add: becomes_def)
  with d have "ok w2" by simp
  with 2 have w': "ok w'" "files w' = files w2" "v_dev (view w') = v_dev (view w2)" by (simp_all add: becomes_def)
  have "\<forall>i d. here (view w2) i = Some d \<longrightarrow> dv_name d \<noteq> name" using d w1(1) by blast
  with d w1 w' show ?thesis by (simp add: here_def)
qed

end

section \<open>Adding a container\<close>

text \<open>
  C3.  When \<^verbatim>\<open>ADD\<close> succeeds, the host and the container are connected: each namespace has its end of the pair, up, with the
  hardware address generated for it, a point-to-point address towards the other end and a permanent neighbour entry for
  it; the container has the default route over the link, the host forwards, and the store lists the container with
  its address.  Every device that was there before, in any namespace, is untouched.
\<close>

theorem cni_add_connects_container:
  assumes "cni_services env view files ok ident isns file_at pos"
    and "cmdAdd env (silk_CNIPlugin env hostNS) args w = (Some (Inr u), w')" "ok w" "isns hostNS"
    and "\<forall>v v' n. n_GetNS (ne_namespaces env) (ca_Netns args) v = (Inr n, v') \<longrightarrow> ident (ns_Fd n) = cid"
    and "ident (ns_Fd hostNS) = hid" "hid \<noteq> cid"
    and "json_Unmarshal dec_NetConf (ca_StdinData args) = Inr conf" "contents (files w (nc_Datastore conf)) = Some m" "tidy m"
  shows "\<exists>ip name host ctr. DeviceName_GenerateForHost ip = Inr name \<and>
    GenerateForHost ip = Inr (da_Hardware host) \<and> da_IP host = link_local \<and>
    GenerateForContainer ip = Inr (da_Hardware ctr) \<and> da_IP ctr = ip \<and>
    end_ok (view w') hid name host ctr \<and> end_ok (view w') cid (ca_IfName args) ctr host \<and>
    (''0.0.0.0/0'', ''169.254.0.1'', IP_String ip) \<in> v_routes (view w') cid \<and>
    v_sys (view w') hid ''net.ipv4.ip_forward'' = Some ''1'' \<and>
    (\<forall>n i d. v_dev (view w) n i = Some d \<longrightarrow> v_dev (view w') n i = Some d) \<and>
    contents (files w' (nc_Datastore conf)) = Some (m(filepath_Base (ca_Netns args) \<mapsto>
      \<lparr>Handle = filepath_Base (ca_Netns args), Container_IP = IP_String ip, Metadata = JNull\<rparr>))"
proof -
  obtain cfg v where c: "connect_container env (silk_CNIPlugin env (ho_Namespace (cf_Host cfg))) args conf cfg v = (Some (Inr u), w')"
    and v: "becomes view files ok w v (view w)"
    and n: "ho_Namespace (cf_Host cfg) = hostNS" "isns (co_Namespace (cf_Container cfg))"
    and cid: "ident (ns_Fd (co_Namespace (cf_Container cfg))) = cid"
    and g: "da_IP (ho_Address (cf_Host cfg)) = link_local"
      "To4 (da_IP (co_Address (cf_Container cfg))) \<noteq> []" "co_DeviceName (cf_Container cfg) = ca_IfName args"
      "co_Routes (cf_Container cfg) = [\<lparr>rt_Dst = \<lparr>IPNet_IP = IPv4 0 0 0 0, IPNet_Mask = CIDRMask 0 32\<rparr>, rt_GW = link_local\<rparr>]"
      "DeviceName_GenerateForHost (da_IP (co_Address (cf_Container cfg))) = Inr (ho_DeviceName (cf_Host cfg))"
      "GenerateForHost (da_IP (co_Address (cf_Container cfg))) = Inr (da_Hardware (ho_Address (cf_Host cfg)))"
      "GenerateForContainer (da_IP (co_Address (cf_Container cfg))) = Inr (da_Hardware (co_Address (cf_Container cfg)))"
    by (rule cni_services.add_ok [OF assms(1-4) assms(5) [rule_format] assms(8-10)])
  have ll: "To4 link_local \<noteq> []" by code_simp
  have r: "IPNet_String \<lparr>IPNet_IP = IPv4 0 0 0 0, IPNet_Mask = CIDRMask 0 32\<rparr> = ''0.0.0.0/0''" "IP_String link_local = ''169.254.0.1''"
    by code_simp+
  have w: "ok v" "files v = files w" "view v = view w" using v by (simp_all add: becomes_def)
  have h: "isns (ho_Namespace (cf_Host cfg))" "ident (ns_Fd (ho_Namespace (cf_Host cfg))) = hid" using n(1) assms(4,6) by simp_all
  have l: "To4 (da_IP (ho_Address (cf_Host cfg))) \<noteq> []" using g(1) ll by simp
  have m: "contents (files v (nc_Datastore conf)) = Some m" using w(2) assms(9) by simp
  note e = cni_services.connect_ok [OF assms(1) c w(1) h n(2) cid assms(7) l g(2,4) m assms(10), unfolded w(3) g(3) types_Route.select_convs r]
  show ?thesis
    by (rule exI [of _ "da_IP (co_Address (cf_Container cfg))"], rule exI [of _ "ho_DeviceName (cf_Host cfg)"],
        rule exI [of _ "ho_Address (cf_Host cfg)"], rule exI [of _ "co_Address (cf_Container cfg)"])
       (intro conjI g refl e [THEN conjunct1] e [THEN conjunct2, THEN conjunct1] e [THEN conjunct2, THEN conjunct2, THEN conjunct1]
          e [THEN conjunct2, THEN conjunct2, THEN conjunct2, THEN conjunct1]
          e [THEN conjunct2, THEN conjunct2, THEN conjunct2, THEN conjunct2])
qed

section \<open>Deleting a container\<close>

text \<open>
  C17.  A \<^verbatim>\<open>DEL\<close> that succeeds while the namespace is there leaves no device of the given name in it and takes the
  container out of the store; no device changes in any other way than by disappearing.  The code ignores the errors
  of looking up the device and of writing the store, so it is assumed that a look-up fails only when there is no such
  device and that the store can be written.
\<close>

theorem cni_del_cleans_up:
  assumes "cni_services env view files ok ident isns file_at pos"
    and "cmdDel env (silk_CNIPlugin env hostNS) args w = (Some (Inr u), w')" "ok w"
    and "\<forall>v r v'. n_GetNS (ne_namespaces env) (ca_Netns args) v = (r, v') \<longrightarrow> (\<exists>n. r = Inr n \<and> ident (ns_Fd n) = cid)"
    and "json_Unmarshal dec_NetConf (ca_StdinData args) = Inr conf" "contents (files w (nc_Datastore conf)) = Some m" "tidy m"
    and "\<forall>v e v'. ok v \<longrightarrow> k_LinkByName (ne_kernel env) (ca_IfName args) v = (Inl e, v') \<longrightarrow>
      (\<forall>i d. here (view v) i = Some d \<longrightarrow> dv_name d \<noteq> ca_IfName args)"
    and "\<forall>v r v'. contents (files v (nc_Datastore conf)) = Some m \<longrightarrow>
      Store_Delete (silk_Store (ne_NewLocker env)) (nc_Datastore conf) (filepath_Base (ca_Netns args)) v = (r, v') \<longrightarrow> (\<exists>c. r = Inr c)"
  shows "(\<forall>i d. v_dev (view w') cid i = Some d \<longrightarrow> dv_name d \<noteq> ca_IfName args) \<and>
    contents (files w' (nc_Datastore conf)) = Some (m(filepath_Base (ca_Netns args) := None)) \<and>
    (\<forall>n i. v_dev (view w') n i \<in> {None, v_dev (view w) n i})"
proof -
  let ?del = "Store_Delete (silk_Store (ne_NewLocker env)) (nc_Datastore conf) (filepath_Base (ca_Netns args))"
  define b where "b = (case GenerateConfig ''0.0.0.0/0'' (nc_Name conf) (nc_DataDir conf) of
     Inl _ \<Rightarrow> ''null'' | Inr c \<Rightarrow> json_text (enc_HostLocalIPAM c))"
  obtain rd w1 where d: "ne_DelegateDel env ''host-local'' b w = (rd, w1)" by (cases "ne_DelegateDel env ''host-local'' b w")
  obtain rn w2 where n: "n_GetNS (ne_namespaces env) (ca_Netns args) w1 = (rn, w2)" by (cases "n_GetNS (ne_namespaces env) (ca_Netns args) w1")
  from assms(4) [rule_format, OF n] obtain ns where ns: "rn = Inr ns" "ident (ns_Fd ns) = cid" by blast
  from assms(2,5) d n ns(1) obtain w3 where t: "Container_Teardown (pl_Container (silk_CNIPlugin env hostNS)) ns (ca_IfName args) w2 = (Some (Inr ()), w3)"
    and s: "snd (?del w3) = w'"
    by (auto simp: cmdDel_def then_do_Inr Let_def b_def [symmetric] silk_CNIPlugin_def)
  have w1: "view w1 = view w" "ok w1" "files w1 = files w"
    using cni_services.delegate_del_quiet [OF assms(1,3) d] by (simp_all add: becomes_def)
  have k: "namespace_kernel (ne_kernel env) (ne_namespaces env) view files ok ident isns" using assms(1) by (simp add: cni_services_def)
  have w2: "view w2 = view w" "ok w2" "files w2 = files w" "isns ns"
    using namespace_kernel.get_ns [OF k w1(2) n] w1 ns(1) by (simp_all add: becomes_def)
  note td = cni_services.teardown_ok [OF assms(1) t w2(2,4) assms(8)]
  obtain rs where rs: "?del w3 = (rs, w')" using s by (metis prod.collapse)
  have v: "view w' = view w3" using cni_services.store_delete_quiet [OF assms(1) rs] td by simp
  have f: "locked_files (ne_NewLocker env) file_at files pos" using assms(1) by (simp add: cni_services_def)
  have m: "contents (files w3 (nc_Datastore conf)) = Some m" using td w2(3) assms(6) by simp
  from assms(9) [rule_format, OF this rs] obtain c where "rs = Inr c" ..
  with rs locked_files.delete_refines [OF f _ m assms(7)] have "contents (files w' (nc_Datastore conf)) = Some (m(filepath_Base (ca_Netns args) := None))"
    by blast
  with td v w2(1) ns(2) show ?thesis by simp
qed

text \<open>
  C33.  When the namespace cannot be opened, for example because it is already gone, \<^verbatim>\<open>DEL\<close> reports success and
  leaves the store as it is: a container that was listed stays listed.
\<close>

theorem cni_del_without_namespace_keeps_entry:
  assumes "cni_services env view files ok ident isns file_at pos"
    and "\<forall>v r v'. n_GetNS (ne_namespaces env) (ca_Netns args) v = (r, v') \<longrightarrow> (\<exists>e. r = Inl e)"
    and "json_Unmarshal dec_NetConf (ca_StdinData args) = Inr conf" "ok w"
    and "contents (files w (nc_Datastore conf)) = Some m" "filepath_Base (ca_Netns args) \<in> dom m"
  shows "\<exists>w'. cmdDel env p args w = (Some (Inr ()), w') \<and> view w' = view w \<and>
    contents (files w' (nc_Datastore conf)) = Some m \<and> filepath_Base (ca_Netns args) \<in> dom m"
proof -
  define b where "b = (case GenerateConfig ''0.0.0.0/0'' (nc_Name conf) (nc_DataDir conf) of
     Inl _ \<Rightarrow> ''null'' | Inr c \<Rightarrow> json_text (enc_HostLocalIPAM c))"
  obtain rd w1 where d: "ne_DelegateDel env ''host-local'' b w = (rd, w1)" by (cases "ne_DelegateDel env ''host-local'' b w")
  obtain rn w2 where n: "n_GetNS (ne_namespaces env) (ca_Netns args) w1 = (rn, w2)" by (cases "n_GetNS (ne_namespaces env) (ca_Netns args) w1")
  from assms(2) [rule_format, OF n] obtain e where e: "rn = Inl e" by blast
  have k: "namespace_kernel (ne_kernel env) (ne_namespaces env) view files ok ident isns" using assms(1) by (simp add: cni_services_def)
  have w1: "view w1 = view w" "ok w1" "files w1 = files w"
    using cni_services.delegate_del_quiet [OF assms(1,4) d] by (simp_all add: becomes_def)
  have "view w2 = view w" "files w2 = files w" using namespace_kernel.get_ns [OF k w1(2) n] w1 by (simp_all add: becomes_def)
  moreover have "cmdDel env p args w = (Some (Inr ()), w2)"
    using assms(3) d n e by (simp add: cmdDel_def then_do_def total_def Let_def b_def [symmetric])
  ultimately show ?thesis using assms(5,6) by simp
qed

section \<open>The hardware address\<close>

text \<open>
  A device whose hardware address never changes; the world counts how often it was set.
\<close>

definition stubborn :: "HardwareAddr \<Rightarrow> nat kernel \<Rightarrow> nat Common" where
  "stubborn h k =
     \<lparr>cm_NetlinkAdapter = (as_cni_netlinkAdapter k)
        \<lparr>cn_LinkByName := \<lambda>name. ret \<lparr>lk_Index = 1, lk_Name = name, lk_HardwareAddr = h, lk_MTU = 1450, lk_Up = True, lk_kind = Device\<rparr>,
         cn_LinkSetHardwareAddr := \<lambda>_ _ w. (Inr (), w + 1)\<rparr>,
      cm_LinkOperations = as_linkOperations \<lparr>lo_Sysctl = Sysctl k, lo_NetlinkAdapter = as_cni_netlinkAdapter k\<rparr>\<rparr>"

lemma hwaddr_loop_stubborn:
  "HardwareAddr_String h \<noteq> HardwareAddr_String hw \<Longrightarrow>
   hwaddr_loop (stubborn h k) name link hw n (HardwareAddr_String h) w = (Some (Inr (HardwareAddr_String h)), w + n)"
  by (induction n arbitrary: w) (simp_all add: stubborn_def hardware_addr_of_def total_def then_do_def)

text \<open>
  The setup gives up on a device that does not take its hardware address after setting it exactly ten
  times, and leaves the rest of the device alone.
\<close>

theorem basic_setup_gives_up:
  assumes "HardwareAddr_String h \<noteq> HardwareAddr_String (da_Hardware loc)"
  shows "BasicSetup (stubborn h k) name loc peer w = (Some (Inl (ErrorString ''failed to set hardware addr after 10 attempts'')), w + 10)"
proof -
  have i: "itoa 10 = ''10''" by code_simp
  have "hardware_addr_of (stubborn h k) name w = (Some (Inr (HardwareAddr_String h)), w)" "fst (cn_LinkByName (cm_NetlinkAdapter (stubborn h k)) name w) \<noteq> Inl e" for w e
    by (simp_all add: stubborn_def hardware_addr_of_def)
  with hwaddr_loop_stubborn [OF assms, of k name _ 10] assms i show ?thesis
    by (simp add: BasicSetup_def MAX_ATTEMPTS_def then_do_def total_def stubborn_def)
qed

theorem basic_setup_gives_up_witness:
  "\<forall>k. BasicSetup (stubborn [0xbb, 0xbb, 0xbb, 0xbb, 0xbb, 0xbb] k) ''eth0'' \<lparr>da_Hardware = [0xaa, 0xaa, 10, 255, 30, 4], da_IP = link_local\<rparr>
     \<lparr>da_Hardware = [0xee, 0xee, 10, 255, 30, 4], da_IP = [10, 255, 30, 4]\<rparr> 0
   = (Some (Inl (ErrorString ''failed to set hardware addr after 10 attempts'')), 10)"
proof -
  have "HardwareAddr_String [0xbb, 0xbb, 0xbb, 0xbb, 0xbb, 0xbb] \<noteq> HardwareAddr_String [0xaa, 0xaa, 10, 255, 30, 4]" by code_simp
  then show ?thesis
    using basic_setup_gives_up [where loc = "\<lparr>da_Hardware = [0xaa, 0xaa, 10, 255, 30, 4], da_IP = link_local\<rparr>" and w = 0
      and h = "[0xbb, 0xbb, 0xbb, 0xbb, 0xbb, 0xbb]"] by simp
qed

text \<open>
  C34.  A device that disappears between two look-ups makes the setup panic, because the error of the second look-up
  is ignored and its link is nil.
\<close>

theorem basic_setup_panics_without_device:
  assumes "cn_LinkByName (cm_NetlinkAdapter c) name w = (Inr link, w1)" "cn_LinkByName (cm_NetlinkAdapter c) name w1 = (Inl e, w2)"
  shows "BasicSetup c name loc peer w = (None, w2)"
  using assms by (simp add: BasicSetup_def then_do_def total_def hardware_addr_of_def)

text \<open>A device that can be looked up once.\<close>

definition vanishing :: "nat kernel \<Rightarrow> nat Common" where
  "vanishing k =
     \<lparr>cm_NetlinkAdapter = (as_cni_netlinkAdapter k)
        \<lparr>cn_LinkByName := \<lambda>name w.
           (if w = 0 then Inr \<lparr>lk_Index = 1, lk_Name = name, lk_HardwareAddr = [], lk_MTU = 1450, lk_Up = True, lk_kind = Device\<rparr>
            else Inl (ErrorString ''Link not found''), w + 1)\<rparr>,
      cm_LinkOperations = as_linkOperations \<lparr>lo_Sysctl = Sysctl k, lo_NetlinkAdapter = as_cni_netlinkAdapter k\<rparr>\<rparr>"

theorem basic_setup_panics_without_device_witness:
  "\<forall>k. BasicSetup (vanishing k) ''eth0'' \<lparr>da_Hardware = [0xaa, 0xaa, 10, 255, 30, 4], da_IP = link_local\<rparr>
     \<lparr>da_Hardware = [0xee, 0xee, 10, 255, 30, 4], da_IP = [10, 255, 30, 4]\<rparr> 0 = (None, 2)"
proof
  fix k
  let ?l = "\<lparr>lk_Index = 1, lk_Name = ''eth0'', lk_HardwareAddr = [], lk_MTU = 1450, lk_Up = True, lk_kind = Device\<rparr>"
  show "BasicSetup (vanishing k) ''eth0'' \<lparr>da_Hardware = [0xaa, 0xaa, 10, 255, 30, 4], da_IP = link_local\<rparr>
     \<lparr>da_Hardware = [0xee, 0xee, 10, 255, 30, 4], da_IP = [10, 255, 30, 4]\<rparr> 0 = (None, 2)"
    by (rule basic_setup_panics_without_device [of _ _ _ ?l 1 "ErrorString ''Link not found''"]) (simp_all add: vanishing_def)
qed

end
