(* ===== verification/Cni_Reference.thy ===== *)
theory Cni_Reference
  imports Cni_System Reference_Kernel
begin

text \<open>
  The network stack in memory, with namespaces and the files of the store, meets the contract of the plugin.
\<close>

section \<open>Definitions\<close>

definition dev_of :: "netstack \<Rightarrow> Link \<Rightarrow> device" where
  "dev_of s x =
     \<lparr>dv_name = lk_Name x, dv_hw = lk_HardwareAddr x, dv_up = lk_Up x, dv_noarp = (lk_Index x \<in> set (ks_noarp s)),
      dv_addrs = map (\<lambda>a. (IPNet_String (ad_IPNet (snd a)), map_option IPNet_String (ad_Peer (snd a)))) (filter (\<lambda>a. fst a = lk_Index x) (ks_addrs s)),
      dv_neighs = map (\<lambda>n. (IP_String (ne_IP n), HardwareAddr_String (ne_HardwareAddr n)))
        (filter (\<lambda>n. ne_LinkIndex n = lk_Index x \<and> ne_State n = NUD_PERMANENT) (ks_neighs s))\<rparr>"

definition devs :: "netstack \<Rightarrow> int \<Rightarrow> device option" where
  "devs s i = map_option (dev_of s) (find (\<lambda>x. lk_Index x = i) (ks_links s))"

definition route_texts :: "netstack \<Rightarrow> (string \<times> string \<times> string) set" where
  "route_texts s = (\<lambda>r. (Dst_String (ro_Dst r), IP_String (ro_Gw r), IP_String (ro_Src r))) ` set (ks_routes s)"

definition net_view :: "net_world \<Rightarrow> int netview" where
  "net_view w = \<lparr>v_cur = nw_cur w, v_dev = \<lambda>n. devs (nw_stacks w n), v_routes = \<lambda>n. route_texts (nw_stacks w n),
     v_sys = \<lambda>n. map_of (ks_sysctl (nw_stacks w n))\<rparr>"

definition stack_ok :: "int \<Rightarrow> netstack \<Rightarrow> bool" where
  "stack_ok N s \<longleftrightarrow>
     distinct (map lk_Index (ks_links s)) \<and> distinct (map lk_Name (ks_links s)) \<and> list_all (\<lambda>x. 0 < lk_Index x \<and> lk_Index x < N) (ks_links s) \<and>
     list_all (\<lambda>a. fst a < N) (ks_addrs s) \<and> list_all (\<lambda>n. ne_LinkIndex n < N) (ks_neighs s) \<and> list_all (\<lambda>i. i < N) (ks_noarp s)"

definition net_ok :: "net_world \<Rightarrow> bool" where
  "net_ok w \<longleftrightarrow> nw_broken w = [] \<and> 0 < nw_next w \<and> (\<forall>n. stack_ok (nw_next w) (nw_stacks w n))"

section \<open>The network stack\<close>

lemma net_view_upd:
  assumes "devs (g (stack w)) = D" "route_texts (g (stack w)) = R" "map_of (ks_sysctl (g (stack w))) = S"
  shows "net_view (upd_stack g w) =
    (net_view w)\<lparr>v_dev := (v_dev (net_view w))(nw_cur w := D), v_routes := (v_routes (net_view w))(nw_cur w := R),
      v_sys := (v_sys (net_view w))(nw_cur w := S)\<rparr>"
  using assms by (auto simp: net_view_def upd_stack_def fun_eq_iff)

lemma net_ok_upd: "net_ok w \<Longrightarrow> stack_ok (nw_next w) (g (stack w)) \<Longrightarrow> net_ok (upd_stack g w)"
  by (simp add: net_ok_def upd_stack_def)

lemma stack_ok_here: "net_ok w \<Longrightarrow> stack_ok (nw_next w) (stack w)"
  by (simp add: net_ok_def stack_def)

lemma find_SomeD: "find P xs = Some x \<Longrightarrow> x \<in> set xs \<and> P x"
  by (induction xs) (auto split: if_splits)

lemma find_index:
  assumes "stack_ok N s" "x \<in> set (ks_links s)"
  shows "find (\<lambda>y. lk_Index y = lk_Index x) (ks_links s) = Some x"
  using assms by (auto simp: stack_ok_def find_Some_iff in_set_conv_nth nth_eq_iff_index_eq distinct_conv_nth)

lemma devs_Some:
  assumes "net_ok w" "here (net_view w) i = Some d"
  obtains x where "x \<in> set (ks_links (stack w))" "lk_Index x = i" "d = dev_of (stack w) x" "find (\<lambda>y. lk_Index y = i) (ks_links (stack w)) = Some x" "0 < i"
proof -
  from assms(2) obtain x where x: "find (\<lambda>y. lk_Index y = i) (ks_links (stack w)) = Some x" "d = dev_of (stack w) x"
    by (auto simp: here_def net_view_def devs_def stack_def)
  with find_SomeD [OF x(1)] stack_ok_here [OF assms(1)] show thesis by (intro that [of x]) (auto simp: stack_ok_def list_all_iff)
qed

lemma resolve_index:
  assumes "net_ok w" "here (net_view w) (lk_Index l) = Some d"
  obtains x where "resolve l (stack w) = Some x" "x \<in> set (ks_links (stack w))" "lk_Index x = lk_Index l" "d = dev_of (stack w) x"
  using assms by (rule devs_Some) (auto simp: resolve_def)

lemma devs_map_link:
  assumes "find (\<lambda>y. lk_Index y = i) (ks_links s) = Some x" "\<And>y. lk_Index (f y) = lk_Index y"
  shows "devs (map_link f i s) = (devs s)(i \<mapsto> dev_of s (f x))"
proof
  fix j
  have "find (\<lambda>x. lk_Index x = j) (map (\<lambda>x. if lk_Index x = i then f x else x) (ks_links s))
      = map_option (\<lambda>x. if lk_Index x = i then f x else x) (find (\<lambda>x. lk_Index x = j) (ks_links s))"
    by (rule find_map_same) (simp add: assms(2))
  then show "devs (map_link f i s) j = ((devs s)(i \<mapsto> dev_of s (f x))) j"
    using assms find_SomeD [of _ "ks_links s"]
    by (cases "find (\<lambda>x. lk_Index x = j) (ks_links s)") (fastforce simp: devs_def map_link_def dev_of_def)+
qed

lemma devs_same_links:
  assumes "ks_links s' = ks_links s" "find (\<lambda>y. lk_Index y = i) (ks_links s) = Some x" "\<And>y. lk_Index y \<noteq> i \<Longrightarrow> dev_of s' y = dev_of s y"
  shows "devs s' = (devs s)(i \<mapsto> dev_of s' x)"
proof
  fix j
  show "devs s' j = ((devs s)(i \<mapsto> dev_of s' x)) j"
  proof (cases "j = i")
    case True
    then show ?thesis using assms(1,2) by (simp add: devs_def)
  next
    case False
    then have "dev_of s' y = dev_of s y" if "find (\<lambda>x. lk_Index x = j) (ks_links s) = Some y" for y
      using find_SomeD [OF that] assms(3) by simp
    then show ?thesis using False assms(1) by (cases "find (\<lambda>x. lk_Index x = j) (ks_links s)") (simp_all add: devs_def)
  qed
qed

lemma view_set_dev:
  assumes "devs (g (stack w)) = (devs (stack w))(i \<mapsto> d)" "ks_routes (g (stack w)) = ks_routes (stack w)"
    and "ks_sysctl (g (stack w)) = ks_sysctl (stack w)"
  shows "net_view (upd_stack g w) = set_dev (net_view w) i d"
proof -
  have "route_texts (g (stack w)) = route_texts (stack w)" using assms(2) by (simp add: route_texts_def)
  from net_view_upd [of g w, OF assms(1) this refl] assms(3) show ?thesis
    by (simp add: set_dev_def here_def) (simp add: net_view_def stack_def fun_eq_iff)
qed

lemma on_link_Inr:
  assumes "on_link l f w = (Inr u, w')" "net_ok w" "here (net_view w) (lk_Index l) = Some d"
  obtains x where "w' = upd_stack (f (lk_Index l)) w" "x \<in> set (ks_links (stack w))" "lk_Index x = lk_Index l" "d = dev_of (stack w) x"
    "find (\<lambda>y. lk_Index y = lk_Index l) (ks_links (stack w)) = Some x"
proof -
  from assms(2,3) obtain x where x: "resolve l (stack w) = Some x" "x \<in> set (ks_links (stack w))" "lk_Index x = lk_Index l" "d = dev_of (stack w) x"
    by (rule resolve_index)
  with find_index [OF stack_ok_here [OF assms(2)] x(2)] assms(1) show thesis
    by (intro that [of x]) (simp_all add: on_link_def change_def)
qed

lemma stack_ok_map_link:
  assumes "stack_ok N s" "\<And>y. lk_Index (f y) = lk_Index y" "distinct (map lk_Name (ks_links (map_link f i s)))"
  shows "stack_ok N (map_link f i s)"
proof -
  have "map lk_Index (ks_links (map_link f i s)) = map lk_Index (ks_links s)" by (simp add: map_link_def assms(2))
  moreover have "ks_addrs (map_link f i s) = ks_addrs s" "ks_neighs (map_link f i s) = ks_neighs s" "ks_noarp (map_link f i s) = ks_noarp s"
    by (simp_all add: map_link_def)
  moreover have "list_all (\<lambda>x. 0 < lk_Index x \<and> lk_Index x < N) (ks_links (map_link f i s))"
    using assms(1,2) by (auto simp: map_link_def stack_ok_def list_all_iff)
  ultimately show ?thesis using assms(1,3) by (simp add: stack_ok_def)
qed

lemma same_names: "(\<And>y. lk_Name (f y) = lk_Name y) \<Longrightarrow> map lk_Name (ks_links (map_link f i s)) = map lk_Name (ks_links s)"
  by (simp add: map_link_def)

lemma map_link_law:
  assumes "on_link l (map_link f) w = (Inr u, w')" "net_ok w" "here (net_view w) (lk_Index l) = Some d"
    and "\<And>y. lk_Index (f y) = lk_Index y" "distinct (map lk_Name (ks_links (map_link f (lk_Index l) (stack w))))"
    and "\<And>x. dev_of (stack w) (f x) = g (dev_of (stack w) x)"
  shows "net_view w' = set_dev (net_view w) (lk_Index l) (g d) \<and> net_ok w'"
proof -
  from assms(1-3) obtain x where x: "w' = upd_stack (map_link f (lk_Index l)) w" "d = dev_of (stack w) x"
    "find (\<lambda>y. lk_Index y = lk_Index l) (ks_links (stack w)) = Some x" by (rule on_link_Inr)
  have "net_view w' = set_dev (net_view w) (lk_Index l) (dev_of (stack w) (f x))"
    unfolding x(1) by (rule view_set_dev [of "map_link f (lk_Index l)" w, OF devs_map_link [OF x(3) assms(4)]]) (simp_all add: map_link_def)
  moreover have "net_ok w'"
    unfolding x(1) by (rule net_ok_upd [of w "map_link f (lk_Index l)", OF assms(2) stack_ok_map_link [OF stack_ok_here [OF assms(2)] assms(4,5)]])
  ultimately show ?thesis using assms(6) x(2) by simp
qed

lemma distinct_names: "net_ok w \<Longrightarrow> distinct (map lk_Name (ks_links (stack w)))"
  using stack_ok_here by (simp add: stack_ok_def)

lemma set_up_law:
  assumes "on_link l (map_link (\<lambda>x. x\<lparr>lk_Up := True\<rparr>)) w = (Inr u, w')" "net_ok w" "here (net_view w) (lk_Index l) = Some d"
  shows "net_view w' = set_dev (net_view w) (lk_Index l) (d\<lparr>dv_up := True\<rparr>) \<and> net_ok w'"
  by (rule map_link_law [OF assms]) (simp_all add: same_names distinct_names [OF assms(2)] dev_of_def)

lemma set_hw_law:
  assumes "on_link l (map_link (\<lambda>x. x\<lparr>lk_HardwareAddr := h\<rparr>)) w = (Inr u, w')" "net_ok w" "here (net_view w) (lk_Index l) = Some d"
  shows "net_view w' = set_dev (net_view w) (lk_Index l) (d\<lparr>dv_hw := h\<rparr>) \<and> net_ok w'"
  by (rule map_link_law [OF assms]) (simp_all add: same_names distinct_names [OF assms(2)] dev_of_def)

lemma set_name_law:
  assumes "rename_link l name w = (Inr u, w')" "net_ok w" "here (net_view w) (lk_Index l) = Some d"
  shows "net_view w' = set_dev (net_view w) (lk_Index l) (d\<lparr>dv_name := name\<rparr>) \<and> net_ok w'"
proof (rule map_link_law [OF _ assms(2,3)])
  show "on_link l (map_link (\<lambda>x. x\<lparr>lk_Name := name\<rparr>)) w = (Inr u, w')" using assms(1) by (auto simp: rename_link_def split: if_splits)
  let ?ls = "ks_links (stack w)" and ?n = "\<lambda>x. if lk_Index x = lk_Index l then name else lk_Name x"
  have n: "name \<notin> lk_Name ` set ?ls" using assms(1) by (auto simp: rename_link_def list_ex_iff split: if_splits)
  have d: "distinct ?ls" "inj_on lk_Index (set ?ls)" "inj_on lk_Name (set ?ls)"
    using stack_ok_here [OF assms(2)] by (simp_all add: stack_ok_def distinct_map)
  have "inj_on ?n (set ?ls)"
  proof (rule inj_onI)
    fix x y assume "x \<in> set ?ls" "y \<in> set ?ls" "?n x = ?n y"
    with n inj_onD [OF d(2), of x y] inj_onD [OF d(3), of x y] show "x = y" by (auto split: if_splits)
  qed
  then have "distinct (map ?n ?ls)" using d(1) by (simp add: distinct_map)
  moreover have "map lk_Name (ks_links (map_link (\<lambda>x. x\<lparr>lk_Name := name\<rparr>) (lk_Index l) (stack w))) = map ?n ?ls"
    by (simp add: map_link_def comp_def)
  ultimately show "distinct (map lk_Name (ks_links (map_link (\<lambda>x. x\<lparr>lk_Name := name\<rparr>) (lk_Index l) (stack w))))" by simp
qed (simp_all add: dev_of_def)

text \<open>Requests that add something to a device.\<close>

lemma same_links_law:
  assumes "here (net_view w) i = Some d" "net_ok w" "ks_links (g (stack w)) = ks_links (stack w)"
    and "ks_routes (g (stack w)) = ks_routes (stack w)" "ks_sysctl (g (stack w)) = ks_sysctl (stack w)"
    and "stack_ok (nw_next w) (g (stack w))"
    and "\<And>x. lk_Index x = i \<Longrightarrow> dev_of (g (stack w)) x = h (dev_of (stack w) x)"
    and "\<And>x. lk_Index x \<noteq> i \<Longrightarrow> dev_of (g (stack w)) x = dev_of (stack w) x"
  shows "net_view (upd_stack g w) = set_dev (net_view w) i (h d) \<and> net_ok (upd_stack g w)"
proof -
  from assms(2,1) obtain x where x: "lk_Index x = i" "d = dev_of (stack w) x" "find (\<lambda>y. lk_Index y = i) (ks_links (stack w)) = Some x"
    by (rule devs_Some)
  have "net_view (upd_stack g w) = set_dev (net_view w) i (dev_of (g (stack w)) x)"
    by (rule view_set_dev [of g w, OF devs_same_links [OF assms(3) x(3) assms(8)] assms(4,5)])
  with assms(7) [OF x(1)] x(2) net_ok_upd [of w g, OF assms(2,6)] show ?thesis by simp
qed

lemma index_below:
  assumes "net_ok w" "here (net_view w) i = Some d" shows "i < nw_next w"
  using assms by (rule devs_Some) (use stack_ok_here [OF assms(1)] in \<open>auto simp: stack_ok_def list_all_iff\<close>)

lemma devs_other: "devs (s\<lparr>ks_routes := r\<rparr>) = devs s" "devs (s\<lparr>ks_sysctl := t\<rparr>) = devs s"
proof -
  have "dev_of (s\<lparr>ks_routes := r\<rparr>) = dev_of s" "dev_of (s\<lparr>ks_sysctl := t\<rparr>) = dev_of s" by (simp_all add: dev_of_def fun_eq_iff)
  then show "devs (s\<lparr>ks_routes := r\<rparr>) = devs s" "devs (s\<lparr>ks_sysctl := t\<rparr>) = devs s" by (auto simp: devs_def intro!: ext)
qed

lemma arp_off_law:
  assumes "on_link l (\<lambda>i s. s\<lparr>ks_noarp := i # ks_noarp s\<rparr>) w = (Inr u, w')" "net_ok w" "here (net_view w) (lk_Index l) = Some d"
  shows "net_view w' = set_dev (net_view w) (lk_Index l) (d\<lparr>dv_noarp := True\<rparr>) \<and> net_ok w'"
proof -
  let ?g = "\<lambda>s. s\<lparr>ks_noarp := lk_Index l # ks_noarp s\<rparr>"
  from assms obtain x where x: "w' = upd_stack ?g w" by (rule on_link_Inr)
  have "stack_ok (nw_next w) (?g (stack w))" using stack_ok_here [OF assms(2)] index_below [OF assms(2,3)] by (simp add: stack_ok_def)
  then show ?thesis unfolding x by (intro same_links_law [OF assms(3,2)]) (simp_all add: dev_of_def)
qed

lemma addr_add_law:
  assumes "on_link l (\<lambda>i s. s\<lparr>ks_addrs := ks_addrs s @ [(i, a)]\<rparr>) w = (Inr u, w')" "net_ok w" "here (net_view w) (lk_Index l) = Some d"
  shows "net_view w' = set_dev (net_view w) (lk_Index l)
      (d\<lparr>dv_addrs := dv_addrs d @ [(IPNet_String (ad_IPNet a), map_option IPNet_String (ad_Peer a))]\<rparr>) \<and> net_ok w'"
proof -
  let ?g = "\<lambda>s. s\<lparr>ks_addrs := ks_addrs s @ [(lk_Index l, a)]\<rparr>"
  from assms obtain x where x: "w' = upd_stack ?g w" by (rule on_link_Inr)
  have "stack_ok (nw_next w) (?g (stack w))" using stack_ok_here [OF assms(2)] index_below [OF assms(2,3)] by (simp add: stack_ok_def)
  then show ?thesis unfolding x by (intro same_links_law [OF assms(3,2)]) (simp_all add: dev_of_def)
qed

lemma neigh_add_law:
  assumes "add_neigh q w = (Inr u, w')" "net_ok w" "here (net_view w) (ne_LinkIndex q) = Some d" "ne_State q = NUD_PERMANENT"
  shows "net_view w' = set_dev (net_view w) (ne_LinkIndex q)
      (d\<lparr>dv_neighs := dv_neighs d @ [(IP_String (ne_IP q), HardwareAddr_String (ne_HardwareAddr q))]\<rparr>) \<and> net_ok w'"
proof -
  let ?g = "\<lambda>s. s\<lparr>ks_neighs := ks_neighs s @ [canon_neigh q]\<rparr>"
  have x: "w' = upd_stack ?g w" using assms(1) by (auto simp: add_neigh_def change_def split: if_splits)
  have "stack_ok (nw_next w) (?g (stack w))" using stack_ok_here [OF assms(2)] index_below [OF assms(2,3)]
    by (simp add: stack_ok_def canon_neigh_def)
  then show ?thesis unfolding x using assms(4) by (intro same_links_law [OF assms(3,2)]) (simp_all add: dev_of_def canon_neigh_def)
qed

lemma route_add_law:
  assumes "add_route t w = (Inr u, w')" "net_ok w"
  shows "net_view w' = (net_view w)\<lparr>v_routes := (v_routes (net_view w))(v_cur (net_view w) :=
        insert (Dst_String (ro_Dst t), IP_String (ro_Gw t), IP_String (ro_Src t)) (v_routes (net_view w) (v_cur (net_view w))))\<rparr> \<and> net_ok w'"
proof -
  from assms(1) obtain i where x: "w' = upd_stack (\<lambda>s. s\<lparr>ks_routes := ks_routes s @ [canon_route (t\<lparr>ro_LinkIndex := i\<rparr>)]\<rparr>) w"
    by (auto simp: add_route_def change_def split: if_splits option.splits)
  have "net_ok w'" unfolding x using stack_ok_here [OF assms(2)] by (intro net_ok_upd [OF assms(2)]) (simp add: stack_ok_def)
  then show ?thesis unfolding x
    by (auto simp: devs_other net_view_def upd_stack_def stack_def route_texts_def canon_route_def fun_eq_iff)
qed

lemma sysctl_law:
  assumes "set_sysctl key [x] w = (r, w')" "net_ok w"
  shows "net_view w' = set_sys (net_view w) ((v_sys (net_view w) (v_cur (net_view w)))(key \<mapsto> x)) \<and> net_ok w'"
proof -
  have x: "w' = upd_stack (\<lambda>s. s\<lparr>ks_sysctl := (key, x) # ks_sysctl s\<rparr>) w" using assms(1) by (simp add: set_sysctl_def)
  have "net_ok w'" unfolding x using stack_ok_here [OF assms(2)] by (intro net_ok_upd [OF assms(2)]) (simp add: stack_ok_def)
  moreover have "route_texts (s\<lparr>ks_sysctl := r\<rparr>) = route_texts s" for s r by (simp add: route_texts_def)
  ultimately show ?thesis unfolding x by (simp add: devs_other net_view_def upd_stack_def stack_def set_sys_def fun_eq_iff)
qed

lemma link_by_name_law:
  assumes "find (\<lambda>x. lk_Name x = name) (ks_links (stack w)) = Some l" "net_ok w"
  shows "here (net_view w) (lk_Index l) = Some (dev_of (stack w) l)"
  using find_SomeD [OF assms(1)] find_index [OF stack_ok_here [OF assms(2)], of l] by (simp add: here_def net_view_def devs_def stack_def)

lemma unique_law:
  assumes "net_ok w" "v_dev (net_view w) c i = Some d" "v_dev (net_view w) c j = Some e" "dv_name d = dv_name e"
  shows "i = j"
proof -
  from assms(2,3) obtain x y where "find (\<lambda>x. lk_Index x = i) (ks_links (nw_stacks w c)) = Some x" "d = dev_of (nw_stacks w c) x"
    "find (\<lambda>x. lk_Index x = j) (ks_links (nw_stacks w c)) = Some y" "e = dev_of (nw_stacks w c) y"
    by (auto simp: net_view_def devs_def)
  moreover have "inj_on lk_Name (set (ks_links (nw_stacks w c)))" using assms(1) by (simp add: net_ok_def stack_ok_def distinct_map)
  ultimately show ?thesis using assms(4) by (auto simp: dev_of_def dest!: find_SomeD dest: inj_onD)
qed

text \<open>Creating, moving and deleting links.\<close>

lemma devs_append:
  assumes "\<And>x. x \<in> set (ks_links s) \<Longrightarrow> lk_Index x \<noteq> lk_Index y"
  shows "devs (s\<lparr>ks_links := ks_links s @ [y]\<rparr>) = (devs s)(lk_Index y \<mapsto> dev_of s y)"
proof -
  have d: "dev_of (s\<lparr>ks_links := ks_links s @ [y]\<rparr>) = dev_of s" by (simp add: dev_of_def fun_eq_iff)
  have n: "find (\<lambda>x. lk_Index x = lk_Index y) (ks_links s) = None" using assms by (auto simp: find_None_iff)
  show ?thesis
  proof
    fix j
    show "devs (s\<lparr>ks_links := ks_links s @ [y]\<rparr>) j = ((devs s)(lk_Index y \<mapsto> dev_of s y)) j"
      using n by (cases "find (\<lambda>x. lk_Index x = j) (ks_links s)") (auto simp: devs_def d find_append)
  qed
qed

lemma dev_of_fresh:
  assumes "stack_ok N s" "N \<le> lk_Index y"
  shows "dev_of s y = new_device (lk_Name y) (lk_HardwareAddr y) (lk_Up y)"
proof -
  have "filter (\<lambda>a. fst a = lk_Index y) (ks_addrs s) = []" "lk_Index y \<notin> set (ks_noarp s)"
    "filter (\<lambda>n. ne_LinkIndex n = lk_Index y \<and> ne_State n = NUD_PERMANENT) (ks_neighs s) = []"
    using assms by (fastforce simp: stack_ok_def list_all_iff filter_empty_conv)+
  then show ?thesis by (simp add: dev_of_def new_device_def)
qed

lemma net_view_stacks:
  "net_view (w\<lparr>nw_next := a, nw_pairs := b, nw_stacks := (nw_stacks w)(nw_cur w := t)\<rparr>) =
     (net_view w)\<lparr>v_dev := (v_dev (net_view w))(nw_cur w := devs t), v_routes := (v_routes (net_view w))(nw_cur w := route_texts t),
        v_sys := (v_sys (net_view w))(nw_cur w := map_of (ks_sysctl t))\<rparr>"
  by (auto simp: net_view_def fun_eq_iff)

lemma link_add_law:
  assumes "add_link l w = (Inr u, w')" "net_ok w" "lk_kind l = Veth peer peerHw"
  shows "\<exists>i j h h'. i \<noteq> j \<and> here (net_view w) i = None \<and> here (net_view w) j = None \<and> net_ok w' \<and>
    net_view w' = set_dev (set_dev (net_view w) i (new_device (lk_Name l) h (lk_Up l))) j (new_device peer h' False)"
proof -
  define N where "N = nw_next w"
  define s where "s = stack w"
  define a where "a = l\<lparr>lk_Index := N, lk_MTU := (if lk_MTU l = 0 then 1450 else lk_MTU l)\<rparr>"
  define b where "b = a\<lparr>lk_Index := N + 1, lk_Name := peer, lk_HardwareAddr := peerHw, lk_Up := False\<rparr>"
  define s1 where "s1 = s\<lparr>ks_links := ks_links s @ [a]\<rparr>"
  define s2 where "s2 = s1\<lparr>ks_links := ks_links s1 @ [b]\<rparr>"
  have ok: "stack_ok N s" using stack_ok_here [OF assms(2)] by (simp add: N_def s_def)
  have "filter (\<lambda>a. fst a \<noteq> N \<and> fst a \<noteq> N + 1) (ks_addrs s) = ks_addrs s"
    using ok by (fastforce simp: stack_ok_def list_all_iff filter_id_conv)
  moreover have "ks_links s2 = ks_links s @ [a, b]" by (simp add: s1_def s2_def)
  ultimately have e: "s\<lparr>ks_links := ks_links s @ [a, b], ks_addrs := filter (\<lambda>a. fst a \<noteq> N \<and> fst a \<noteq> N + 1) (ks_addrs s)\<rparr> = s2"
    by (simp add: s2_def s1_def)
  from assms(1,3) have w': "w' = w\<lparr>nw_next := N + 2, nw_pairs := nw_pairs w @ [(N, N + 1)], nw_stacks := (nw_stacks w)(nw_cur w := s2)\<rparr>"
    and free: "lk_Name l \<notin> lk_Name ` set (ks_links s)" "peer \<noteq> lk_Name l" "peer \<notin> lk_Name ` set (ks_links s)"
    using e by (auto simp: add_link_def Let_def peer_taken_def upd_stack_def stack_def s_def N_def a_def b_def list_ex_iff image_iff split: if_splits)
  have below: "lk_Index x < N" if "x \<in> set (ks_links s)" for x using ok that by (auto simp: stack_ok_def list_all_iff)
  have d1: "devs s1 = (devs s)(N \<mapsto> dev_of s a)" unfolding s1_def using devs_append [of s a] below by (fastforce simp: a_def)
  have d2: "devs s2 = (devs s1)(N + 1 \<mapsto> dev_of s1 b)" unfolding s2_def using devs_append [of s1 b] below by (fastforce simp: b_def a_def s1_def)
  have na: "dev_of s a = new_device (lk_Name l) (lk_HardwareAddr l) (lk_Up l)" using dev_of_fresh [OF ok, of a] by (simp add: a_def)
  have "dev_of s1 b = dev_of s b" by (simp add: s1_def dev_of_def)
  then have nb: "dev_of s1 b = new_device peer peerHw False" using dev_of_fresh [OF ok, of b] by (simp add: b_def)
  have here: "here (net_view w) = devs s" by (simp add: here_def net_view_def s_def stack_def)
  have none: "devs s i = None" if "N \<le> i" for i using below that by (fastforce simp: devs_def find_None_iff)
  have rt: "route_texts s2 = route_texts s" "ks_sysctl s2 = ks_sysctl s" by (simp_all add: s1_def s2_def route_texts_def)
  have idem: "(v_routes (net_view w))(nw_cur w := route_texts s) = v_routes (net_view w)"
    "(v_sys (net_view w))(nw_cur w := map_of (ks_sysctl s)) = v_sys (net_view w)"
    by (rule fun_upd_idem; simp add: net_view_def s_def stack_def)+
  have cur: "v_cur (net_view w) = nw_cur w" by (simp add: net_view_def)
  have "net_view w' = set_dev (set_dev (net_view w) N (dev_of s a)) (N + 1) (dev_of s1 b)"
    unfolding w' net_view_stacks d2 d1 rt idem by (simp add: set_dev_def here_def cur) (simp add: here [unfolded here_def cur])
  moreover have "net_ok w'"
  proof -
    have up: "stack_ok (N + 2) t" if "stack_ok N t" for t using that by (auto simp: stack_ok_def list_all_iff)
    have "N \<notin> lk_Index ` set (ks_links s)" "N + 1 \<notin> lk_Index ` set (ks_links s)" by (auto dest!: below)
    moreover have "0 < N" using assms(2) by (simp add: net_ok_def N_def)
    ultimately have "stack_ok (N + 2) s2" using up [OF ok] free by (simp add: stack_ok_def s2_def s1_def a_def b_def)
    moreover have "stack_ok (N + 2) (nw_stacks w n)" for n using assms(2) by (intro up) (simp add: net_ok_def N_def)
    ultimately show ?thesis using assms(2) by (simp add: net_ok_def w' N_def)
  qed
  ultimately show ?thesis using none here na nb by (intro exI [of _ N] exI [of _ "N + 1"]) auto
qed

lemma devs_drop: "devs (drop_index i s) = (devs s)(i := None)"
proof
  fix j
  have f: "find (\<lambda>x. lk_Index x = j) (filter (\<lambda>x. lk_Index x \<noteq> i) xs) = (if j = i then None else find (\<lambda>x. lk_Index x = j) xs)" for xs
    by (induction xs) auto
  have d: "dev_of (drop_index i s) x = dev_of s x" if "lk_Index x \<noteq> i" for x
  proof -
    have "(\<lambda>a :: int \<times> Addr. fst a \<noteq> i \<and> fst a = lk_Index x) = (\<lambda>a. fst a = lk_Index x)"
      "(\<lambda>n :: Neigh. ne_LinkIndex n \<noteq> i \<and> ne_LinkIndex n = lk_Index x \<and> ne_State n = NUD_PERMANENT) = (\<lambda>n. ne_LinkIndex n = lk_Index x \<and> ne_State n = NUD_PERMANENT)"
      using that by auto
    then show ?thesis using that by (simp add: dev_of_def drop_index_def)
  qed
  show "devs (drop_index i s) j = ((devs s)(i := None)) j"
  proof (cases "j = i")
    case False
    then have "dev_of (drop_index i s) y = dev_of s y" if "find (\<lambda>x. lk_Index x = j) (ks_links s) = Some y" for y
      using find_SomeD [OF that] d by simp
    then show ?thesis using False f [of "ks_links s"]
      by (cases "find (\<lambda>x. lk_Index x = j) (ks_links s)") (simp_all add: devs_def drop_index_def)
  qed (simp add: devs_def drop_index_def find_None_iff)
qed

lemma stack_ok_drop: "stack_ok N s \<Longrightarrow> stack_ok N (drop_index i s)"
  by (auto simp: stack_ok_def drop_index_def list_all_iff distinct_map filter_is_subset intro: inj_on_subset)

lemma set_ns_law:
  assumes "move_link l fd w = (Inr u, w')" "net_ok w" "here (net_view w) (lk_Index l) = Some d" "fd \<noteq> nw_cur w"
  shows "\<exists>j rts. v_dev (net_view w) fd j = None \<and> net_ok w' \<and>
    net_view w' = (net_view w)\<lparr>v_dev := (v_dev (net_view w))(nw_cur w := (here (net_view w))(lk_Index l := None),
        fd := (v_dev (net_view w) fd)(j \<mapsto> new_device (dv_name d) (dv_hw d) False)),
      v_routes := (v_routes (net_view w))(nw_cur w := rts)\<rparr>"
proof -
  from assms(2,3) obtain x where x: "resolve l (stack w) = Some x" "x \<in> set (ks_links (stack w))" "lk_Index x = lk_Index l" "d = dev_of (stack w) x"
    by (rule resolve_index)
  define i where "i = lk_Index l"
  define t where "t = nw_stacks w fd"
  define t1 where "t1 = (drop_index i t)\<lparr>ks_routes := ks_routes t\<rparr>"
  define y where "y = x\<lparr>lk_Up := False\<rparr>"
  define t2 where "t2 = t1\<lparr>ks_links := ks_links t1 @ [y]\<rparr>"
  from assms(1,4) x(1,3) have w': "w' = w\<lparr>nw_stacks := (nw_stacks w)(nw_cur w := drop_index i (stack w), fd := t2)\<rparr>"
    and free: "i \<notin> lk_Index ` set (ks_links t)" "lk_Name x \<notin> lk_Name ` set (ks_links t)"
    by (auto simp: move_link_def Let_def upd_stack_def i_def t_def t1_def t2_def y_def list_ex_iff image_iff split: if_splits)
  have ok: "stack_ok (nw_next w) t" using assms(2) by (simp add: net_ok_def t_def)
  have t1: "ks_links t1 = ks_links t" using free(1) by (auto simp: t1_def drop_index_def filter_id_conv)
  have none: "devs t i = None" using free(1) by (auto simp: devs_def find_None_iff)
  have "lk_Index z \<noteq> lk_Index y" if "z \<in> set (ks_links t1)" for z using that free(1) t1 x(3) by (auto simp: y_def i_def image_iff)
  from devs_append [OF this] x(3) have "devs t2 = (devs t1)(i \<mapsto> dev_of t1 y)" by (simp add: t2_def y_def i_def)
  moreover have "dev_of t1 y = new_device (dv_name d) (dv_hw d) False"
    using x(3,4) by (simp add: dev_of_def new_device_def t1_def drop_index_def y_def i_def filter_empty_conv)
  moreover have "devs t1 = devs t" using none devs_drop [of i t] by (simp add: t1_def devs_other fun_upd_idem)
  ultimately have dt: "devs t2 = (devs t)(i \<mapsto> new_device (dv_name d) (dv_hw d) False)" by simp
  have rt: "route_texts t2 = route_texts t" "ks_sysctl t2 = ks_sysctl t" "ks_sysctl (drop_index i (stack w)) = ks_sysctl (stack w)"
    by (simp_all add: t2_def t1_def route_texts_def drop_index_def)
  have "stack_ok (nw_next w) t1" using stack_ok_drop [OF ok, of i] by (simp add: t1_def stack_ok_def)
  moreover have "0 < lk_Index x \<and> lk_Index x < nw_next w" using stack_ok_here [OF assms(2)] x(2) by (auto simp: stack_ok_def list_all_iff)
  ultimately have "stack_ok (nw_next w) t2" using free t1 x(3) by (simp add: t2_def stack_ok_def y_def i_def)
  with assms(2) have "net_ok w'" by (simp add: net_ok_def w' stack_ok_drop stack_ok_here)
  moreover have "net_view w' = (net_view w)\<lparr>v_dev := (v_dev (net_view w))(nw_cur w := (here (net_view w))(i := None),
        fd := (v_dev (net_view w) fd)(i \<mapsto> new_device (dv_name d) (dv_hw d) False)),
      v_routes := (v_routes (net_view w))(nw_cur w := route_texts (drop_index i (stack w)))\<rparr>"
    using rt dt assms(4) by (auto simp: net_view_def w' here_def devs_drop t_def stack_def fun_eq_iff)
  ultimately show ?thesis using none by (intro exI [of _ i] exI) (simp add: net_view_def t_def i_def)
qed

lemma link_del_law:
  assumes "del_link l w = (Inr u, w')" "net_ok w" "here (net_view w) (lk_Index l) = Some d"
  shows "net_ok w' \<and> nw_cur w' = nw_cur w \<and> here (net_view w') (lk_Index l) = None \<and>
    (\<forall>c i. v_dev (net_view w') c i \<in> {None, v_dev (net_view w) c i})"
proof -
  from assms(2,3) obtain x where x: "resolve l (stack w) = Some x" "lk_Index x = lk_Index l" by (rule resolve_index)
  define ps where "ps = partners (lk_Index l) w"
  have w': "w' = w\<lparr>nw_stacks := (\<lambda>n. fold drop_index ps (nw_stacks w n))\<rparr>" using assms(1) x by (auto simp: del_link_def ps_def)
  have ok: "stack_ok N s \<Longrightarrow> stack_ok N (fold drop_index js s)" for N s js by (induction js arbitrary: s) (simp_all add: stack_ok_drop)
  have dv: "devs (fold drop_index js s) i = (if i \<in> set js then None else devs s i)" for js s i
    by (induction js arbitrary: s) (auto simp: devs_drop)
  have "lk_Index l \<in> set ps" by (simp add: ps_def partners_def)
  with assms(2) ok show ?thesis by (auto simp: w' net_ok_def net_view_def here_def dv)
qed

section \<open>The host\<close>

text \<open>A world with the network, the files of the store and the results that were printed.\<close>

record cni_world =
  cw_net :: net_world
  cw_fs :: mem_fs
  cw_printed :: "cni_Result list"

definition on_net :: "(net_world, 'a) op \<Rightarrow> (cni_world, 'a) op" where
  "on_net f w = (case f (cw_net w) of (r, n) \<Rightarrow> (r, w\<lparr>cw_net := n\<rparr>))"

definition on_fs :: "(mem_fs, 'a) op \<Rightarrow> (cni_world, 'a) op" where
  "on_fs f w = (case f ((cw_fs w)\<lparr>fs_full := False\<rparr>) of (r, m) \<Rightarrow> (r, w\<lparr>cw_fs := m\<rparr>))"

definition host_kernel :: "cni_world kernel" where
  "host_kernel =
     \<lparr>k_LinkByName = \<lambda>n. on_net (k_LinkByName ref_kernel n), k_LinkByIndex = \<lambda>i. on_net (k_LinkByIndex ref_kernel i),
      k_LinkList = on_net (k_LinkList ref_kernel), k_LinkAdd = \<lambda>l. on_net (k_LinkAdd ref_kernel l),
      k_LinkDel = \<lambda>l. on_net (k_LinkDel ref_kernel l), k_LinkSetUp = \<lambda>l. on_net (k_LinkSetUp ref_kernel l),
      k_LinkSetName = \<lambda>l n. on_net (k_LinkSetName ref_kernel l n), k_LinkSetHardwareAddr = \<lambda>l h. on_net (k_LinkSetHardwareAddr ref_kernel l h),
      k_LinkSetARPOff = \<lambda>l. on_net (k_LinkSetARPOff ref_kernel l), k_LinkSetNsFd = \<lambda>l fd. on_net (k_LinkSetNsFd ref_kernel l fd),
      k_AddrAdd = \<lambda>l a. on_net (k_AddrAdd ref_kernel l a), k_AddrList = \<lambda>l f. on_net (k_AddrList ref_kernel l f),
      k_RouteAdd = \<lambda>r. on_net (k_RouteAdd ref_kernel r), k_RouteReplace = \<lambda>r. on_net (k_RouteReplace ref_kernel r),
      k_RouteList = \<lambda>l f. on_net (k_RouteList ref_kernel l f), k_RouteDel = \<lambda>r. on_net (k_RouteDel ref_kernel r),
      k_NeighAdd = \<lambda>n. on_net (k_NeighAdd ref_kernel n), k_NeighSet = \<lambda>n. on_net (k_NeighSet ref_kernel n),
      k_NeighDel = \<lambda>n. on_net (k_NeighDel ref_kernel n), k_NeighList = \<lambda>i f. on_net (k_NeighList ref_kernel i f),
      k_Interfaces = on_net (k_Interfaces ref_kernel), k_InterfaceAddrs = \<lambda>i. on_net (k_InterfaceAddrs ref_kernel i),
      k_InterfaceByName = \<lambda>n. on_net (k_InterfaceByName ref_kernel n), k_Sysctl = \<lambda>n ps. on_net (k_Sysctl ref_kernel n ps),
      k_EnableIP4Forward = on_net (k_EnableIP4Forward ref_kernel)\<rparr>"

definition host_file :: "string \<Rightarrow> cni_world OverwriteableFile" where
  "host_file path =
     \<lparr>of_Read = on_fs (of_Read (mem_file path)), of_Write = \<lambda>s. on_fs (of_Write (mem_file path) s), of_Seek = \<lambda>i. on_fs (of_Seek (mem_file path) i),
      of_Truncate = \<lambda>i. on_fs (of_Truncate (mem_file path) i), of_Close = on_fs (of_Close (mem_file path))\<rparr>"

definition host_locker :: "string \<Rightarrow> (cni_world, cni_world OverwriteableFile) op" where
  "host_locker path w = (Inr (host_file path), w\<lparr>cw_fs := (cw_fs w)\<lparr>fs_pos := (fs_pos (cw_fs w))(path := 0)\<rparr>\<rparr>)"

definition enter :: "int \<Rightarrow> cni_world \<Rightarrow> cni_world" where
  "enter fd w = w\<lparr>cw_net := (cw_net w)\<lparr>nw_cur := fd\<rparr>\<rparr>"

definition host_ns :: "int \<Rightarrow> string \<Rightarrow> cni_world NetNS" where
  "host_ns fd path =
     \<lparr>ns_Path = path, ns_Fd = fd, ns_Do = \<lambda>f w. (case f (enter fd w) of (r, w') \<Rightarrow> (r, enter (nw_cur (cw_net w)) w'))\<rparr>"

text \<open>The named namespaces of the host.\<close>

definition host_namespaces :: "(string \<times> int) list \<Rightarrow> cni_world namespaces" where
  "host_namespaces names =
     \<lparr>n_GetNS = \<lambda>path w. (case map_of names path of None \<Rightarrow> (Inl (ErrorString ''no such file or directory''), w) | Some fd \<Rightarrow> (Inr (host_ns fd path), w)),
      n_GetCurrentNS = \<lambda>w. (Inr (host_ns (nw_cur (cw_net w)) ''/proc/self/ns/net''), w)\<rparr>"

text \<open>The environment of the plugin: a daemon that answers every request with \<open>text\<close>, an allocator that gives out \<open>ip\<close>.\<close>

definition plugin_env :: "(string \<times> int) list \<Rightarrow> string \<Rightarrow> IP \<Rightarrow> cni_world cni_env" where
  "plugin_env names text ip =
     \<lparr>ne_kernel = host_kernel, ne_namespaces = host_namespaces names, ne_NewLocker = host_locker,
      ne_io = \<lparr>ReadFile = (\<lambda>_. fail (ErrorString ''no such file'')), WriteFile = (\<lambda>_ _. ret ())\<rparr>,
      ne_httpClient = (\<lambda>_ _ _. ret (200, Inr text)), ne_newRequest = (\<lambda>_ _. None),
      ne_DelegateAdd = (\<lambda>_ _. ret \<lparr>GetAsCurrent = Inr \<lparr>re_Interfaces = [],
        re_IPs = [\<lparr>ic_Interface = None, ic_Address = \<lparr>IPNet_IP = ip, IPNet_Mask = CIDRMask 24 32\<rparr>, ic_Gateway = []\<rparr>], re_Routes = [],
        re_DNS = \<lparr>dns_Nameservers = [], dns_Domain = [], dns_Search = [], dns_Options = []\<rparr>\<rparr>\<rparr>),
      ne_DelegateDel = (\<lambda>_ _. ret ()), ne_PrintResult = (\<lambda>r _ w. (Inr (), w\<lparr>cw_printed := cw_printed w @ [r]\<rparr>)), ne_OpenFile = (\<lambda>_. ret ())\<rparr>"

abbreviation host_view :: "cni_world \<Rightarrow> int netview" where "host_view w \<equiv> net_view (cw_net w)"

abbreviation host_files :: "cni_world \<Rightarrow> string \<Rightarrow> string" where "host_files w \<equiv> fs_text (cw_fs w)"

abbreviation host_ok :: "cni_world \<Rightarrow> bool" where "host_ok w \<equiv> net_ok (cw_net w)"

definition is_host_ns :: "cni_world NetNS \<Rightarrow> bool" where
  "is_host_ns n \<longleftrightarrow> (\<exists>fd path. n = host_ns fd path)"

lemma on_net_cases: "on_net f w = (r, w') \<longleftrightarrow> (\<exists>n. f (cw_net w) = (r, n) \<and> w' = w\<lparr>cw_net := n\<rparr>)"
  by (auto simp: on_net_def split: prod.splits)

lemma on_fs_cases: "on_fs f w = (r, w') \<longleftrightarrow> (\<exists>m. f ((cw_fs w)\<lparr>fs_full := False\<rparr>) = (r, m) \<and> w' = w\<lparr>cw_fs := m\<rparr>)"
  by (auto simp: on_fs_def split: prod.splits)

lemma works_Inr: "works name f w = (Inr x, w') \<Longrightarrow> f w = (Inr x, w')"
  by (simp add: works_def split: if_splits)

lemma host_becomes:
  "becomes host_view host_files host_ok w (w\<lparr>cw_net := n\<rparr>) v \<longleftrightarrow> net_view n = v \<and> net_ok n"
  by (simp add: becomes_def)

lemma host_request:
  assumes "on_net (works name f) w = (Inr x, w')"
  obtains n where "f (cw_net w) = (Inr x, n)" "w' = w\<lparr>cw_net := n\<rparr>"
  using assms by (auto simp: on_net_cases dest: works_Inr)

lemma v_cur_view [simp]: "v_cur (net_view w) = nw_cur w"
  by (simp add: net_view_def)

interpretation host: namespace_kernel host_kernel "host_namespaces names" host_view host_files host_ok "\<lambda>fd. fd" is_host_ns for names
proof
  fix w c i d j e
  assume "host_ok w" "v_dev (host_view w) c i = Some d" "v_dev (host_view w) c j = Some e" "dv_name d = dv_name e"
  then show "i = j" by (rule unique_law)
next
  fix w name rl w'
  assume ok: "host_ok w" and "k_LinkByName host_kernel name w = (rl, w')"
  then obtain n where n: "works ''LinkByName'' (find_link (\<lambda>x. lk_Name x = name)) (cw_net w) = (rl, n)" "w' = w\<lparr>cw_net := n\<rparr>"
    by (auto simp: host_kernel_def ref_kernel_def on_net_cases)
  then have "n = cw_net w" "\<And>l. rl = Inr l \<Longrightarrow> find (\<lambda>x. lk_Name x = name) (ks_links (stack (cw_net w))) = Some l"
    by (auto simp: works_def find_link_def split: if_splits option.splits)
  note f = this
  have "becomes host_view host_files host_ok w w' (host_view w)" using n(2) f(1) ok by (simp add: becomes_def)
  moreover have "\<exists>d. here (host_view w) (lk_Index l) = Some d \<and> dv_name d = name \<and> dv_hw d = lk_HardwareAddr l" if "rl = Inr l" for l
    using link_by_name_law [OF f(2) [OF that] ok] find_SomeD [OF f(2) [OF that]] by (simp add: dev_of_def)
  ultimately show "becomes host_view host_files host_ok w w' (host_view w) \<and>
      (\<forall>l. rl = Inr l \<longrightarrow> (\<exists>d. here (host_view w) (lk_Index l) = Some d \<and> dv_name d = name \<and> dv_hw d = lk_HardwareAddr l))"
    by blast
next
  fix w l d h u w'
  assume a: "host_ok w" "here (host_view w) (lk_Index l) = Some d" and "k_LinkSetHardwareAddr host_kernel l h w = (Inr u, w')"
  then obtain n where "on_link l (map_link (\<lambda>x. x\<lparr>lk_HardwareAddr := h\<rparr>)) (cw_net w) = (Inr u, n)" "w' = w\<lparr>cw_net := n\<rparr>"
    by (auto simp: host_kernel_def ref_kernel_def elim: host_request)
  with set_hw_law [OF _ a] show "\<exists>h'. becomes host_view host_files host_ok w w' (set_dev (host_view w) (lk_Index l) (d\<lparr>dv_hw := h'\<rparr>))"
    by (auto simp: host_becomes)
next
  fix w l d name u w'
  assume a: "host_ok w" "here (host_view w) (lk_Index l) = Some d" and "k_LinkSetName host_kernel l name w = (Inr u, w')"
  then obtain n where "rename_link l name (cw_net w) = (Inr u, n)" "w' = w\<lparr>cw_net := n\<rparr>"
    by (auto simp: host_kernel_def ref_kernel_def elim: host_request)
  with set_name_law [OF _ a] show "becomes host_view host_files host_ok w w' (set_dev (host_view w) (lk_Index l) (d\<lparr>dv_name := name\<rparr>))"
    by (auto simp: host_becomes)
next
  fix w l d u w'
  assume a: "host_ok w" "here (host_view w) (lk_Index l) = Some d" and "k_LinkSetUp host_kernel l w = (Inr u, w')"
  then obtain n where "on_link l (map_link (\<lambda>x. x\<lparr>lk_Up := True\<rparr>)) (cw_net w) = (Inr u, n)" "w' = w\<lparr>cw_net := n\<rparr>"
    by (auto simp: host_kernel_def ref_kernel_def elim: host_request)
  with set_up_law [OF _ a] show "becomes host_view host_files host_ok w w' (set_dev (host_view w) (lk_Index l) (d\<lparr>dv_up := True\<rparr>))"
    by (auto simp: host_becomes)
next
  fix w l d u w'
  assume a: "host_ok w" "here (host_view w) (lk_Index l) = Some d" and "k_LinkSetARPOff host_kernel l w = (Inr u, w')"
  then obtain n where "on_link l (\<lambda>i s. s\<lparr>ks_noarp := i # ks_noarp s\<rparr>) (cw_net w) = (Inr u, n)" "w' = w\<lparr>cw_net := n\<rparr>"
    by (auto simp: host_kernel_def ref_kernel_def elim: host_request)
  with arp_off_law [OF _ a] show "becomes host_view host_files host_ok w w' (set_dev (host_view w) (lk_Index l) (d\<lparr>dv_noarp := True\<rparr>))"
    by (auto simp: host_becomes)
next
  fix w l d a u w'
  assume b: "host_ok w" "here (host_view w) (lk_Index l) = Some d" and "k_AddrAdd host_kernel l a w = (Inr u, w')"
  then obtain n where "on_link l (\<lambda>i s. s\<lparr>ks_addrs := ks_addrs s @ [(i, a)]\<rparr>) (cw_net w) = (Inr u, n)" "w' = w\<lparr>cw_net := n\<rparr>"
    by (auto simp: host_kernel_def ref_kernel_def elim: host_request)
  with addr_add_law [OF _ b] show "becomes host_view host_files host_ok w w' (set_dev (host_view w) (lk_Index l)
      (d\<lparr>dv_addrs := dv_addrs d @ [(IPNet_String (ad_IPNet a), map_option IPNet_String (ad_Peer a))]\<rparr>))"
    by (auto simp: host_becomes)
next
  fix w q d u w'
  assume a: "host_ok w" "here (host_view w) (ne_LinkIndex q) = Some d" and "k_NeighAdd host_kernel q w = (Inr u, w')" and p: "ne_State q = NUD_PERMANENT"
  then obtain n where "add_neigh q (cw_net w) = (Inr u, n)" "w' = w\<lparr>cw_net := n\<rparr>"
    by (auto simp: host_kernel_def ref_kernel_def elim: host_request)
  with neigh_add_law [OF _ a p] show "becomes host_view host_files host_ok w w' (set_dev (host_view w) (ne_LinkIndex q)
      (d\<lparr>dv_neighs := dv_neighs d @ [(IP_String (ne_IP q), HardwareAddr_String (ne_HardwareAddr q))]\<rparr>))"
    by (auto simp: host_becomes)
next
  fix w t u w'
  assume a: "host_ok w" and "k_RouteAdd host_kernel t w = (Inr u, w')"
  then obtain n where "add_route t (cw_net w) = (Inr u, n)" "w' = w\<lparr>cw_net := n\<rparr>"
    by (auto simp: host_kernel_def ref_kernel_def elim: host_request)
  with route_add_law [OF _ a] show "becomes host_view host_files host_ok w w' ((host_view w)\<lparr>v_routes := (v_routes (host_view w))(v_cur (host_view w) :=
        insert (Dst_String (ro_Dst t), IP_String (ro_Gw t), IP_String (ro_Src t)) (v_routes (host_view w) (v_cur (host_view w))))\<rparr>)"
    by (auto simp: host_becomes)
next
  fix w key x rs w'
  assume a: "host_ok w" and "k_Sysctl host_kernel key [x] w = (rs, w')"
  then obtain n where n: "works ''Sysctl'' (set_sysctl key [x]) (cw_net w) = (rs, n)" "w' = w\<lparr>cw_net := n\<rparr>"
    by (auto simp: host_kernel_def ref_kernel_def on_net_cases)
  show "\<exists>s. becomes host_view host_files host_ok w w' (set_sys (host_view w) s) \<and>
      (\<forall>y. rs = Inr y \<longrightarrow> s = (v_sys (host_view w) (v_cur (host_view w)))(key \<mapsto> x))"
  proof (cases "''Sysctl'' \<in> set (nw_broken (cw_net w))")
    case True
    have "set_sys (host_view w) (v_sys (host_view w) (v_cur (host_view w))) = host_view w" by (simp add: set_sys_def)
    with True n a show ?thesis by (intro exI [of _ "v_sys (host_view w) (v_cur (host_view w))"]) (auto simp: works_def becomes_def)
  next
    case False
    with n sysctl_law [OF _ a] show ?thesis by (auto simp: works_def host_becomes)
  qed
next
  fix w l peer peerHw u w'
  assume a: "host_ok w" "lk_kind l = Veth peer peerHw" and "k_LinkAdd host_kernel l w = (Inr u, w')"
  then obtain n where "add_link l (cw_net w) = (Inr u, n)" "w' = w\<lparr>cw_net := n\<rparr>"
    by (auto simp: host_kernel_def ref_kernel_def elim: host_request)
  with link_add_law [OF _ a] show "\<exists>i j h h'. i \<noteq> j \<and> here (host_view w) i = None \<and> here (host_view w) j = None \<and>
      becomes host_view host_files host_ok w w' (set_dev (set_dev (host_view w) i (new_device (lk_Name l) h (lk_Up l))) j (new_device peer h' False))"
    unfolding becomes_def by fastforce
next
  fix w l d fd u w'
  assume a: "host_ok w" "here (host_view w) (lk_Index l) = Some d" and "k_LinkSetNsFd host_kernel l fd w = (Inr u, w')" and f: "fd \<noteq> v_cur (host_view w)"
  then obtain n where n: "move_link l fd (cw_net w) = (Inr u, n)" "w' = w\<lparr>cw_net := n\<rparr>"
    by (auto simp: host_kernel_def ref_kernel_def elim: host_request)
  from set_ns_law [OF n(1) a] f n(2) show "\<exists>j rts. v_dev (host_view w) fd j = None \<and>
      becomes host_view host_files host_ok w w' ((host_view w)\<lparr>v_dev := (v_dev (host_view w))(v_cur (host_view w) := (here (host_view w))(lk_Index l := None),
        fd := (v_dev (host_view w) fd)(j \<mapsto> new_device (dv_name d) (dv_hw d) False)), v_routes := (v_routes (host_view w))(v_cur (host_view w) := rts)\<rparr>)"
    by (auto simp: host_becomes)
next
  fix w l d u w'
  assume a: "host_ok w" "here (host_view w) (lk_Index l) = Some d" and "k_LinkDel host_kernel l w = (Inr u, w')"
  then obtain n where n: "del_link l (cw_net w) = (Inr u, n)" "w' = w\<lparr>cw_net := n\<rparr>"
    by (auto simp: host_kernel_def ref_kernel_def elim: host_request)
  from link_del_law [OF n(1) a] n(2) show "host_files w' = host_files w \<and> host_ok w' \<and> v_cur (host_view w') = v_cur (host_view w) \<and>
      here (host_view w') (lk_Index l) = None \<and> (\<forall>c i. v_dev (host_view w') c i \<in> {None, v_dev (host_view w) c i})"
    by simp
next
  fix w path rn w'
  assume "host_ok w" "n_GetNS (host_namespaces names) path w = (rn, w')"
  then show "becomes host_view host_files host_ok w w' (host_view w) \<and> (\<forall>n. rn = Inr n \<longrightarrow> is_host_ns n)"
    by (auto simp: host_namespaces_def becomes_def is_host_ns_def split: option.splits)
next
  fix w n f u w'
  assume ok: "host_ok w" and "is_host_ns n" and d: "ns_Do n f w = (Some (Inr u), w')"
  then obtain fd path where n: "n = host_ns fd path" by (auto simp: is_host_ns_def)
  with d obtain w2 where w2: "f (enter fd w) = (Some (Inr u), w2)" "w' = enter (nw_cur (cw_net w)) w2" by (auto simp: host_ns_def split: prod.splits)
  have e: "becomes host_view host_files host_ok v (enter c v) ((host_view v)\<lparr>v_cur := c\<rparr>)" if "host_ok v" for v c
    using that by (simp add: becomes_def enter_def net_view_def net_ok_def)
  show "\<exists>w1 w2. becomes host_view host_files host_ok w w1 ((host_view w)\<lparr>v_cur := ns_Fd n\<rparr>) \<and> f w1 = (Some (Inr ()), w2) \<and>
      (host_ok w2 \<longrightarrow> becomes host_view host_files host_ok w2 w' ((host_view w2)\<lparr>v_cur := v_cur (host_view w)\<rparr>))"
    using e [OF ok, of fd] e [of w2 "nw_cur (cw_net w)"] w2 by (intro exI [of _ "enter fd w"] exI [of _ w2]) (simp add: n host_ns_def)
qed

lemma host_file_quiet:
  "on_fs f w = (r, w') \<Longrightarrow> cw_net w' = cw_net w"
  by (auto simp: on_fs_cases)

interpretation host_files: locked_files host_locker "\<lambda>f path. f = host_file path" host_files "\<lambda>w. fs_pos (cw_fs w)"
proof
  fix f path w w' s u
  assume "f = host_file path" "of_Write f s w = (Inr u, w')" "host_files w path = []" "fs_pos (cw_fs w) path = 0"
  then show "host_files w' = (host_files w)(path := s)"
    by (auto simp: host_file_def on_fs_cases mem_file_def Let_def split: if_splits)
qed (auto simp: host_locker_def host_file_def on_fs_cases mem_file_def)

interpretation plugin: cni_services "plugin_env names text ip" host_view host_files host_ok "\<lambda>fd. fd" is_host_ns
  "\<lambda>f path. f = host_file path" "\<lambda>w. fs_pos (cw_fs w)" for names text ip
proof -
  have "namespace_kernel (ne_kernel (plugin_env names text ip)) (ne_namespaces (plugin_env names text ip)) host_view host_files host_ok (\<lambda>fd. fd) is_host_ns"
    using host.namespace_kernel_axioms by (simp add: plugin_env_def)
  moreover have "locked_files (ne_NewLocker (plugin_env names text ip)) (\<lambda>f path. f = host_file path) host_files (\<lambda>w. fs_pos (cw_fs w))"
    using host_files.locked_files_axioms by (simp add: plugin_env_def)
  moreover have "cni_services_axioms (plugin_env names text ip) host_view host_files host_ok (\<lambda>f path. f = host_file path)"
    by unfold_locales (auto simp: plugin_env_def becomes_def host_locker_def host_file_def dest: host_file_quiet)
  ultimately show "cni_services (plugin_env names text ip) host_view host_files host_ok (\<lambda>fd. fd) is_host_ns
      (\<lambda>f path. f = host_file path) (\<lambda>w. fs_pos (cw_fs w))"
    by (simp add: cni_services_def)
qed

end
