(* ===== verification/Cni_Netinfo.thy ===== *)
theory Cni_Netinfo
  imports Cni_Main
begin

text \<open>
  What the plugin learns about the network: the answer of the health check server of the daemon, or the subnet file of
  flannel (\<^verbatim>\<open>cni/netinfo\<close>).
\<close>

section \<open>The daemon\<close>

lemma dec_enc_NetworkInfo:
  assumes "int64 (ni_MTU i)"
  shows "dec_NetworkInfo (enc_NetworkInfo i) = Some i"
proof -
  let ?ms = "[(''overlay_subnet'', JStr (ni_OverlaySubnet i)), (''mtu'', enc_int (ni_MTU i))]"
  have "distinct (map (map lower) [''overlay_subnet'', ''mtu''])" by code_simp
  then have d: "distinct_keys ?ms" by (simp only: distinct_keys_def list.map comp_apply fst_conv)
  have "decode_field dec_string ''overlay_subnet'' [] ?ms = (ni_OverlaySubnet i, False)"
    by (rule decode_members(1) [OF d]) simp
  moreover have "decode_field dec_int64 ''mtu'' 0 ?ms = (ni_MTU i, False)"
    by (rule decode_members(3) [OF d _ assms]) simp
  ultimately show ?thesis by (simp add: dec_NetworkInfo_def enc_NetworkInfo_def mistyped_def field_s_def field_i_def)
qed

lemma unmarshal_NetworkInfo:
  "int64 (ni_MTU i) \<Longrightarrow> json_Unmarshal dec_NetworkInfo (json_text (enc_NetworkInfo i)) = Inr i"
  by (rule json_Unmarshal_text) (simp_all add: dec_enc_NetworkInfo, simp add: enc_NetworkInfo_def)

text \<open>
  C25.  What the daemon serves is what the plugin uses: when \<^verbatim>\<open>GET\<close> on the daemon's port reaches the server that the daemon
  built for its network information, the plugin gets exactly this information, with the MTU of its own
  configuration in place of the daemon's when that is not 0.
\<close>

theorem plugin_reads_daemon_info:
  assumes "buildHealthCheckServer (nc_DaemonPort conf) info = Inr (addr, handler)"
    and "ne_httpClient env ''GET'' (''http://'' @ addr @ ''/'') [] w =
      (case handler \<lparr>rq_method = ''GET'', rq_path = ''/'', rq_body = Inr []\<rparr> w of (resp, w') \<Rightarrow> (Inr (rs_status resp, Inr (rs_body resp)), w'))"
    and "ne_newRequest env ''GET'' (''http://'' @ addr @ ''/'') = None"
    and "nc_SubnetFile conf = []" "0 \<le> nc_MTU conf" "int64 (ni_MTU info)"
  shows "cni_getNetworkInfo env conf w = (Inr (if nc_MTU conf = 0 then info else info\<lparr>ni_MTU := nc_MTU conf\<rparr>), w)"
proof -
  have a: "''http://'' @ addr @ ''/'' = (''http://127.0.0.1:'' @ sprintf_d (nc_DaemonPort conf)) @ ''/''"
    and h: "handler = (\<lambda>req w. (\<lparr>rs_status = 200, rs_body = json_text (enc_NetworkInfo info)\<rparr>, w))"
    using assms(1) by (auto simp: buildHealthCheckServer_def json_Marshal_def address_def)
  have "json_Do (json_client_New (ne_httpClient env) (ne_newRequest env) (''http://127.0.0.1:'' @ sprintf_d (nc_DaemonPort conf)))
      ''GET'' ''/'' None (json_Unmarshal dec_NetworkInfo) w = (Inr info, w)"
    using assms(2,3) unfolding a h by (simp add: json_Do_def json_client_New_def unmarshal_NetworkInfo assms(6))
  with assms(4,5) show ?thesis
    by (simp add: cni_getNetworkInfo_def check_NetConf_def min_i_def validator_Validate_def Discover_def netinfo_Daemon_Get_def try_do_def)
qed

section \<open>The subnet file of flannel\<close>

text \<open>The match that is preferred at the front of a text.\<close>

definition prefers :: "rx \<Rightarrow> string \<Rightarrow> string list \<Rightarrow> string \<Rightarrow> bool" where
  "prefers r s gs rest \<longleftrightarrow> (\<exists>more. rx_match r s = (gs, rest) # more)"

lemma prefers_Chars: "prefers (Chars t) (t @ s) [] s"
  by (simp add: prefers_def)

lemma prefers_Cat: "prefers a s gs s' \<Longrightarrow> prefers b s' hs rest \<Longrightarrow> prefers (Cat a b) s (gs @ hs) rest"
  by (auto simp: prefers_def)

lemma prefers_Group: "prefers a (m @ rest) gs rest \<Longrightarrow> prefers (Group a) (m @ rest) (m # gs) rest"
  by (auto simp: prefers_def)

lemma prefers_Digits:
  assumes "\<forall>c\<in>set ds. is_digit c" "lo \<le> length ds" "length ds \<le> hi" "rest = [] \<or> \<not> is_digit (hd rest)"
  shows "prefers (Digits lo hi) (ds @ rest) [] rest"
proof -
  have "takeWhile is_digit (take hi (ds @ rest)) = ds"
  proof (cases "take (hi - length ds) rest")
    case Nil
    with assms(1,3) show ?thesis by (auto simp: takeWhile_eq_all_conv)
  next
    case (Cons c t)
    then have "\<not> is_digit c" using assms(4) by (cases rest; cases "hi - length ds") auto
    with Cons assms(1,3) show ?thesis by simp
  qed
  moreover have "rev [lo..<Suc (length ds)] = length ds # rev [lo..<length ds]" using assms(2) by simp
  ultimately show ?thesis by (simp add: prefers_def)
qed

lemma prefers_itoa:
  assumes "n < 10 ^ k" "0 < k" "rest = [] \<or> \<not> is_digit (hd rest)"
  shows "prefers (Digits 1 k) (itoa n @ rest) [] rest"
  using assms itoa_digits [of _ n] itoa_not_Nil [of n] itoa_length_le [OF assms(1,2)]
  by (intro prefers_Digits) (auto simp: Suc_le_eq)

text \<open>A label does not start at any of the first positions of a text.\<close>

definition label_free :: "string \<Rightarrow> nat \<Rightarrow> string \<Rightarrow> bool" where
  "label_free l n s \<longleftrightarrow> list_all (\<lambda>i. take (length l) (drop i s) \<noteq> l) [0..<n]"

lemma label_free_Cons: "label_free l (Suc n) (c # s) \<longleftrightarrow> take (length l) (c # s) \<noteq> l \<and> label_free l n s"
  unfolding label_free_def upt_conv_Cons [OF zero_less_Suc] map_Suc_upt [symmetric] by (simp add: list.pred_map comp_def)

lemma find_labelled:
  assumes "label_free l (length pre) (pre @ s)" "prefers (Cat (Chars l) b) s gs rest" "s \<noteq> []"
  shows "\<exists>m. FindStringSubmatch (Cat (Chars l) b) (pre @ s) = m # gs"
  using assms(1)
proof (induction pre)
  case Nil
  from assms(2,3) show ?case by (cases s) (auto simp: prefers_def)
next
  case (Cons c pre)
  then have "rx_match (Cat (Chars l) b) ((c # pre) @ s) = []" "label_free l (length pre) (pre @ s)" by (simp_all add: label_free_Cons)
  with Cons.IH show ?case by simp
qed

lemma prefers_dotted:
  assumes "n < 100" "rest = [] \<or> \<not> is_digit (hd rest)"
  shows "prefers (Cat (rx_repeat 3 (Cat (Digits 1 3) (Chars ''.''))) (Cat (Digits 1 3) (Cat (Chars ''/'') (Digits 1 2))))
    (dotted [a, b, c, d] @ ''/'' @ itoa n @ rest) [] rest"
proof -
  have byte: "prefers (Digits 1 3) (itoa (unat x) @ e # t) [] (e # t)" if "\<not> is_digit e" for x :: byte and e t
    using that unsigned_less [of x, where 'a = nat] by (intro prefers_itoa) auto
  have dot: "prefers (Cat (Digits 1 3) (Chars ''.'')) (itoa (unat x) @ ''.'' @ t) [] t" for x :: byte and t
    using prefers_Cat [OF byte [of "CHR ''.''" x t] prefers_Chars [of "''.''" t, simplified]] by (simp add: is_digit_def)
  have tl: "prefers (Cat (Digits 1 3) (Cat (Chars ''/'') (Digits 1 2))) (itoa (unat d) @ ''/'' @ itoa n @ rest) [] rest"
    using prefers_Cat [OF byte [of "CHR ''/''" d "itoa n @ rest"] prefers_Cat [OF prefers_Chars [of "''/''" "itoa n @ rest", simplified]
      prefers_itoa [of n 2 rest]]] assms by (simp add: is_digit_def)
  have nil: "prefers (Chars []) t [] t" for t using prefers_Chars [of "[]" t] by simp
  have rep: "prefers (rx_repeat 3 (Cat (Digits 1 3) (Chars ''.''))) (itoa (unat a) @ ''.'' @ itoa (unat b) @ ''.'' @ itoa (unat c) @ ''.'' @ t) [] t" for t
    using prefers_Cat [OF dot [of a] prefers_Cat [OF dot [of b] prefers_Cat [OF dot [of c t] nil]]]
    by (simp add: rx_repeat_def numeral_3_eq_3)
  show ?thesis using prefers_Cat [OF rep tl] by (simp add: dotted_def)
qed

lemma Atoi_itoa: "n < 2 ^ 63 \<Longrightarrow> Atoi (itoa n) = Inr (int n)"
proof -
  assume "n < 2 ^ 63"
  moreover have "hd (itoa n) \<noteq> CHR ''-''" "hd (itoa n) \<noteq> CHR ''+''" using hd_itoa [of n] by (auto simp: is_digit_def)
  moreover have "list_all is_digit (itoa n)" using itoa_digits by (auto simp: list_all_iff)
  ultimately show ?thesis by (simp add: Atoi_def Let_def digits_itoa int64_def)
qed

text \<open>
  C26.  A subnet file that has the labels \<^verbatim>\<open>FLANNEL_SUBNET\<close> and \<^verbatim>\<open>FLANNEL_MTU\<close>, with any other text around them, gives exactly
  the subnet and the MTU that were written: every IPv4 address, prefix length and MTU of at most five digits is read back.
\<close>

theorem flannel_file_is_read:
  assumes "ReadFile io path w = (Inr (pre @ ''FLANNEL_SUBNET='' @ cidr_text v n @ mid @ ''FLANNEL_MTU='' @ itoa mtu @ post), w')"
    and "n \<le> 32" "mtu < 10 ^ 5" "mid \<noteq> [] \<and> \<not> is_digit (hd mid)" "post = [] \<or> \<not> is_digit (hd post)"
    and "label_free ''FLANNEL_SUBNET='' (length pre)
      (pre @ ''FLANNEL_SUBNET='' @ cidr_text v n @ mid @ ''FLANNEL_MTU='' @ itoa mtu @ post)"
    and "label_free ''FLANNEL_MTU='' (length (pre @ ''FLANNEL_SUBNET='' @ cidr_text v n @ mid))
      (pre @ ''FLANNEL_SUBNET='' @ cidr_text v n @ mid @ ''FLANNEL_MTU='' @ itoa mtu @ post)"
  shows "Flannel_Get io \<lparr>fl_SubnetFilePath = path\<rparr> w = (Inr \<lparr>ni_OverlaySubnet = cidr_text v n, ni_MTU = int mtu\<rparr>, w')"
proof -
  let ?tail = "mid @ ''FLANNEL_MTU='' @ itoa mtu @ post"
  let ?pre = "pre @ ''FLANNEL_SUBNET='' @ cidr_text v n @ mid"
  obtain a b c d where v: "bytes32 v = [a, b, c, d]" by (simp add: bytes32_def)
  have tail: "?tail = [] \<or> \<not> is_digit (hd ?tail)" using assms(4) by simp
  have "prefers (Cat (rx_repeat 3 (Cat (Digits 1 3) (Chars ''.''))) (Cat (Digits 1 3) (Cat (Chars ''/'') (Digits 1 2))))
      (cidr_text v n @ ?tail) [] ?tail"
    using prefers_dotted [of n ?tail a b c d] assms(2) tail by (simp add: cidr_text_def v)
  from prefers_Cat [OF prefers_Chars [of "''FLANNEL_SUBNET=''"] prefers_Group [OF this]]
  have "prefers flannelSubnetRegex (''FLANNEL_SUBNET='' @ cidr_text v n @ ?tail) [cidr_text v n] ?tail"
    unfolding flannelSubnetRegex_def by simp
  from find_labelled [OF assms(6) this [unfolded flannelSubnetRegex_def]] obtain m where
    m: "FindStringSubmatch flannelSubnetRegex (pre @ ''FLANNEL_SUBNET='' @ cidr_text v n @ ?tail) = [m, cidr_text v n]"
    unfolding flannelSubnetRegex_def [symmetric] by auto
  have "prefers (Digits 1 5) (itoa mtu @ post) [] post" by (rule prefers_itoa [OF assms(3) _ assms(5)]) simp
  from prefers_Cat [OF prefers_Chars [of "''FLANNEL_MTU=''"] prefers_Group [OF this]]
  have "prefers flannelMTURegex (''FLANNEL_MTU='' @ itoa mtu @ post) [itoa mtu] post" unfolding flannelMTURegex_def by simp
  note mtu = this [unfolded flannelMTURegex_def]
  have "label_free ''FLANNEL_MTU='' (length ?pre) (?pre @ ''FLANNEL_MTU='' @ itoa mtu @ post)"
    using assms(7) by (simp only: append_assoc)
  from find_labelled [OF this mtu] obtain k where k: "FindStringSubmatch flannelMTURegex (?pre @ ''FLANNEL_MTU='' @ itoa mtu @ post) = [k, itoa mtu]"
    unfolding flannelMTURegex_def [symmetric] by auto
  have "Atoi (itoa mtu) = Inr (int mtu)" using assms(3) by (intro Atoi_itoa) simp
  with assms(1) m k show ?thesis by (simp add: Flannel_Get_def try_do_def ret_def)
qed

definition flannel_text :: string where
  "flannel_text = ''FLANNEL_NETWORK=10.255.0.0/16'' @ [CHR 0x0A] @ ''FLANNEL_SUBNET=10.255.41.1/24'' @ [CHR 0x0A] @ ''FLANNEL_MTU=1450'' @ [CHR 0x0A]
     @ ''FLANNEL_IPMASQ=false''"

theorem flannel_file_is_read_witness:
  "Flannel_Get \<lparr>ReadFile = \<lambda>_. ret flannel_text, WriteFile = \<lambda>_ _. ret ()\<rparr> \<lparr>fl_SubnetFilePath = ''/run/flannel/subnet.env''\<rparr> ()
     = (Inr \<lparr>ni_OverlaySubnet = ''10.255.41.1/24'', ni_MTU = 1450\<rparr>, ())"
proof -
  let ?pre = "''FLANNEL_NETWORK=10.255.0.0/16'' @ [CHR 0x0A]"
  let ?post = "[CHR 0x0A] @ ''FLANNEL_IPMASQ=false''"
  have t: "cidr_text 0x0AFF2901 24 = ''10.255.41.1/24''" "itoa 1450 = ''1450''" by code_simp+
  have f: "flannel_text = ?pre @ ''FLANNEL_SUBNET='' @ cidr_text 0x0AFF2901 24 @ [CHR 0x0A] @ ''FLANNEL_MTU='' @ itoa 1450 @ ?post"
    by (simp add: flannel_text_def t)
  have l: "label_free ''FLANNEL_SUBNET='' (length ?pre) flannel_text"
    "label_free ''FLANNEL_MTU='' (length (?pre @ ''FLANNEL_SUBNET='' @ cidr_text 0x0AFF2901 24 @ [CHR 0x0A])) flannel_text" by code_simp+
  have d: "\<not> is_digit (CHR 0x0A)" by code_simp
  let ?io = "\<lparr>ReadFile = \<lambda>_. ret flannel_text, WriteFile = \<lambda>_ _. ret ()\<rparr>"
  have r: "ReadFile ?io ''/run/flannel/subnet.env'' () = (Inr flannel_text, ())" by (simp add: ret_def)
  have s: "(24 :: nat) \<le> 32" "(1450 :: nat) < 10 ^ 5" by simp_all
  have e: "[CHR 0x0A] \<noteq> [] \<and> \<not> is_digit (hd [CHR 0x0A])" "?post = [] \<or> \<not> is_digit (hd ?post)" using d by simp_all
  have i: "int 1450 = 1450" by simp
  show ?thesis
    using flannel_file_is_read [OF r [unfolded f] s e l [unfolded f]] unfolding t i f .
qed

end
