(* ===== verification/Cni_Scenario.thy ===== *)
theory Cni_Scenario
  imports Cni_Reference Cni_Netinfo
begin

text \<open>
  One container, added and deleted on the host of \<open>Cni_Reference\<close>: the hypotheses of the properties of the plugin hold there.
\<close>

section \<open>The host and the container\<close>

definition c1_conf :: NetConf where
  "c1_conf = \<lparr>nc_CNIVersion = ''1.0.0'', nc_Name = ''cf'', nc_DataDir = ''/var/vcap'', nc_SubnetFile = [], nc_MTU = 0,
     nc_Datastore = ''store'', nc_DaemonPort = 8080\<rparr>"

definition c1_json :: json where
  "c1_json = JObj [(''cniVersion'', JStr ''1.0.0''), (''name'', JStr ''cf''), (''type'', JStr ''silk-cni''), (''dataDir'', JStr ''/var/vcap''),
     (''datastore'', JStr ''store''), (''daemonPort'', JNum ''8080'')]"

definition c1_call :: CmdArgs where
  "c1_call = \<lparr>ca_Netns = ''/var/run/netns/c1'', ca_IfName = ''eth0'', ca_StdinData = []\<rparr>"

definition c1_args :: CmdArgs where
  "c1_args = c1_call\<lparr>ca_StdinData := json_text c1_json\<rparr>"

definition c1_info :: NetworkInfo where
  "c1_info = \<lparr>ni_OverlaySubnet = ''10.255.30.0/24'', ni_MTU = 1450\<rparr>"

definition c1_ip :: IP where
  "c1_ip = [10, 255, 30, 5]"

definition c1_names :: "(string \<times> int) list" where
  "c1_names = [(''/var/run/netns/c1'', 7)]"

definition c1_host :: "cni_world NetNS" where
  "c1_host = host_ns 3 ''/proc/self/ns/net''"

definition c1_world :: cni_world where
  "c1_world = \<lparr>cw_net = \<lparr>nw_cur = 3, nw_stacks = (\<lambda>_. empty_stack), nw_next = 5, nw_pairs = [], nw_broken = []\<rparr>,
     cw_fs = empty_fs False, cw_printed = []\<rparr>"

abbreviation c1_env :: "cni_world cni_env" where
  "c1_env \<equiv> plugin_env c1_names (json_text (enc_NetworkInfo c1_info)) c1_ip"

abbreviation c1_plugin :: "cni_world CNIPlugin" where
  "c1_plugin \<equiv> silk_CNIPlugin c1_env c1_host"

lemma c1_stdin: "json_Unmarshal dec_NetConf (ca_StdinData c1_args) = Inr c1_conf"
proof -
  have "json_ok c1_json" "dec_NetConf c1_json = Some c1_conf" by code_simp+
  then show ?thesis by (simp add: c1_args_def json_Unmarshal_text del: json_text.simps)
qed

lemma c1_served: "int64 (ni_MTU c1_info)"
  by code_simp

lemma host_ok_c1: "host_ok c1_world"
  by (simp add: c1_world_def net_ok_def stack_ok_def empty_stack_def)

lemma c1_store: "contents (host_files c1_world path) = Some Map.empty" "tidy Map.empty"
  by (simp_all add: c1_world_def empty_fs_def contents_def Decode_def skip_space_def tidy_def)

theorem plugin_reads_daemon_info_witness:
  "cni_getNetworkInfo c1_env c1_conf c1_world = (Inr c1_info, c1_world)"
proof -
  obtain addr handler where b: "buildHealthCheckServer (nc_DaemonPort c1_conf) c1_info = Inr (addr, handler :: cni_world handler)"
    and h: "handler = (\<lambda>req w. (\<lparr>rs_status = 200, rs_body = json_text (enc_NetworkInfo c1_info)\<rparr>, w))"
    by (simp add: buildHealthCheckServer_def json_Marshal_def)
  show ?thesis
    using plugin_reads_daemon_info [OF b, of c1_env c1_world] c1_served h by (simp add: plugin_env_def c1_conf_def ret_def)
qed

section \<open>Adding the container\<close>

lemma c1_network: "cni_getNetworkInfo c1_env c1_conf w = (Inr c1_info, w)"
  by (simp add: cni_getNetworkInfo_def Discover_def netinfo_Daemon_Get_def json_Do_def json_client_New_def plugin_env_def c1_conf_def
      unmarshal_NetworkInfo c1_served check_NetConf_def min_i_def validator_Validate_def try_do_def ret_def)

definition c1_result :: cni_Result where
  "c1_result = \<lparr>re_Interfaces = [],
     re_IPs = [\<lparr>ic_Interface = None, ic_Address = \<lparr>IPNet_IP = c1_ip, IPNet_Mask = CIDRMask 24 32\<rparr>, ic_Gateway = []\<rparr>],
     re_Routes = [], re_DNS = \<lparr>dns_Nameservers = [], dns_Domain = [], dns_Search = [], dns_Options = []\<rparr>\<rparr>"

text \<open>The steps on the devices do not use the input and the answer of the daemon.\<close>

definition c1_quick :: "cni_world cni_env" where
  "c1_quick = plugin_env c1_names [] c1_ip"

definition c1_connects :: bool where
  "c1_connects =
     (case cni_Create (pl_ConfigCreator (silk_CNIPlugin c1_quick c1_host)) c1_host c1_call c1_result 1450 c1_world of
        (Inl _, _) \<Rightarrow> False
      | (Inr cfg, w) \<Rightarrow>
          (case connect_container c1_quick (silk_CNIPlugin c1_quick c1_host) c1_call c1_conf cfg w of
             (Some (Inr _), _) \<Rightarrow> True
           | _ \<Rightarrow> False))"

lemma c1_connects: c1_connects
  by code_simp

lemma c1_add: "\<exists>w'. cmdAdd c1_env c1_plugin c1_args c1_world = (Some (Inr ()), w')"
proof -
  have p: "c1_plugin = silk_CNIPlugin c1_quick c1_host"
    by (simp add: silk_CNIPlugin_def plugin_env_def c1_quick_def silk_linkOperations_def silk_common_def)
  have c: "connect_container c1_env p c1_args c1_conf cfg = connect_container c1_quick p c1_call c1_conf cfg" for p cfg
    by (simp add: connect_container_def plugin_env_def c1_quick_def c1_args_def)
  have r: "cni_Create cc ns c1_args res mtu = cni_Create cc ns c1_call res mtu" for cc ns res mtu
  proof -
    have "ca_IfName c1_args = ca_IfName c1_call" "ca_Netns c1_args = ca_Netns c1_call" by (simp_all add: c1_args_def)
    then show ?thesis by (simp only: cni_Create_def)
  qed
  have "case GenerateConfig (ni_OverlaySubnet c1_info) (nc_Name c1_conf) (nc_DataDir c1_conf) of Inl _ \<Rightarrow> False | Inr _ \<Rightarrow> True"
    by code_simp
  then obtain g where g: "GenerateConfig (ni_OverlaySubnet c1_info) (nc_Name c1_conf) (nc_DataDir c1_conf) = Inr g" by (auto split: sum.splits)
  have a: "ne_DelegateAdd c1_env pl conf w = (Inr \<lparr>GetAsCurrent = Inr c1_result\<rparr>, w)" for pl conf w
    by (simp add: plugin_env_def c1_result_def ret_def)
  have h: "pl_HostNS (silk_CNIPlugin c1_quick c1_host) = c1_host" "ni_MTU c1_info = 1450" by (simp_all add: silk_CNIPlugin_def c1_info_def)
  let ?create = "cni_Create (pl_ConfigCreator (silk_CNIPlugin c1_quick c1_host)) c1_host c1_call c1_result 1450 c1_world"
  let ?connect = "connect_container c1_quick (silk_CNIPlugin c1_quick c1_host) c1_call c1_conf"
  obtain rc w where 1: "?create = (rc, w)" by (cases ?create)
  with c1_connects obtain cfg where cfg: "rc = Inr cfg" by (cases rc) (simp_all add: c1_connects_def)
  obtain rk w' where 2: "?connect cfg w = (rk, w')" by (cases "?connect cfg w")
  with 1 cfg c1_connects have "rk = Some (Inr ())" by (auto simp: c1_connects_def split: option.split_asm sum.split_asm)
  with 2 have w: "?connect cfg w = (Some (Inr ()), w')" by simp
  have "cmdAdd c1_env c1_plugin c1_args c1_world = ?connect cfg w"
    using 1 cfg by (simp add: cmdAdd_def then_do_def total_def c1_stdin c1_network g a r h c p del: json_text.simps)
  with w show ?thesis by simp
qed

theorem cni_add_connects_container_witness:
  "\<exists>w' ip name host ctr. cmdAdd c1_env c1_plugin c1_args c1_world = (Some (Inr ()), w') \<and>
    DeviceName_GenerateForHost ip = Inr name \<and> da_IP host = link_local \<and> da_IP ctr = ip \<and>
    end_ok (host_view w') 3 name host ctr \<and> end_ok (host_view w') 7 ''eth0'' ctr host \<and>
    contents (host_files w' ''store'') = Some [''c1'' \<mapsto> \<lparr>Handle = ''c1'', Container_IP = IP_String ip, Metadata = JNull\<rparr>]"
proof -
  from c1_add obtain w' where w': "cmdAdd c1_env c1_plugin c1_args c1_world = (Some (Inr ()), w')" ..
  have n: "\<forall>v v' n. n_GetNS (ne_namespaces c1_env) (ca_Netns c1_args) v = (Inr n, v') \<longrightarrow> ns_Fd n = 7"
    by (auto simp: plugin_env_def host_namespaces_def c1_names_def c1_args_def c1_call_def host_ns_def)
  have h: "is_host_ns c1_host" "ns_Fd c1_host = 3" by (auto simp: is_host_ns_def c1_host_def) (simp add: host_ns_def)
  have b: "filepath_Base (ca_Netns c1_args) = ''c1''" "nc_Datastore c1_conf = ''store''" "ca_IfName c1_args = ''eth0''"
    by (simp_all add: c1_args_def c1_call_def c1_conf_def) code_simp
  have "(3 :: int) \<noteq> 7" by simp
  from cni_add_connects_container [OF plugin.cni_services_axioms w' host_ok_c1 h(1) n h(2) this c1_stdin c1_store] b w'
  show ?thesis by simp blast
qed

section \<open>Deleting the container\<close>

definition c1_entry :: Container where
  "c1_entry = \<lparr>Handle = ''c1'', Container_IP = ''10.255.30.5'', Metadata = JNull\<rparr>"

definition c1_link :: Link where
  "c1_link = \<lparr>lk_Index = 4, lk_Name = ''eth0'', lk_HardwareAddr = [0xee, 0xee, 10, 255, 30, 5], lk_MTU = 1450, lk_Up = True, lk_kind = Device\<rparr>"

definition c1_busy :: cni_world where
  "c1_busy = \<lparr>cw_net = \<lparr>nw_cur = 3, nw_stacks = (\<lambda>_. empty_stack)(7 := empty_stack\<lparr>ks_links := [c1_link]\<rparr>), nw_next = 5, nw_pairs = [],
       nw_broken = []\<rparr>,
     cw_fs = \<lparr>fs_text = \<lambda>_. json_text (enc_pool [(''c1'', c1_entry)]) @ [CHR 0x0A], fs_pos = \<lambda>_. 0, fs_full = False\<rparr>, cw_printed = []\<rparr>"

lemma host_ok_busy: "host_ok c1_busy"
  by (simp add: c1_busy_def net_ok_def stack_ok_def empty_stack_def c1_link_def)

lemma c1_entry_tidy: "tidy [''c1'' \<mapsto> c1_entry]"
  by (simp add: tidy_def ran_def c1_entry_def tidy_metadata_def)

lemma busy_store: "contents (host_files c1_busy path) = Some [''c1'' \<mapsto> c1_entry]"
  using contents_text [of "[(''c1'', c1_entry)]"] c1_entry_tidy by (simp add: c1_busy_def del: json_text.simps)

lemma c1_teardown: "case Container_Teardown (pl_Container (silk_CNIPlugin c1_quick c1_host)) (host_ns 7 ''/var/run/netns/c1'') ''eth0'' c1_busy of
    (Some (Inr _), _) \<Rightarrow> True | _ \<Rightarrow> False"
  by code_simp

lemma host_lookup:
  "\<forall>v e v'. host_ok v \<longrightarrow> k_LinkByName host_kernel name v = (Inl e, v') \<longrightarrow> (\<forall>i d. here (host_view v) i = Some d \<longrightarrow> dv_name d \<noteq> name)"
proof (intro allI impI notI)
  fix v e v' i d
  assume ok: "host_ok v" and f: "k_LinkByName host_kernel name v = (Inl e, v')" and d: "here (host_view v) i = Some d" "dv_name d = name"
  then obtain x where x: "x \<in> set (ks_links (stack (cw_net v)))" "lk_Name x = name"
    by (auto simp: dev_of_def elim: devs_Some)
  have "find (\<lambda>x. lk_Name x = name) (ks_links (stack (cw_net v))) = None"
    using f ok by (auto simp: host_kernel_def ref_kernel_def on_net_cases works_def net_ok_def find_link_def split: option.splits)
  with x show False by (auto simp: find_None_iff)
qed

lemma host_store_delete:
  "\<forall>v r v'. contents (host_files v path) = Some m \<longrightarrow> Store_Delete (silk_Store host_locker) path (c # h) v = (r, v') \<longrightarrow> (\<exists>c. r = Inr c)"
proof (intro allI impI)
  fix v r v'
  assume c: "contents (host_files v path) = Some m" and s: "Store_Delete (silk_Store host_locker) path (c # h) v = (r, v')"
  from c have "Decode dec_pool (host_files v path) = None \<or> (\<exists>pool. Decode dec_pool (host_files v path) = Some (Inr pool))"
    by (auto simp: contents_def split: option.splits sum.splits)
  with s show "\<exists>c. r = Inr c"
    by (auto simp: Store_Delete_def silk_Store_def DecodeAll_def EncodeAndOverwrite_def deferring_def host_locker_def host_file_def
        on_fs_def mem_file_def try_do_def Let_def simp del: json_text.simps)
qed

lemma c1_del: "\<exists>w'. cmdDel c1_env c1_plugin c1_args c1_busy = (Some (Inr ()), w')"
proof -
  let ?plugin = "silk_CNIPlugin c1_quick c1_host"
  have p: "c1_plugin = ?plugin"
    by (simp add: silk_CNIPlugin_def plugin_env_def c1_quick_def silk_linkOperations_def silk_common_def)
  have n: "n_GetNS (ne_namespaces c1_env) (ca_Netns c1_args) w = (Inr (host_ns 7 ''/var/run/netns/c1''), w)" "ne_DelegateDel c1_env d conf w = (Inr (), w)" for w d conf
    by (simp_all add: plugin_env_def host_namespaces_def c1_names_def c1_args_def c1_call_def ret_def)
  let ?t = "Container_Teardown (pl_Container ?plugin) (host_ns 7 ''/var/run/netns/c1'') (ca_IfName c1_args)"
  have i: "ca_IfName c1_args = ''eth0''" by (simp add: c1_args_def c1_call_def)
  obtain rt w where t: "?t c1_busy = (rt, w)" by (cases "?t c1_busy")
  with c1_teardown i have "rt = Some (Inr ())" by (auto split: option.split_asm sum.split_asm)
  with t show ?thesis by (simp add: cmdDel_def then_do_def total_def c1_stdin n p Let_def del: json_text.simps)
qed

theorem cni_del_cleans_up_witness:
  "\<exists>w'. cmdDel c1_env c1_plugin c1_args c1_busy = (Some (Inr ()), w') \<and>
    (\<forall>i d. v_dev (host_view w') 7 i = Some d \<longrightarrow> dv_name d \<noteq> ''eth0'') \<and> contents (host_files w' ''store'') = Some Map.empty"
proof -
  from c1_del obtain w' where w': "cmdDel c1_env c1_plugin c1_args c1_busy = (Some (Inr ()), w')" ..
  have n: "\<forall>v r v'. n_GetNS (ne_namespaces c1_env) (ca_Netns c1_args) v = (r, v') \<longrightarrow> (\<exists>n. r = Inr n \<and> ns_Fd n = 7)"
    by (auto simp: plugin_env_def host_namespaces_def c1_names_def c1_args_def c1_call_def host_ns_def)
  have k: "ne_kernel c1_env = host_kernel" "ne_NewLocker c1_env = host_locker" by (simp_all add: plugin_env_def)
  have b: "filepath_Base (ca_Netns c1_args) = ''c1''" "nc_Datastore c1_conf = ''store''" "ca_IfName c1_args = ''eth0''"
    by (simp_all add: c1_args_def c1_call_def c1_conf_def) code_simp
  show ?thesis
    using cni_del_cleans_up [OF plugin.cni_services_axioms w' host_ok_busy n c1_stdin busy_store c1_entry_tidy,
        unfolded k b, OF host_lookup host_store_delete] w' by simp
qed

theorem cni_del_without_namespace_keeps_entry_witness:
  "\<exists>w'. cmdDel (plugin_env [] [] c1_ip) (silk_CNIPlugin (plugin_env [] [] c1_ip) c1_host) c1_args c1_busy = (Some (Inr ()), w') \<and>
    contents (host_files w' ''store'') = Some [''c1'' \<mapsto> c1_entry]"
proof -
  have n: "\<forall>v r v'. n_GetNS (ne_namespaces (plugin_env [] [] c1_ip)) (ca_Netns c1_args) v = (r, v') \<longrightarrow> (\<exists>e. r = Inl e)"
    by (auto simp: plugin_env_def host_namespaces_def)
  have b: "filepath_Base (ca_Netns c1_args) = ''c1''" "nc_Datastore c1_conf = ''store''"
    by (simp_all add: c1_args_def c1_call_def c1_conf_def) code_simp
  then have d: "filepath_Base (ca_Netns c1_args) \<in> dom [''c1'' \<mapsto> c1_entry]" by simp
  show ?thesis
    using cni_del_without_namespace_keeps_entry [OF plugin.cni_services_axioms n c1_stdin host_ok_busy busy_store d,
        of "silk_CNIPlugin (plugin_env [] [] c1_ip) c1_host"] b(2) by auto
qed

end
