(* ===== verification/Test_Support.thy ===== *)
theory Test_Support
  imports Controller_Main Cni_Netinfo
begin

text \<open>
  The servers and helpers that the integration tests run the program against: the fake controller of \<^verbatim>\<open>testsupport\<close>, the fake daemon of
  \<^verbatim>\<open>cni/integration/fake_daemon\<close> and the configuration and client of \<^verbatim>\<open>controller/integration/helpers\<close>.  Starting and stopping
  processes, the TLS material and the assertions of the test framework are not modelled.
\<close>

section \<open>Definitions\<close>

subsection \<open>Writing a response\<close>

text \<open>
  \<^verbatim>\<open>WriteHeader\<close> and then \<^verbatim>\<open>Write\<close>: a status that is not of three digits panics (\<open>None\<close>), an informational one other than 101 is
  followed by 200, and the statuses 101, 204 and 304 have no body.
\<close>

definition respond :: "int \<Rightarrow> string \<Rightarrow> http_response option" where
  "respond code bytes =
     (if code < 100 \<or> 999 < code then None
      else if code < 200 \<and> code \<noteq> 101 then Some \<lparr>rs_status = 200, rs_body = bytes\<rparr>
      else Some \<lparr>rs_status = code, rs_body = (if code \<in> {101, 204, 304} then [] else bytes)\<rparr>)"

subsection \<open>testsupport/fakecontroller.go\<close>

text \<open>\<open>fh_ResponseBody\<close> is what \<^verbatim>\<open>json.Marshal\<close> makes of the response body.\<close>

record FakeHandler =
  fh_LastRequestBody :: string
  fh_ResponseCode :: int
  fh_ResponseBody :: "json result"

text \<open>
  Handlers are shared with the test through pointers: a route has the address of a handler in \<open>fc_store\<close>.  A handler function
  may panic.
\<close>

record FakeController =
  fc_handlers :: "string \<rightharpoonup> nat"
  fc_handlerFuncs :: "string \<rightharpoonup> (http_request \<Rightarrow> http_response option)"
  fc_store :: "nat \<Rightarrow> FakeHandler"

definition FakeController_ServeHTTP :: "http_request \<Rightarrow> FakeController \<Rightarrow> http_response option \<times> FakeController" where
  "FakeController_ServeHTTP r f =
     (case fc_handlerFuncs f (rq_path r) of
        Some fakeHandlerFunc \<Rightarrow> (fakeHandlerFunc r, f)
      | None \<Rightarrow>
          (case fc_handlers f (rq_path r) of
             None \<Rightarrow> (respond 418 [CHR 0x7B, CHR 0x7D], f)
           | Some p \<Rightarrow>
               (case rq_body r of
                  Inl err \<Rightarrow> (respond 500 [], f)
                | Inr bodyBytes \<Rightarrow>
                    (let h = (fc_store f p)\<lparr>fh_LastRequestBody := bodyBytes\<rparr>;
                         responseBytes = (case fh_ResponseBody h of Inl _ \<Rightarrow> [] | Inr j \<Rightarrow> json_text j)
                     in (respond (fh_ResponseCode h) responseBytes, f\<lparr>fc_store := (fc_store f)(p := h)\<rparr>)))))"

definition SetHandler :: "string \<Rightarrow> nat \<Rightarrow> FakeController \<Rightarrow> FakeController" where
  "SetHandler route handler f = f\<lparr>fc_handlers := (fc_handlers f)(route \<mapsto> handler)\<rparr>"

definition SetHandlerFunc :: "string \<Rightarrow> (http_request \<Rightarrow> http_response option) \<Rightarrow> FakeController \<Rightarrow> FakeController" where
  "SetHandlerFunc route handlerFunc f = f\<lparr>fc_handlerFuncs := (fc_handlerFuncs f)(route \<mapsto> handlerFunc)\<rparr>"

text \<open>The handlers of a server that has just been started.\<close>

definition fake_StartServer :: "(nat \<Rightarrow> FakeHandler) \<Rightarrow> FakeController" where
  "fake_StartServer store = \<lparr>fc_handlers = Map.empty, fc_handlerFuncs = Map.empty, fc_store = store\<rparr>"

subsection \<open>cni/integration/fake\_daemon\<close>

text \<open>\<open>Invoke\<close> serves until it is told to stop; the result is the exit status.\<close>

definition fake_daemon_main ::
  "(string \<Rightarrow> (http_request \<Rightarrow> http_response option) \<Rightarrow> ('w, unit) op) \<Rightarrow> string list \<Rightarrow> 'w \<Rightarrow> nat \<times> 'w" where
  "fake_daemon_main Invoke args w =
     (case args of
        [_, port, statusCode, response] \<Rightarrow>
          (case Atoi statusCode of
             Inl err \<Rightarrow> (1, w)
           | Inr code \<Rightarrow>
               (case Invoke (''127.0.0.1:'' @ port) (\<lambda>r. respond code response) w of
                  (Inl err, w) \<Rightarrow> (1, w)
                | (Inr _, w) \<Rightarrow> (0, w)))
      | _ \<Rightarrow> (1, w))"

subsection \<open>controller/integration/helpers\<close>

text \<open>The three ports are those that \<^verbatim>\<open>ports.PickAPort\<close> gives, in the order of the calls.\<close>

definition DefaultTestConfig :: "int \<Rightarrow> int \<Rightarrow> int \<Rightarrow> db_Config \<Rightarrow> string \<Rightarrow> controller_Config" where
  "DefaultTestConfig port1 port2 port3 dbConf fixturesPath =
     \<lparr>DebugServerPort = port2, ListenHost = ''127.0.0.1'', ListenPort = port1,
      CACertFile = filepath_Join [fixturesPath, ''ca.crt''], ServerCertFile = filepath_Join [fixturesPath, ''server.crt''],
      ServerKeyFile = filepath_Join [fixturesPath, ''server.key''], Network = ''10.255.0.0/16'', SubnetPrefixLength = 24,
      Database = dbConf, LeaseExpirationSeconds = 60, MetronPort = 5432, HealthCheckPort = port3, MetricsEmitSeconds = 1,
      StalenessThresholdSeconds = 5, LogPrefix = ''potato-prefix'', MaxIdleConnections = 0, MaxOpenConnections = 0,
      MaxConnectionsLifetimeSeconds = 0\<rparr>"

definition TestClient ::
  "(string \<Rightarrow> string \<Rightarrow> string \<Rightarrow> 'w \<Rightarrow> (int \<times> string result) result \<times> 'w) \<Rightarrow> (string \<Rightarrow> string \<Rightarrow> go_error option) \<Rightarrow> controller_Config \<Rightarrow> 'w Client" where
  "TestClient httpClient newRequest conf =
     NewClient httpClient newRequest (''https://'' @ ListenHost conf @ '':'' @ sprintf_d (ListenPort conf))"

section \<open>What the fakes answer\<close>

text \<open>A handler that was set answers its route, also after others were set for other routes, and remembers the request.\<close>

lemma fake_controller_serves:
  assumes "fc_handlers f route = Some p" "fc_handlerFuncs f route = None" "fh_ResponseBody (fc_store f p) = Inr j"
    and "200 \<le> fh_ResponseCode (fc_store f p)" "fh_ResponseCode (fc_store f p) < 1000" "fh_ResponseCode (fc_store f p) \<notin> {204, 304}"
    and "rq_path r = route" "rq_body r = Inr b"
  shows "\<exists>f'. FakeController_ServeHTTP r f = (Some \<lparr>rs_status = fh_ResponseCode (fc_store f p), rs_body = json_text j\<rparr>, f') \<and>
    fh_LastRequestBody (fc_store f' p) = b \<and> fc_handlers f' = fc_handlers f"
  using assms by (simp add: FakeController_ServeHTTP_def respond_def Let_def)

lemma SetHandler_handlers [simp]:
  "fc_handlers (SetHandler route p f) route' = (if route' = route then Some p else fc_handlers f route')"
  "fc_handlerFuncs (SetHandler route p f) = fc_handlerFuncs f" "fc_store (SetHandler route p f) = fc_store f"
  by (simp_all add: SetHandler_def)

lemma SetHandlerFunc_serves:
  "rq_path r = route \<Longrightarrow> FakeController_ServeHTTP r (SetHandlerFunc route h f) = (h r, SetHandlerFunc route h f)"
  by (simp add: FakeController_ServeHTTP_def SetHandlerFunc_def)

text \<open>A client of the fake controller gets the leases that the test put into the handler.\<close>

lemma fake_controller_lists_leases:
  assumes "fc_store f p = \<lparr>fh_LastRequestBody = b, fh_ResponseCode = 200, fh_ResponseBody = Inr (enc_Leases ls)\<rparr>"
    and "f = SetHandler ''/leases'' p (fake_StartServer store)"
    and "\<And>method url body w. http method url body w =
      (case FakeController_ServeHTTP \<lparr>rq_method = method, rq_path = drop (length base) url, rq_body = Inr body\<rparr> w of
         (None, w) \<Rightarrow> (Inl (ErrorString ''EOF''), w) | (Some resp, w) \<Rightarrow> (Inr (rs_status resp, Inr (rs_body resp)), w))"
  shows "fst (GetActiveLeases (NewClient http (\<lambda>_ _. None) base) f) = Inr ls"
proof -
  have "FakeController_ServeHTTP \<lparr>rq_method = ''GET'', rq_path = ''/leases'', rq_body = Inr []\<rparr> f =
      (Some \<lparr>rs_status = 200, rs_body = json_text (enc_Leases ls)\<rparr>, f\<lparr>fc_store := (fc_store f)(p := (fc_store f p)\<lparr>fh_LastRequestBody := []\<rparr>)\<rparr>)"
    using assms(1) unfolding assms(2) by (simp add: FakeController_ServeHTTP_def respond_def fake_StartServer_def del: json_text.simps)
  then show ?thesis
    by (simp add: GetActiveLeases_def NewClient_def json_client_New_def json_Do_def assms(3) unmarshal_messages del: json_text.simps)
qed

text \<open>A test configuration passes the checks of the program when its database settings and ports do, for every path of the fixtures.\<close>

lemma clean_elements: "[] \<notin> set acc \<Longrightarrow> [] \<notin> set (fold (clean_step rooted) es acc)"
proof (induction es arbitrary: acc)
  case (Cons e es)
  have "[] \<notin> set (clean_step rooted e acc)" using Cons.prems by (cases acc) (auto simp: clean_step_def)
  then show ?case using Cons.IH by simp
qed simp

lemma join_not_Nil: "[] \<notin> set es \<Longrightarrow> es \<noteq> [] \<Longrightarrow> join sep es \<noteq> []"
  by (cases es rule: list.exhaust; cases "tl es") auto

lemma filepath_Clean_not_Nil: "filepath_Clean s \<noteq> []"
  using clean_elements [of "[]" False "split_path [] s"] join_not_Nil [of "rev (fold (clean_step False) (split_path [] s) [])" "''/''"]
  by (auto simp: filepath_Clean_def Let_def)

lemma DefaultTestConfig_valid:
  assumes "check_db_Config dbConf = []" "0 < port1" "0 < port2" "0 < port3"
  shows "check_controller_Config (DefaultTestConfig port1 port2 port3 dbConf fixturesPath) = []"
proof -
  have "filepath_Join [fixturesPath, c # t] \<noteq> []" for c t by (simp add: filepath_Clean_not_Nil)
  with assms show ?thesis
    by (simp add: check_controller_Config_def DefaultTestConfig_def min_i_def nonzero_s_def nonzero_i_def)
qed

end
