(* ===== verification/Cni_Errors.thy ===== *)
theory Cni_Errors
  imports Cni_Scenario Test_Support
begin

text \<open>
  What \<^verbatim>\<open>ADD\<close> reports when it fails, and that a failure before the devices are set up changes nothing on the host.
\<close>

section \<open>The steps before the devices\<close>

text \<open>The messages of the steps, those before the devices first.\<close>

definition early_messages :: "string list" where
  "early_messages = [''discover network info'', ''generate ipam config'', ''run ipam plugin'', ''create config'']"

definition late_messages :: "string list" where
  "late_messages = [''create veth pair'', ''set up host'', ''set up container'', ''write container metadata'']"

lemma then_do_Inl:
  "then_do m f k w = (Some (Inl e), w') \<longleftrightarrow>
     (\<exists>e0. m w = (Some (Inl e0), w') \<and> e = f e0) \<or> (\<exists>x w1. m w = (Some (Inr x), w1) \<and> k x w1 = (Some (Inl e), w'))"
  by (auto simp: then_do_def split: prod.splits option.splits sum.splits)

lemma total_Some: "total m w = (Some r, w') \<longleftrightarrow> m w = (r, w')"
  by (auto simp: total_def split: prod.splits)

lemma early_messages_simps:
  "''discover network info'' \<in> set early_messages" "''generate ipam config'' \<in> set early_messages"
  "''run ipam plugin'' \<in> set early_messages" "''create config'' \<in> set early_messages"
  by (simp_all add: early_messages_def)

context cni_services
begin

lemma json_Do_quiet:
  assumes "json_Do (json_client_New (ne_httpClient env) nr url) ''GET'' route None dec w = (r, w')" "ok w"
  shows "becomes view files ok w w' (view w)"
proof (cases "nr ''GET'' (url @ route)")
  case None
  obtain rh w1 where h: "ne_httpClient env ''GET'' (url @ route) [] w = (rh, w1)" by (cases "ne_httpClient env ''GET'' (url @ route) [] w")
  with assms(1) None have "w1 = w'"
    by (auto simp: json_Do_def json_client_New_def Let_def split: prod.splits sum.splits if_splits)
  with http_quiet [OF assms(2) h] show ?thesis by simp
next
  case (Some e)
  with assms show ?thesis by (simp add: json_Do_def json_client_New_def Let_def becomes_def)
qed

lemma discovery_quiet:
  assumes "cni_getNetworkInfo env conf w = (r, w')" "ok w"
  shows "becomes view files ok w w' (view w)"
proof (cases "validator_Validate (check_NetConf conf)")
  case (Some e)
  with assms show ?thesis by (simp add: cni_getNetworkInfo_def try_do_def becomes_def)
next
  case valid: None
  show ?thesis
  proof (cases "nc_SubnetFile conf = []")
    case True
    let ?url = "''http://127.0.0.1:'' @ sprintf_d (nc_DaemonPort conf)"
    obtain rj w1 where j: "json_Do (json_client_New (ne_httpClient env) (ne_newRequest env) ?url) ''GET'' ''/'' None
        (json_Unmarshal dec_NetworkInfo) w = (rj, w1)"
      by (cases "json_Do (json_client_New (ne_httpClient env) (ne_newRequest env) ?url) ''GET'' ''/'' None (json_Unmarshal dec_NetworkInfo) w")
    with assms(1) True valid have "w1 = w'"
      by (cases rj) (simp_all add: cni_getNetworkInfo_def Discover_def netinfo_Daemon_Get_def try_do_def ret_def)
    with json_Do_quiet [OF j assms(2)] show ?thesis by simp
  next
    case False
    obtain rf w1 where f: "ReadFile (ne_io env) (nc_SubnetFile conf) w = (rf, w1)" by (cases "ReadFile (ne_io env) (nc_SubnetFile conf) w")
    with assms(1) False valid have "w1 = w'"
      by (auto simp: cni_getNetworkInfo_def Discover_def Flannel_Get_def try_do_cases Let_def split: sum.split_asm if_split_asm)
    with file_quiet [OF assms(2) f] show ?thesis by simp
  qed
qed

lemma create_quiet:
  assumes "cni_Create (pl_ConfigCreator (silk_CNIPlugin env hostNS)) ns args res mtu w = (Inl e, w')" "ok w"
  shows "becomes view files ok w w' (view w)"
proof -
  obtain rn w1 where n: "n_GetNS (ne_namespaces env) (ca_Netns args) w = (rn, w1)" by (cases "n_GetNS (ne_namespaces env) (ca_Netns args) w")
  with assms(1) have "w' = w \<or> w' = w1"
    by (cases "re_IPs res") (auto simp: cni_Create_def silk_CNIPlugin_def GetNS_def try_do_cases Let_def split: if_split_asm)
  with get_ns [OF assms(2) n] assms(2) show ?thesis by (auto simp: becomes_def)
qed

text \<open>How far an \<^verbatim>\<open>ADD\<close> got that failed.\<close>

text \<open>How far an \<^verbatim>\<open>ADD\<close> got that failed.\<close>

lemma add_failure:
  assumes "cmdAdd env (silk_CNIPlugin env hostNS) args w = (Some (Inl err), w')" "ok w"
    and "json_Unmarshal dec_NetConf (ca_StdinData args) = Inr conf"
  obtains (early) msg e where "err = typedError msg e" "msg \<in> set early_messages" "becomes view files ok w w' (view w)"
  | (conversion) e where "err = Plain (errorf ''convert result to current CNI version: '' e)" "becomes view files ok w w' (view w)"
  | (late) cfg v where "connect_container env (silk_CNIPlugin env hostNS) args conf cfg v = (Some (Inl err), w')"
proof -
  let ?cfg = "\<lambda>info. GenerateConfig (ni_OverlaySubnet info) (nc_Name conf) (nc_DataDir conf)"
  let ?run = "\<lambda>c. ne_DelegateAdd env ''host-local'' (json_text (enc_HostLocalIPAM c))"
  let ?create = "\<lambda>info r. cni_Create (pl_ConfigCreator (silk_CNIPlugin env hostNS)) (pl_HostNS (silk_CNIPlugin env hostNS)) args r (ni_MTU info)"
  from assms(1,3) consider
      (a) e where "cni_getNetworkInfo env conf w = (Inl e, w')" "err = typedError ''discover network info'' e"
    | (b) info e where "cni_getNetworkInfo env conf w = (Inr info, w')" "err = typedError ''generate ipam config'' e"
    | (c) info w1 c e where "cni_getNetworkInfo env conf w = (Inr info, w1)" "?run c w1 = (Inl e, w')" "err = typedError ''run ipam plugin'' e"
    | (d) info w1 c r e where "cni_getNetworkInfo env conf w = (Inr info, w1)" "?run c w1 = (Inr r, w')"
        "err = Plain (errorf ''convert result to current CNI version: '' e)"
    | (f) info w1 c r w2 r' e where "cni_getNetworkInfo env conf w = (Inr info, w1)" "?run c w1 = (Inr r, w2)"
        "?create info r' w2 = (Inl e, w')" "err = typedError ''create config'' e"
    | (g) cfg v where "connect_container env (silk_CNIPlugin env hostNS) args conf cfg v = (Some (Inl err), w')"
    unfolding cmdAdd_def then_do_Inl total_Some by auto
  then show thesis
  proof cases
    case a
    from a(2) early_messages_simps(1) discovery_quiet [OF a(1) assms(2)] show thesis by (rule early)
  next
    case b
    from b(2) early_messages_simps(2) discovery_quiet [OF b(1) assms(2)] show thesis by (rule early)
  next
    case c
    from discovery_quiet [OF c(1) assms(2)] have 1: "view w1 = view w" "files w1 = files w" "ok w1" by (simp_all add: becomes_def)
    with delegate_quiet [OF 1(3) c(2)] show thesis by (intro early [OF c(3) early_messages_simps(3)]) (simp add: becomes_def)
  next
    case d
    from discovery_quiet [OF d(1) assms(2)] have 1: "view w1 = view w" "files w1 = files w" "ok w1" by (simp_all add: becomes_def)
    with delegate_quiet [OF 1(3) d(2)] show thesis by (intro conversion [OF d(3)]) (simp add: becomes_def)
  next
    case f
    from discovery_quiet [OF f(1) assms(2)] have 1: "view w1 = view w" "files w1 = files w" "ok w1" by (simp_all add: becomes_def)
    with delegate_quiet [OF 1(3) f(2)] have 2: "view w2 = view w" "files w2 = files w" "ok w2" by (simp_all add: becomes_def)
    with create_quiet [OF f(3)] show thesis by (intro early [OF f(4) early_messages_simps(4)]) (simp add: becomes_def)
  next
    case g
    then show thesis by (rule late)
  qed
qed

end

lemma connect_failure:
  assumes "connect_container env p args conf cfg w = (Some (Inl err), w')"
  obtains (step) msg e where "err = typedError msg e" "msg \<in> set late_messages"
  | (print) e v where "err = Plain e" "ne_PrintResult env (AsCNIResult cfg) (nc_CNIVersion conf) v = (Inl e, w')"
  using assms that unfolding connect_container_def then_do_Inl total_Some late_messages_def by auto

section \<open>A failed ADD\<close>



end
