(* ===== verification/Daemon_System.thy ===== *)
theory Daemon_System
  imports Daemon
begin

text \<open>
  The properties of the daemon: when the poller stops, that a subnet with containers is never given up, and
  that a restart finds the lease again from the device.
\<close>

section \<open>A cycle of the planner\<close>

abbreviation renew_of where
  "renew_of v w \<equiv> cc_RenewSubnetLease (vp_ControllerClient v) (vp_Lease v) w"

abbreviation failed_renew where
  "failed_renew v w \<equiv> IncrementCounter (vp_MetricSender v) ''renewFailure'' w"

lemma DoCycle_renew_failed:
  "renew_of v w = (Some err, w1) \<Longrightarrow>
     DoCycle v (fed, w) =
       (Some (if IsFatal (vp_now v (failed_renew v w1)) fed err then FatalError (''renew lease: '' @ Error err)
              else errorf ''renew lease: '' err), fed, failed_renew v w1)"
  by (simp add: DoCycle_def Let_def)

lemma DoCycle_renewed:
  assumes "renew_of v w = (None, w1)"
  shows "fst (snd (DoCycle v (fed, w))) = GotSuccess (vp_now v w1) fed"
    "\<forall>e. fst (DoCycle v (fed, w)) = Some e \<longrightarrow> \<not> isFatalError e"
  using assms by (auto simp: DoCycle_def Let_def errorf_def split: prod.split sum.split)

lemma DoCycle_fatal:
  assumes "DoCycle v (fed, w) = (Some e, s')" "isFatalError e"
  obtains err w1 where "renew_of v w = (Some err, w1)" "IsFatal (vp_now v (failed_renew v w1)) fed err"
    "e = FatalError (''renew lease: '' @ Error err)" "s' = (fed, failed_renew v w1)"
proof (cases "renew_of v w")
  case (Pair r w1)
  show thesis
  proof (cases r)
    case None
    then show thesis using DoCycle_renewed(2) [of v w w1 fed] Pair assms by auto
  next
    case (Some err)
    with Pair assms that show thesis by (auto simp: DoCycle_renew_failed errorf_def split: if_splits)
  qed
qed

lemma DoCycle_grace: "DoCycle v (fed, w) = (r, fed', w') \<Longrightarrow> graceDuration fed' = graceDuration fed"
  by (cases "renew_of v w"; cases "fst (renew_of v w)")
     (auto simp: DoCycle_def Let_def GotSuccess_def split: prod.splits sum.splits if_splits)

section \<open>The poller\<close>

text \<open>The states in which the poller starts a cycle.\<close>

inductive polled :: "'s Poller \<Rightarrow> (int \<Rightarrow> 's \<Rightarrow> 's) \<Rightarrow> 's \<Rightarrow> 's \<Rightarrow> bool" for m wait s0 where
  first_cycle: "polled m wait s0 s0"
| next_cycle: "polled m wait s0 s \<Longrightarrow> runFunction m s = (None, s') \<Longrightarrow> polled m wait s0 (wait (PollInterval m) s')"

inductive_cases polled_cases: "polled m wait s0 s"

lemma runFunction_stops:
  "runFunction m s = (Some e, s') \<Longrightarrow> \<exists>err. SingleCycleFunc m s = (Some err, s') \<and> isFatalError err \<and> e = errorf restart_message err"
  by (auto simp: runFunction_def split: prod.splits option.splits if_splits)

lemma poll_loop_stops:
  "poll_loop m wait evs s = (Some (Some e), s') \<Longrightarrow> polled m wait s0 (wait (PollInterval m) s) \<Longrightarrow>
     \<exists>s1. polled m wait s0 s1 \<and> runFunction m s1 = (Some e, s')"
proof (induction m wait evs s rule: poll_loop.induct)
  case (3 m wait evs s)
  let ?s = "wait (PollInterval m) s"
  show ?case
  proof (cases "runFunction m ?s")
    case (Pair r s2)
    show ?thesis
    proof (cases r)
      case None
      with Pair "3.prems" have "poll_loop m wait evs s2 = (Some (Some e), s')" by simp
      moreover have "polled m wait s0 (wait (PollInterval m) s2)" using "3.prems"(2) Pair None by (blast intro: next_cycle)
      ultimately show ?thesis using "3.IH" Pair None by simp
    next
      case (Some err)
      with Pair "3.prems" show ?thesis by auto
    qed
  qed
qed simp_all

lemma Poller_Run_stops:
  assumes "Poller_Run m wait evs s0 = (Some (Some e), s')"
  shows "\<exists>s1. polled m wait s0 s1 \<and> runFunction m s1 = (Some e, s')"
proof (cases "runFunction m s0")
  case (Pair r s2)
  show ?thesis
  proof (cases r)
    case None
    with Pair assms have "poll_loop m wait evs s2 = (Some (Some e), s')" by (simp add: Poller_Run_def)
    moreover have "polled m wait s0 (wait (PollInterval m) s2)" using Pair None by (blast intro: next_cycle first_cycle)
    ultimately show ?thesis by (rule poll_loop_stops)
  next
    case (Some err)
    with Pair assms show ?thesis by (auto simp: Poller_Run_def intro: first_cycle)
  qed
qed

lemma runFunction_DoCycle_grace:
  "runFunction \<lparr>PollInterval = i, SingleCycleFunc = DoCycle v\<rparr> (fed, w) = (r, fed', w') \<Longrightarrow> graceDuration fed' = graceDuration fed"
  using DoCycle_grace by (fastforce simp: runFunction_def split: prod.splits option.splits if_splits)

lemma polled_grace:
  assumes "polled \<lparr>PollInterval = i, SingleCycleFunc = DoCycle v\<rparr> (\<lambda>i (fed, w). (fed, pause i w)) s0 s"
  shows "graceDuration (fst s) = graceDuration (fst s0)"
  using assms
proof induction
  case (next_cycle s s')
  then show ?case using runFunction_DoCycle_grace by (metis (mono_tags, lifting) case_prod_beta fst_conv prod.collapse)
qed simp


section \<open>A lost controller stops the daemon\<close>

lemma poll_loop_gives_up:
  assumes renew: "\<And>w. \<exists>err w1. renew_of v w = (Some err, w1) \<and> vp_now v w \<le> vp_now v w1"
    and count: "\<And>w. vp_now v w \<le> vp_now v (failed_renew v w)"
    and time: "\<And>w. vp_now v w + i \<le> vp_now v (pause i w)"
  shows "graceDuration fed \<le> vp_now v w + int n * i - lastSuccessTime fed \<Longrightarrow> 0 < n \<Longrightarrow>
    \<exists>k\<le>n. \<exists>e s'. poll_loop \<lparr>PollInterval = i, SingleCycleFunc = DoCycle v\<rparr> (\<lambda>i (fed, w). (fed, pause i w))
       (replicate k After) (fed, w) = (Some (Some e), s')"
proof (induction n arbitrary: w)
  case (Suc n)
  let ?m = "\<lparr>PollInterval = i, SingleCycleFunc = DoCycle v\<rparr>"
  let ?wait = "\<lambda>i (fed :: gracefulDetector, w). (fed, pause i w)"
  obtain err w1 where r: "renew_of v (pause i w) = (Some err, w1)" "vp_now v (pause i w) \<le> vp_now v w1" using renew by blast
  let ?w2 = "failed_renew v w1"
  have t: "vp_now v w + i \<le> vp_now v ?w2" using time [of w] r(2) count [of w1] by linarith
  show ?case
  proof (cases "IsFatal (vp_now v ?w2) fed err")
    case True
    then have "poll_loop ?m ?wait (replicate 1 After) (fed, w) =
        (Some (Some (errorf restart_message (FatalError (''renew lease: '' @ Error err)))), fed, ?w2)"
      using r(1) by (simp add: runFunction_def DoCycle_renew_failed)
    then show ?thesis by (intro exI [of _ 1]) auto
  next
    case False
    then have "vp_now v ?w2 - lastSuccessTime fed < graceDuration fed" by (auto simp: IsFatal_def split: if_splits)
    with Suc.prems(1) t have n: "0 < n" by (cases n) auto
    have "graceDuration fed \<le> vp_now v ?w2 + int n * i - lastSuccessTime fed"
      using Suc.prems(1) t by (simp add: distrib_right)
    from Suc.IH [OF this n] obtain k e s' where k: "k \<le> n"
      "poll_loop ?m ?wait (replicate k After) (fed, ?w2) = (Some (Some e), s')" by blast
    have "poll_loop ?m ?wait (replicate (Suc k) After) (fed, w) = (Some (Some e), s')"
      using k(2) r(1) False by (simp add: runFunction_def DoCycle_renew_failed errorf_def)
    with k(1) show ?thesis by (intro exI [of _ "Suc k"]) auto
  qed
qed simp

text \<open>
  C15.  A host that has lost its controller is taken out of service in bounded time: when every renewal fails and
  each wait lasts at least the poll interval, the poller stops with the restart error after at most the
  grace period divided by the poll interval, plus one, further polls.
\<close>

theorem lost_controller_stops_daemon:
  assumes "\<forall>w. \<exists>err w1. renew_of v w = (Some err, w1) \<and> vp_now v w \<le> vp_now v w1"
    and "\<forall>w. vp_now v w \<le> vp_now v (failed_renew v w)" "\<forall>w. vp_now v w + i \<le> vp_now v (pause i w)"
    and "0 < i" "lastSuccessTime fed \<le> vp_now v w" "0 \<le> graceDuration fed"
  shows "\<exists>k \<le> nat (graceDuration fed div i) + 1. \<exists>e s'.
    Poller_Run \<lparr>PollInterval = i, SingleCycleFunc = DoCycle v\<rparr> (\<lambda>i (fed, w). (fed, pause i w)) (replicate k After) (fed, w)
      = (Some (Some e), s')"
proof -
  let ?m = "\<lparr>PollInterval = i, SingleCycleFunc = DoCycle v\<rparr>"
  let ?n = "nat (graceDuration fed div i) + 1"
  obtain err w1 where r: "renew_of v w = (Some err, w1)" "vp_now v w \<le> vp_now v w1" using assms(1) by blast
  let ?w2 = "failed_renew v w1"
  show ?thesis
  proof (cases "IsFatal (vp_now v ?w2) fed err")
    case True
    then have "Poller_Run ?m (\<lambda>i (fed, w). (fed, pause i w)) (replicate 0 After) (fed, w) =
        (Some (Some (errorf restart_message (FatalError (''renew lease: '' @ Error err)))), fed, ?w2)"
      using r(1) by (simp add: Poller_Run_def runFunction_def DoCycle_renew_failed)
    then show ?thesis by blast
  next
    case False
    have "graceDuration fed div i * i + graceDuration fed mod i = graceDuration fed" by (rule div_mult_mod_eq)
    moreover have "graceDuration fed mod i < i" using assms(4) by simp
    ultimately have "graceDuration fed \<le> (graceDuration fed div i + 1) * i" unfolding distrib_right by linarith
    also have "\<dots> = int ?n * i" using assms(4,6) by (simp add: pos_imp_zdiv_nonneg_iff)
    finally have g: "graceDuration fed \<le> vp_now v ?w2 + int ?n * i - lastSuccessTime fed"
      using assms(5) r(2) assms(2) [rule_format, of w1] by linarith
    have "\<exists>k\<le>?n. \<exists>e s'. poll_loop ?m (\<lambda>i (fed, w). (fed, pause i w)) (replicate k After) (fed, ?w2) = (Some (Some e), s')"
      by (rule poll_loop_gives_up [OF _ _ _ g]) (use assms in auto)
    then show ?thesis using r(1) False by (simp add: Poller_Run_def runFunction_def DoCycle_renew_failed errorf_def)
  qed
qed

text \<open>A planner whose world is the clock and whose controller does not answer, or refuses.\<close>

definition lonely :: "go_error \<Rightarrow> int VXLANPlanner" where
  "lonely err =
     \<lparr>vp_ControllerClient = \<lparr>cc_GetActiveLeases = fail err, cc_RenewSubnetLease = \<lambda>l w. (Some err, w)\<rparr>,
      vp_Converge = \<lambda>ls. ret (), vp_Lease = zero_Lease,
      vp_MetricSender = \<lparr>SendValue = \<lambda>_ _ _ w. w, IncrementCounter = \<lambda>_ w. w\<rparr>, vp_now = \<lambda>w. w\<rparr>"

theorem lost_controller_stops_daemon_witness:
  "\<exists>k \<le> 4. \<exists>e s'. Poller_Run \<lparr>PollInterval = 30, SingleCycleFunc = DoCycle (lonely (ErrorString ''timeout''))\<rparr>
     (\<lambda>i (fed, w). (fed, w + i)) (replicate k After) (NewGracefulDetector 90 1000, 1000) = (Some (Some e), s')"
  using lost_controller_stops_daemon [of "lonely (ErrorString ''timeout'')" 30 "\<lambda>i w. w + i" "NewGracefulDetector 90 1000" 1000]
  by (simp add: lonely_def NewGracefulDetector_def)


section \<open>A subnet with containers is kept\<close>

text \<open>The kernel with other requests for creating and deleting devices.\<close>

definition with_devices :: "'w daemon_env \<Rightarrow> (Link \<Rightarrow> ('w, unit) op) \<Rightarrow> (Link \<Rightarrow> ('w, unit) op) \<Rightarrow> 'w daemon_env" where
  "with_devices env add del = env\<lparr>de_kernel := (de_kernel env)\<lparr>k_LinkAdd := add, k_LinkDel := del\<rparr>\<rparr>"

definition has_containers :: "'w daemon_env \<Rightarrow> client_Config \<Rightarrow> bool" where
  "has_containers env cfg \<longleftrightarrow>
     (\<forall>w. case fst (Store_ReadAll (silk_Store (de_NewLocker env)) (cl_Datastore cfg) w) of Inl _ \<Rightarrow> True | Inr m \<Rightarrow> m \<noteq> [])"

lemma reacquire_refuses:
  assumes "has_containers env cfg"
  shows "\<exists>e w'. reacquire env cfg msg w = (Inl e, w') \<and>
    (\<forall>add del. reacquire (with_devices env add del) cfg msg w = (Inl e, w'))"
proof -
  obtain r w1 where r: "Store_ReadAll (silk_Store (de_NewLocker env)) (cl_Datastore cfg) w = (r, w1)" by (cases "Store_ReadAll (silk_Store (de_NewLocker env)) (cl_Datastore cfg) w")
  with assms have "case r of Inl _ \<Rightarrow> True | Inr m \<Rightarrow> m \<noteq> []" unfolding has_containers_def by (metis fst_conv)
  with r show ?thesis by (cases r) (auto simp: reacquire_def with_devices_def)
qed

lemma discover_with_devices: "discoverLocalLease (with_devices env add del) cfg = discoverLocalLease env cfg"
  by (simp add: discoverLocalLease_def GetVTEPState_def vtepFactory_def as_netlinkAdapter_def adapter_defs with_devices_def)

lemma client_with_devices: "daemon_client (with_devices env add del) cfg = daemon_client env cfg"
  by (simp add: daemon_client_def with_devices_def)

text \<open>
  C13.  A daemon that finds the device of an earlier run and containers in its store never gives the subnet up: it
  either goes on with the lease of the device, renewed, or refuses to start.  In neither case
  does it create or delete a device, whatever those requests would have done.
\<close>

theorem daemon_keeps_subnet_with_containers:
  assumes "discoverLocalLease env cfg w = (Inr lease, w1)" "has_containers env cfg"
  shows "(\<forall>l w'. daemon_lease env cfg net w = (Inr l, w') \<longrightarrow>
            l = lease \<and> (\<exists>w2. Client_RenewSubnetLease (daemon_client env cfg) lease w2 = (None, w'))) \<and>
         (\<forall>add del. daemon_lease (with_devices env add del) cfg net w = daemon_lease env cfg net w)"
proof (cases "ParseCIDR (OverlaySubnet lease)")
  case (Inl e)
  then show ?thesis using assms(1) by (simp add: daemon_lease_def discover_with_devices try_do_def)
next
  case (Inr p)
  obtain ip subnet where p: "p = (ip, subnet)" by (cases p)
  show ?thesis
  proof (cases "Contains net (IPNet_IP subnet)")
    case False
    obtain e w' where e: "reacquire env cfg ''discovered lease is not in overlay network and has containers: '' w1 = (Inl e, w')"
      "\<forall>add del. reacquire (with_devices env add del) cfg ''discovered lease is not in overlay network and has containers: '' w1 = (Inl e, w')"
      using reacquire_refuses [OF assms(2)] by blast
    then show ?thesis using assms(1) Inr p False by (simp add: daemon_lease_def discover_with_devices)
  next
    case True
    obtain r w2 where r: "Client_RenewSubnetLease (daemon_client env cfg) lease w1 = (r, w2)"
      by (cases "Client_RenewSubnetLease (daemon_client env cfg) lease w1")
    show ?thesis
    proof (cases r)
      case None
      with assms(1) Inr p True r show ?thesis by (auto simp: daemon_lease_def discover_with_devices client_with_devices)
    next
      case (Some err)
      obtain e w' where e: "reacquire env cfg ''renew subnet lease with containers: '' w2 = (Inl e, w')"
        "\<forall>add del. reacquire (with_devices env add del) cfg ''renew subnet lease with containers: '' w2 = (Inl e, w')"
        using reacquire_refuses [OF assms(2)] by blast
      with assms(1) Inr p True r Some show ?thesis by (simp add: daemon_lease_def discover_with_devices client_with_devices)
    qed
  qed
qed

section \<open>A restart finds the lease again\<close>

text \<open>What is relied on of links and addresses: \<open>dev w n\<close> is the hardware address and the IPv4 addresses of the device \<open>n\<close>.\<close>

locale kernel_links =
  fixes nl :: "'w netlinkAdapter"
    and dev :: "'w \<Rightarrow> string \<Rightarrow> (HardwareAddr \<times> IP list) option"
  assumes link_add: "nl_LinkAdd nl l w = (Inr u, w') \<Longrightarrow> dev w' (lk_Name l) = Some (lk_HardwareAddr l, [])"
    and link_up: "nl_LinkSetUp nl l w = (Inr u, w') \<Longrightarrow> dev w' = dev w"
    and addr_add: "nl_AddrAddScopeLink nl l a w = (Inr u, w') \<Longrightarrow> lk_Index l = 0 \<Longrightarrow> dev w (lk_Name l) = Some (hw, ips) \<Longrightarrow>
      dev w' (lk_Name l) = Some (hw, ips @ [canon_IP (IPNet_IP (ad_IPNet a))])"
    and link_by_name: "nl_LinkByName nl n w = (Inr l, w') \<Longrightarrow> \<exists>ips. dev w n = Some (lk_HardwareAddr l, ips)"
    and addr_list: "nl_LinkByName nl n w = (Inr l, w1) \<Longrightarrow> nl_AddrList nl l FAMILY_V4 w1 = (Inr as, w2) \<Longrightarrow>
      dev w n = Some (hw, ips) \<Longrightarrow> map (\<lambda>a. canon_IP (IPNet_IP (ad_IPNet a))) as = ips"
begin

lemma created:
  assumes "CreateVTEP \<lparr>fa_NetlinkAdapter = nl\<rparr> conf w = (Inr u, w')"
  shows "dev w' (vc_VTEPName conf) = Some (vc_OverlayHardwareAddr conf, [canon_IP (vc_OverlayIP conf)])"
proof -
  let ?a = "\<lparr>ad_IPNet = \<lparr>IPNet_IP = vc_OverlayIP conf, IPNet_Mask = CIDRMask (vc_OverlayNetworkPrefixLength conf) 32\<rparr>,
      ad_Peer = None, ad_Scope = 0\<rparr>"
  from assms obtain w1 w2 where s: "nl_LinkAdd nl (vxlan_link conf) w = (Inr (), w1)" "nl_LinkSetUp nl (vxlan_link conf) w1 = (Inr (), w2)"
    "nl_AddrAddScopeLink nl (vxlan_link conf) ?a w2 = (Inr (), w')"
    by (auto simp: CreateVTEP_def Let_def try_do_Inr)
  have "dev w2 (lk_Name (vxlan_link conf)) = Some (lk_HardwareAddr (vxlan_link conf), [])"
    using link_add [OF s(1)] link_up [OF s(2)] by simp
  from addr_add [OF s(3) _ this] show ?thesis by (simp add: vxlan_link_def)
qed

lemma vtep_state:
  assumes "GetVTEPState \<lparr>fa_NetlinkAdapter = nl\<rparr> n w = (Inr (hw, ip, mtu), w')" "dev w n = Some (hw0, [ip0])"
  shows "hw = hw0 \<and> canon_IP ip = ip0"
proof -
  from assms(1) obtain l w1 a as where s: "nl_LinkByName nl n w = (Inr l, w1)" "nl_AddrList nl l FAMILY_V4 w1 = (Inr (a # as), w')"
    "hw = lk_HardwareAddr l" "ip = IPNet_IP (ad_IPNet a)"
    by (auto simp: GetVTEPState_def try_do_Inr neq_Nil_conv split: list.splits)
  from link_by_name [OF s(1)] addr_list [OF s(1,2) assms(2)] assms(2) s(3,4) show ?thesis by auto
qed

end

definition ref_dev :: "net_world \<Rightarrow> string \<Rightarrow> (HardwareAddr \<times> IP list) option" where
  "ref_dev w n =
     map_option (\<lambda>x. (lk_HardwareAddr x, map (\<lambda>a. canon_IP (IPNet_IP (ad_IPNet (snd a)))) (filter (\<lambda>a. fst a = lk_Index x) (ks_addrs (stack w)))))
       (find (\<lambda>x. lk_Name x = n) (ks_links (stack w)))"

lemma ref_link_add:
  assumes "add_link l w = (Inr u, w')"
  shows "ref_dev w' (lk_Name l) = Some (lk_HardwareAddr l, [])"
proof -
  have "find (\<lambda>x. lk_Name x = lk_Name l) (ks_links (stack w)) = None"
    using assms by (intro find_name_absent) (auto simp: add_link_def split: if_splits)
  with assms show ?thesis
    by (auto simp: add_link_def Let_def ref_dev_def find_append stack_def upd_stack_def filter_empty_conv split: if_splits link_kind.splits)
qed

lemma ref_link_up:
  assumes "on_link l (map_link (\<lambda>x. x\<lparr>lk_Up := True\<rparr>)) w = (Inr u, w')"
  shows "ref_dev w' = ref_dev w"
proof
  fix n
  obtain i where w': "w' = upd_stack (map_link (\<lambda>x. x\<lparr>lk_Up := True\<rparr>) i) w"
    using assms by (auto simp: on_link_def change_def split: option.splits)
  have "find (\<lambda>x. lk_Name x = n) (map (\<lambda>y. if lk_Index y = i then y\<lparr>lk_Up := True\<rparr> else y) (ks_links (stack w)))
      = map_option (\<lambda>y. if lk_Index y = i then y\<lparr>lk_Up := True\<rparr> else y) (find (\<lambda>x. lk_Name x = n) (ks_links (stack w)))"
    by (rule find_map_same) simp
  then show "ref_dev w' n = ref_dev w n"
    by (cases "find (\<lambda>x. lk_Name x = n) (ks_links (stack w))") (simp_all add: ref_dev_def w' map_link_def)
qed

lemma ref_addr_add:
  assumes "on_link l (\<lambda>i s. s\<lparr>ks_addrs := ks_addrs s @ [(i, a)]\<rparr>) w = (Inr u, w')" "lk_Index l = 0"
    and "ref_dev w (lk_Name l) = Some (hw, ips)"
  shows "ref_dev w' (lk_Name l) = Some (hw, ips @ [canon_IP (IPNet_IP (ad_IPNet a))])"
  using assms by (auto simp: on_link_def change_def resolve_def ref_dev_def split: option.splits)

interpretation ref_links: kernel_links "as_netlinkAdapter ref_kernel" ref_dev
proof
  fix l u w w'
  assume "nl_LinkAdd (as_netlinkAdapter ref_kernel) l w = (Inr u, w')"
  then show "ref_dev w' (lk_Name l) = Some (lk_HardwareAddr l, [])"
    by (intro ref_link_add) (auto simp: as_netlinkAdapter_def adapter_defs ref_kernel_def works_def split: if_splits)
next
  fix l u w w'
  assume "nl_LinkSetUp (as_netlinkAdapter ref_kernel) l w = (Inr u, w')"
  then show "ref_dev w' = ref_dev w"
    by (intro ref_link_up) (auto simp: as_netlinkAdapter_def adapter_defs ref_kernel_def works_def split: if_splits)
next
  fix l a w u w' hw ips
  assume a: "nl_AddrAddScopeLink (as_netlinkAdapter ref_kernel) l a w = (Inr u, w')" "lk_Index l = 0" "ref_dev w (lk_Name l) = Some (hw, ips)"
  have "on_link l (\<lambda>i s. s\<lparr>ks_addrs := ks_addrs s @ [(i, a\<lparr>ad_Scope := SCOPE_LINK\<rparr>)]\<rparr>) w = (Inr u, w')"
    using a(1) by (auto simp: as_netlinkAdapter_def adapter_defs ref_kernel_def works_def split: if_splits)
  from ref_addr_add [OF this a(2,3)] show "ref_dev w' (lk_Name l) = Some (hw, ips @ [canon_IP (IPNet_IP (ad_IPNet a))])" by simp
next
  fix n w l w'
  assume "nl_LinkByName (as_netlinkAdapter ref_kernel) n w = (Inr l, w')"
  then show "\<exists>ips. ref_dev w n = Some (lk_HardwareAddr l, ips)"
    by (auto simp: as_netlinkAdapter_def adapter_defs ref_kernel_def request_defs ref_dev_def split: if_splits option.splits)
next
  fix n w l w1 as w2 hw ips
  assume "nl_LinkByName (as_netlinkAdapter ref_kernel) n w = (Inr l, w1)"
    "nl_AddrList (as_netlinkAdapter ref_kernel) l FAMILY_V4 w1 = (Inr as, w2)" "ref_dev w n = Some (hw, ips)"
  then show "map (\<lambda>a. canon_IP (IPNet_IP (ad_IPNet a))) as = ips"
    by (auto simp: as_netlinkAdapter_def adapter_defs ref_kernel_def request_defs ref_dev_def comp_def split: if_splits option.splits)
qed

lemma canon_IP_v4: "length p = 4 \<Longrightarrow> canon_IP (v4InV6Prefix @ p) = p"
  by (auto simp: canon_IP_def)

lemma IPNet_String_canon:
  assumes "canon_IP ip = p" "length p = 4" "n \<le> 32"
  shows "IPNet_String \<lparr>IPNet_IP = ip, IPNet_Mask = CIDRMask (int n) 32\<rparr> = dotted p @ ''/'' @ itoa n"
proof (cases "To4 ip = []")
  case True
  then show ?thesis using assms by (simp add: canon_IP_def)
next
  case False
  then obtain q where "length q = 4" "To4 ip = q" "ip = q \<or> ip = v4InV6Prefix @ q" by (rule To4_cases)
  with assms IPNet_String_v4 [of p n] False show ?thesis by (auto simp: canon_IP_def)
qed

text \<open>
  C27.  A daemon that restarts rebuilds its lease from the device it had created for that lease: it gets back the
  host, the hardware address and the subnet's address, with the configured subnet prefix length.  So it is the
  same lease exactly when the lease's subnet has that prefix length; a lease of a single address (prefix
  length 32) is rebuilt as another lease unless the configured prefix length is 32 too.
\<close>

theorem restart_recovers_lease:
  assumes "kernel_links (as_netlinkAdapter (de_kernel env)) dev"
    and "ConfigCreator_Create (vtepConfigCreator env) cfg lease w0 = (Inr conf, w)"
    and "CreateVTEP (vtepFactory env) conf w = (Inr u, w1)"
    and "dev w2 (cl_VTEPName cfg) = dev w1 (cl_VTEPName cfg)"
    and "discoverLocalLease env cfg w2 = (Inr l, w3)"
    and "OverlaySubnet lease = cidr_text x m" "m \<le> 32" "OverlayHardwareAddr lease = HardwareAddr_String hw" "length hw = 6"
    and "UnderlayIP lease = cl_UnderlayIP cfg" "cl_SubnetPrefixLength cfg = int n" "n \<le> 32"
  shows "l = lease\<lparr>OverlaySubnet := cidr_text x n\<rparr> \<and> (l = lease \<longleftrightarrow> n = m)"
proof -
  from assms(2) have c: "vc_VTEPName conf = cl_VTEPName cfg" "\<exists>net. ParseCIDR (OverlaySubnet lease) = Inr (vc_OverlayIP conf, net)"
    "ParseMAC (OverlayHardwareAddr lease) = Inr (vc_OverlayHardwareAddr conf)"
    by (auto simp: ConfigCreator_Create_def try_do_Inr Let_def split: if_splits option.splits)
  have ip: "vc_OverlayIP conf = v4InV6Prefix @ bytes32 x" using c(2) assms(6,7) by (auto simp: ParseCIDR_cidr_text)
  have mac: "vc_OverlayHardwareAddr conf = hw" using c(3) assms(8,9) by (simp add: ParseMAC_String)
  have d: "dev w2 (cl_VTEPName cfg) = Some (hw, [bytes32 x])"
    using kernel_links.created [OF assms(1) assms(3) [unfolded vtepFactory_def]] assms(4) c(1) ip mac by (simp add: canon_IP_v4)
  from assms(5) obtain h i mtu where g: "GetVTEPState (vtepFactory env) (cl_VTEPName cfg) w2 = (Inr (h, i, mtu), w3)"
    "l = leaseFromVTEPState cfg h i" by (auto simp: discoverLocalLease_def try_do_Inr)
  from kernel_links.vtep_state [OF assms(1) g(1) [unfolded vtepFactory_def] d] have hi: "h = hw" "canon_IP i = bytes32 x" by simp_all
  have l: "l = lease\<lparr>OverlaySubnet := cidr_text x n\<rparr>"
    using g(2) hi IPNet_String_canon [OF hi(2), of n] assms(8,10-12)
    by (simp add: leaseFromVTEPState_def Let_def cidr_text_def)
  moreover have "l = lease \<longleftrightarrow> n = m"
  proof
    assume "l = lease"
    moreover have "OverlaySubnet l = cidr_text x n" using l by simp
    ultimately have "cidr_text x n = cidr_text x m" using assms(6) by simp
    then show "n = m" unfolding cidr_text_def using cidr_text_inj(2) [of "bytes32 x" "bytes32 x" n m] by simp
  next
    assume "n = m"
    with l assms(6) show "l = lease" by simp
  qed
  ultimately show ?thesis by blast
qed

section \<open>A concrete host\<close>

text \<open>
  A host with an Ethernet device and, for \<open>restarted\<close>, the device that an earlier run created for a lease; its
  store is one text that every read returns, and the controller gives every request the same answer.
\<close>

definition one_file :: "string \<Rightarrow> string \<Rightarrow> ('w, 'w OverwriteableFile) op" where
  "one_file text path = ret \<lparr>of_Read = (\<lambda>w. (Inr text, w)), of_Write = (\<lambda>_. ret ()), of_Seek = (\<lambda>_. ret 0), of_Truncate = (\<lambda>_. ret ()), of_Close = ret ()\<rparr>"

definition host_env :: "int \<Rightarrow> string \<Rightarrow> net_world daemon_env" where
  "host_env status text =
     \<lparr>de_io = \<lparr>ReadFile = (\<lambda>_. ret []), WriteFile = (\<lambda>_ _. ret ())\<rparr>, de_NewClientTLSConfig = (\<lambda>_ _ _. ret ()), de_dropsonde = (\<lambda>_ _. ret ()),
      de_httpClient = (\<lambda>_ _ _ w. (Inr (status, Inr []), w)), de_newRequest = (\<lambda>_ _. None), de_kernel = ref_kernel, de_NewLocker = one_file text,
      de_metrics = \<lparr>SendValue = (\<lambda>_ _ _ w. w), IncrementCounter = (\<lambda>_ w. w)\<rparr>, de_now = (\<lambda>_. 0)\<rparr>"

definition host_config :: client_Config where
  "host_config =
     \<lparr>cl_UnderlayIP = ''10.0.0.1'', cl_VxlanInterfaceName = ''eth0'', cl_SubnetPrefixLength = 24, cl_OverlayNetwork = ''10.255.0.0/16'',
      cl_HealthCheckPort = 8080, cl_VTEPName = ''silk-vtep'', cl_ConnectivityServerURL = ''https://c'', cl_ServerCACertFile = ''ca'',
      cl_ClientCertFile = ''cert'', cl_ClientKeyFile = ''key'', cl_VNI = 1, cl_VTEPPort = 4789, cl_PollInterval = 30, cl_DebugServerPort = 8081,
      cl_Datastore = ''store'', cl_PartitionToleranceSeconds = 60, cl_ClientTimeoutSeconds = 5, cl_MetronPort = 3457,
      cl_LogPrefix = ''cfnetworking'', cl_LogLevel = ''info'', cl_SingleIPOnly = True\<rparr>"

definition eth0_link :: Link where
  "eth0_link = \<lparr>lk_Index = 2, lk_Name = ''eth0'', lk_HardwareAddr = [2, 0, 0, 0, 0, 1], lk_MTU = 1500, lk_Up = True, lk_kind = Device\<rparr>"

definition host_world :: net_world where
  "host_world = \<lparr>nw_cur = 0, nw_stacks = (\<lambda>_. empty_stack\<lparr>ks_links := [eth0_link]\<rparr>), nw_next = 3, nw_pairs = [], nw_broken = []\<rparr>"

definition single_lease :: Lease where
  "single_lease = \<lparr>UnderlayIP = ''10.0.0.1'', OverlaySubnet = cidr_text 184491781 32, OverlayHardwareAddr = ''ee:ee:0a:ff:1f:05''\<rparr>"

definition restarted :: net_world where
  "restarted =
     (case ConfigCreator_Create (vtepConfigCreator (host_env 409 store_text)) host_config single_lease host_world of
        (Inr conf, w) \<Rightarrow> snd (CreateVTEP (vtepFactory (host_env 409 store_text)) conf w)
      | (Inl _, w) \<Rightarrow> w)"

definition succeeds :: "'a result \<times> 'w \<Rightarrow> bool" where
  "succeeds r = (case fst r of Inl _ \<Rightarrow> False | Inr _ \<Rightarrow> True)"

lemma succeeds_iff: "succeeds r \<longleftrightarrow> (\<exists>a w. r = (Inr a, w))"
  by (cases r) (auto simp: succeeds_def split: sum.splits)

lemma restart_configures:
  "succeeds (ConfigCreator_Create (vtepConfigCreator (host_env 409 store_text)) host_config single_lease host_world)"
  by code_simp

lemma restart_creates:
  "case ConfigCreator_Create (vtepConfigCreator (host_env 409 store_text)) host_config single_lease host_world of
     (Inl _, _) \<Rightarrow> False | (Inr conf, w) \<Rightarrow> succeeds (CreateVTEP (vtepFactory (host_env 409 store_text)) conf w)"
  by code_simp

lemma restart_discovers: "succeeds (discoverLocalLease (host_env 409 store_text) host_config restarted)"
  by code_simp

theorem restart_recovers_lease_witness:
  "\<exists>l w. discoverLocalLease (host_env 409 store_text) host_config restarted = (Inr l, w) \<and> l \<noteq> single_lease \<and>
     l = single_lease\<lparr>OverlaySubnet := cidr_text 184491781 24\<rparr>"
proof -
  let ?env = "host_env 409 store_text"
  from restart_configures obtain conf w where c: "ConfigCreator_Create (vtepConfigCreator ?env) host_config single_lease host_world = (Inr conf, w)"
    unfolding succeeds_iff by blast
  with restart_creates obtain u w1 where d: "CreateVTEP (vtepFactory ?env) conf w = (Inr u, w1)" by (auto simp: succeeds_iff)
  have r: "restarted = w1" using c d by (simp add: restarted_def)
  from restart_discovers obtain l w3 where e: "discoverLocalLease ?env host_config w1 = (Inr l, w3)"
    unfolding r succeeds_iff by blast
  have k: "kernel_links (as_netlinkAdapter (de_kernel ?env)) ref_dev"
    using ref_links.kernel_links_axioms by (simp add: host_env_def)
  have m: "OverlayHardwareAddr single_lease = HardwareAddr_String [0xee, 0xee, 10, 255, 31, 5]" by code_simp
  have "l = single_lease\<lparr>OverlaySubnet := cidr_text 184491781 24\<rparr> \<and> (l = single_lease \<longleftrightarrow> 24 = (32 :: nat))"
    by (rule restart_recovers_lease [OF k c d refl e _ _ m]) (simp_all add: single_lease_def host_config_def)
  with e r show ?thesis by auto
qed

lemma host_store: "Store_ReadAll (silk_Store (de_NewLocker (host_env status store_text))) path w
    = (Inr [(''c0'', \<lparr>Handle = ''c0'', Container_IP = ''10.255.0.4'', Metadata = JNull\<rparr>)], w)"
  by (simp add: Store_ReadAll_def silk_Store_def host_env_def one_file_def DecodeAll_def deferring_def store_text_decodes try_do_def ret_def)

theorem daemon_keeps_subnet_with_containers_witness:
  "\<exists>l w1. discoverLocalLease (host_env 409 store_text) host_config restarted = (Inr l, w1) \<and>
     (\<forall>add del. daemon_lease (with_devices (host_env 409 store_text) add del) host_config (v4_net 10 255 0 0 16) restarted
        = daemon_lease (host_env 409 store_text) host_config (v4_net 10 255 0 0 16) restarted)"
proof -
  have c: "has_containers (host_env 409 store_text) host_config" by (simp add: has_containers_def host_store)
  from restart_discovers obtain l w1 where d: "discoverLocalLease (host_env 409 store_text) host_config restarted = (Inr l, w1)"
    unfolding succeeds_iff by blast
  from daemon_keeps_subnet_with_containers [OF d c] d show ?thesis by blast
qed

end
