(* ===== verification/Silk_System.thy ===== *)
theory Silk_System
  imports Controller_Client Daemon_System Controller_System
begin

text \<open>
  The controller, its API and the daemon of one host together: what a cycle of the daemon makes of
  the table of leases and of the device, that an acquired lease renews, and what the teardown job gives back.
\<close>

section \<open>The leases of a table as peers\<close>

lemma distinct_map_filter_by:
  assumes "distinct (map h xs)"
    and "\<And>x y a b. x \<in> set xs \<Longrightarrow> y \<in> set xs \<Longrightarrow> g x = Some a \<Longrightarrow> g y = Some b \<Longrightarrow> f a = f b \<Longrightarrow> h x = h y"
  shows "distinct (map f (List.map_filter g xs))"
  using assms
proof (induction xs)
  case (Cons x xs)
  have "f a \<notin> f ` set (List.map_filter g xs)" if "g x = Some a" for a
  proof
    assume "f a \<in> f ` set (List.map_filter g xs)"
    then obtain y b where "y \<in> set xs" "g y = Some b" "f a = f b" by (auto simp: List.map_filter_def)
    with Cons.prems(2) [of x y a b] that have "h x = h y" by simp
    with Cons.prems(1) \<open>y \<in> set xs\<close> show False by simp
  qed
  with Cons show ?case by (simp add: List.map_filter_simps split: option.splits)
qed (simp add: List.map_filter_simps)

definition issued :: "CIDRPool \<Rightarrow> Lease \<Rightarrow> bool" where
  "issued pool l \<longleftrightarrow> IsMember pool (OverlaySubnet l) \<and> lease_of (UnderlayIP l) (OverlaySubnet l) = Some l"

lemma issued_rows_iff: "issued_rows (blockPool pool) (singlePool pool) rows \<longleftrightarrow> (\<forall>x\<in>set rows. issued pool (row_lease x))"
  unfolding issued_rows_def issued_def list_all_iff IsMember_def by simp

lemma issued_lease:
  assumes "pool_for subnetRange m pool" "issued pool l"
  obtains v n where "n \<le> 32" "OverlaySubnet l = cidr_text v n" "OverlayHardwareAddr l = HardwareAddr_String ([0xee, 0xee] @ bytes32 v)"
proof -
  from assms(1) obtain ip overlay where o: "ParseCIDR subnetRange = Inr (ip, overlay)" "length (IPNet_Mask overlay) = 4"
    "fst (Mask_Size (IPNet_Mask overlay)) \<le> m" "m \<le> 32" "NewCIDRPool subnetRange (int m) = Some (Inr pool)"
    by (auto simp: pool_for_def split: sum.splits)
  obtain w k where k: "k \<le> 32" "overlay = cidr_net w k" using o(1,2) by (rule ParseCIDR_v4_sound)
  have km: "k \<le> m" using o(3) k by (simp add: cidr_net_def Mask_Size_CIDRMask)
  have mem: "IsMember pool (OverlaySubnet l)" using assms(2) by (simp add: issued_def)
  obtain v n where v: "n \<le> 32" "OverlaySubnet l = cidr_text v n"
    by (rule pool_member [OF o(1) [unfolded k(2)] km o(4,5) mem])
  have "lease_of (UnderlayIP l) (cidr_text v n) = Some l" using assms(2) v(2) by (simp add: issued_def)
  then have "l = \<lparr>UnderlayIP = UnderlayIP l, OverlaySubnet = cidr_text v n, OverlayHardwareAddr = HardwareAddr_String ([0xee, 0xee] @ bytes32 v)\<rparr>"
    by (simp only: lease_of_cidr_text [OF v(1)] option.inject)
  from arg_cong [OF this, of OverlayHardwareAddr] have "OverlayHardwareAddr l = HardwareAddr_String ([0xee, 0xee] @ bytes32 v)" by simp
  with that [OF v] show thesis by blast
qed

lemma issued_peer:
  assumes "pool_for subnetRange m pool" "issued pool l" "peer_of c l = Some (net, addr, u, hw)"
  obtains v n where "n \<le> 32" "OverlaySubnet l = cidr_text v n" "net = cidr_net v n" "addr = v4InV6Prefix @ bytes32 v" "hw = [0xee, 0xee] @ bytes32 v"
proof -
  obtain v n where v: "n \<le> 32" "OverlaySubnet l = cidr_text v n" and h: "OverlayHardwareAddr l = HardwareAddr_String ([0xee, 0xee] @ bytes32 v)"
    using assms(1,2) by (rule issued_lease)
  let ?hw = "[0xee, 0xee] @ bytes32 v"
  have mac: "ParseMAC (OverlayHardwareAddr l) = Inr ?hw" using ParseMAC_String [of ?hw] h by simp
  have p: "ParseCIDR (OverlaySubnet l) = Inr (v4InV6Prefix @ bytes32 v, cidr_net v n)" using v by (simp add: ParseCIDR_cidr_text)
  from assms(3) have "net = cidr_net v n \<and> addr = v4InV6Prefix @ bytes32 v \<and> hw = ?hw"
    unfolding peer_of_def p mac by (simp split: if_split_asm option.split_asm del: append.simps)
  with that [OF v] show thesis by blast
qed

lemma issued_disjoint:
  assumes "pool_for subnetRange m pool" "IsMember pool (cidr_text u a)" "IsMember pool (cidr_text v b)"
    and "Contains (cidr_net u a) (bytes32 x)" "Contains (cidr_net v b) (bytes32 x)"
  shows "cidr_text u a = cidr_text v b"
proof -
  from assms(1) obtain ip overlay where o: "ParseCIDR subnetRange = Inr (ip, overlay)" "length (IPNet_Mask overlay) = 4"
    "fst (Mask_Size (IPNet_Mask overlay)) \<le> m" "m \<le> 32" "NewCIDRPool subnetRange (int m) = Some (Inr pool)"
    by (auto simp: pool_for_def split: sum.splits)
  obtain w k where k: "k \<le> 32" "overlay = cidr_net w k" using o(1,2) by (rule ParseCIDR_v4_sound)
  have km: "k \<le> m" using o(3) k by (simp add: cidr_net_def Mask_Size_CIDRMask)
  show ?thesis by (rule pool_member_disjoint [OF o(1) [unfolded k(2)] km o(4,5) assms(2-5)])
qed

text \<open>Two issued leases that share a network, an address or a hardware address have the same subnet.\<close>

lemma issued_peers_same:
  assumes "pool_for subnetRange m pool" "issued pool l" "issued pool l'"
    and "peer_of c l = Some (net, addr, u, hw)" "peer_of c l' = Some (net', addr', u', hw')"
    and "IPNet_String net = IPNet_String net' \<or> IP_String addr = IP_String addr' \<or> hw = hw'"
  shows "OverlaySubnet l = OverlaySubnet l'"
proof -
  obtain v n where v: "n \<le> 32" "OverlaySubnet l = cidr_text v n" "net = cidr_net v n" "addr = v4InV6Prefix @ bytes32 v" "hw = [0xee, 0xee] @ bytes32 v"
    using assms(1,2,4) by (rule issued_peer)
  obtain v' n' where v': "n' \<le> 32" "OverlaySubnet l' = cidr_text v' n'" "net' = cidr_net v' n'" "addr' = v4InV6Prefix @ bytes32 v'"
      "hw' = [0xee, 0xee] @ bytes32 v'"
    using assms(1,3,5) by (rule issued_peer)
  have self: "Contains (cidr_net x k) (bytes32 x)" if "k \<le> 32" for x k using that by (simp add: Contains_cidr_net)
  have ipt: "cidr_text x 0 = IP_String (v4InV6Prefix @ bytes32 x) @ ''/'' @ itoa 0" for x by (simp add: cidr_text_def IP_String_v4)
  have "\<exists>x. Contains (cidr_net v n) (bytes32 x) \<and> Contains (cidr_net v' n') (bytes32 x)"
  proof (cases "v = v'")
    case True
    with self [OF v(1)] self [OF v'(1)] show ?thesis by blast
  next
    case False
    then have "IP_String addr \<noteq> IP_String addr'" using ipt [of v] ipt [of v'] v(4) v'(4) by (metis cidr_text_eq_iff)
    with False assms(6) v v' have "v AND mask32 n = v' AND mask32 n'" "n = n'" by (auto simp: IPNet_String_cidr_net)
    then have "cidr_net v n = cidr_net v' n'" by (simp add: cidr_net_def)
    with self [OF v(1)] show ?thesis by metis
  qed
  then obtain x where "Contains (cidr_net v n) (bytes32 x)" "Contains (cidr_net v' n') (bytes32 x)" by blast
  moreover have "IsMember pool (cidr_text v n)" "IsMember pool (cidr_text v' n')" using assms(2,3) v(2) v'(2) by (simp_all add: issued_def)
  ultimately show ?thesis unfolding v(2) v'(2) by (intro issued_disjoint [OF assms(1)])
qed

lemma issued_peers_distinct:
  assumes "pool_for subnetRange m pool" "\<forall>l\<in>set ls. issued pool l" "distinct (map OverlaySubnet ls)"
  shows "peers_distinct c ls" "peers_v4 c ls"
proof -
  have same: "OverlaySubnet x = OverlaySubnet y"
    if "x \<in> set ls" "y \<in> set ls" "peer_of c x = Some a" "peer_of c y = Some b"
      "(case a of (net, addr, u, hw) \<Rightarrow> IPNet_String net) = (case b of (net, addr, u, hw) \<Rightarrow> IPNet_String net) \<or>
       (case a of (net, addr, u, hw) \<Rightarrow> IP_String addr) = (case b of (net, addr, u, hw) \<Rightarrow> IP_String addr) \<or>
       (case a of (net, addr, u, hw) \<Rightarrow> hw) = (case b of (net, addr, u, hw) \<Rightarrow> hw)" for x y a b
    using that(3-5) assms(2) that(1,2) by (cases a; cases b) (auto dest: issued_peers_same [OF assms(1)])
  show "peers_distinct c ls"
    unfolding peers_distinct_def peers_def
    using distinct_map_filter_by [OF assms(3) same [OF _ _ _ _ disjI1]]
      distinct_map_filter_by [OF assms(3) same [OF _ _ _ _ disjI2 [OF disjI1]]]
      distinct_map_filter_by [OF assms(3) same [OF _ _ _ _ disjI2 [OF disjI2]]]
    by (intro conjI)
  have "To4 addr \<noteq> []" if "l \<in> set ls" "peer_of c l = Some (net, addr, u, hw)" for l net addr u hw
  proof -
    have "issued pool l" using assms(2) that(1) by blast
    from issued_peer [OF assms(1) this that(2)] obtain v where "addr = v4InV6Prefix @ bytes32 v" by blast
    then show ?thesis by (simp add: To4_def bytes32_def v4InV6Prefix_def)
  qed
  then show "peers_v4 c ls" by (fastforce simp: peers_v4_def peers_def List.map_filter_def list_all_iff)
qed

section \<open>Acquiring, then renewing\<close>

context exclusive_controller
begin

lemma acquire_keeps_issued:
  assumes "AcquireSubnetLease c u single w = (Inr (Some l), w')" "issued_rows blocks singles (tbl w)"
  shows "ParseIP_To4 u \<noteq> [] \<and> issued_rows blocks singles (tbl w')"
  using assms(1)
proof (cases rule: acquire_start)
  case (loop w1)
  have "issued_rows blocks singles (tbl w1)" using assms(2) loop(3) by (auto simp: issued_rows_def list_all_iff)
  with acquire_loop_issued [OF loop(2)] loop(1) show ?thesis by simp
qed (use assms(2) in auto)

end

lemma issued_valid:
  assumes "pool_for subnetRange m pool" "issued pool l" "ParseIP_To4 (UnderlayIP l) \<noteq> []"
  shows "Validate l = None"
proof -
  obtain v n where v: "n \<le> 32" "OverlaySubnet l = cidr_text v n" "OverlayHardwareAddr l = HardwareAddr_String ([0xee, 0xee] @ bytes32 v)"
    using assms(1,2) by (rule issued_lease)
  have "ParseIP (UnderlayIP l) \<noteq> None" using assms(3) by (cases "ParseIP (UnderlayIP l)") (simp_all add: ParseIP_To4_def To4_def)
  moreover have "ParseMAC (OverlayHardwareAddr l) = Inr ([0xee, 0xee] @ bytes32 v)"
    using ParseMAC_String [of "[0xee, 0xee] @ bytes32 v"] v(3) by simp
  ultimately show ?thesis using v(1,2) by (simp add: Validate_def ParseCIDR_cidr_text)
qed

text \<open>
  C12.  What the controller hands out is well formed and can be kept.  On a table of leases that were issued from the pool, an
  acquired lease passes the validation of renewals, renewing it succeeds with a healthy database and leaves the lease in the table,
  and both requests keep the table one of issued leases.
\<close>

theorem acquired_lease_renews:
  assumes "subnets_db db ts tbl clock up (=)" "pool_for subnetRange m pool" "runtime_for tbl clock up rt"
    and "c = silk_LeaseController mg db rt pool d" "rows_ok (tbl w)" "issued_rows (blockPool pool) (singlePool pool) (tbl w)"
    and "AcquireSubnetLease c u single w = (Inr (Some l), w1)" "up w1" "RenewSubnetLease c l w1 = (e, w2)"
  shows "Validate l = None \<and> e = None \<and> UnderlayIP l = u \<and> l \<in> row_lease ` set (tbl w2) \<and>
    issued_rows (blockPool pool) (singlePool pool) (tbl w1) \<and> issued_rows (blockPool pool) (singlePool pool) (tbl w2)"
proof -
  note ex = silk_controller_exclusive [OF assms(1-3), of mg d, folded assms(4)]
  note sys = silk_controller_contract [OF assms(1-3), of mg d, folded assms(4)]
  have l: "UnderlayIP l = u" "l \<in> row_lease ` set (tbl w1)" using lease_controller.acquire_holds [OF sys assms(7)] by simp_all
  have i: "ParseIP_To4 u \<noteq> []" "issued_rows (blockPool pool) (singlePool pool) (tbl w1)"
    using exclusive_controller.acquire_keeps_issued [OF ex assms(7,6)] by simp_all
  have "issued pool l" using l(2) i(2) by (auto simp: issued_rows_iff)
  then have v: "Validate l = None" using issued_valid [OF assms(2)] i(1) l(1) by simp
  have "rows_ok (tbl w1)" using lease_controller.acquire_ok [OF sys assms(7,5)] .
  with l(2) have only: "x \<in> set (tbl w1) \<Longrightarrow> row_for (UnderlayIP l) x \<Longrightarrow> row_lease x = l" for x
    by (auto dest: rows_ok_same_underlay)
  obtain now where e: "e = None" "tbl w2 = renew_rows (UnderlayIP l) now (tbl w1)"
    using exclusive_controller.renew_exclusive [OF ex assms(9)]
  proof cases
    case (2 now)
    with l(2) show thesis by auto
  next
    case (3 err)
    with v l(2) only show thesis by auto
  qed (use assms(8) that in auto)
  have rows: "row_lease ` set (tbl w2) = row_lease ` set (tbl w1)" by (simp add: e(2) renew_rows_def image_image)
  with i(2) have "issued_rows (blockPool pool) (singlePool pool) (tbl w2)" unfolding issued_rows_iff by (metis image_iff)
  with v e(1) l rows i(2) show ?thesis by simp
qed

theorem acquired_lease_renews_witness:
  "\<exists>l w1 w2. AcquireSubnetLease ref_controller ''10.0.0.9'' True (world_at rows3) = (Inr (Some l), w1) \<and>
     RenewSubnetLease ref_controller l w1 = (None, w2) \<and> l \<in> row_lease ` set (rw_rows w2)"
proof -
  let ?l = "\<lparr>UnderlayIP = ''10.0.0.9'', OverlaySubnet = ''10.255.0.2/32'', OverlayHardwareAddr = ''ee:ee:0a:ff:00:02''\<rparr>"
  let ?w = "\<lparr>rw_rows = rows3 @ [lease_row ''10.0.0.9'' ''10.255.0.2/32'' ''ee:ee:0a:ff:00:02'' 1002], rw_now = 1003, rw_faults = []\<rparr>"
  have a: "AcquireSubnetLease ref_controller ''10.0.0.9'' True (world_at rows3) = (Inr (Some ?l), ?w)" by code_simp
  have ok: "rows_ok (rw_rows (world_at rows3))" "issued_rows (blockPool test_pool) (singlePool test_pool) (rw_rows (world_at rows3))" by code_simp+
  have up: "healthy ?w" by (simp add: healthy_def)
  obtain e w2 where r: "RenewSubnetLease ref_controller ?l ?w = (e, w2)" by (cases "RenewSubnetLease ref_controller ?l ?w")
  from acquired_lease_renews [OF ref_db_subnets_db test_pool_for seeded_runtime_for ref_controller_def ok a up r] a r show ?thesis by blast
qed

section \<open>A cycle of the daemon\<close>

text \<open>
  The controller runs elsewhere: its requests leave the routes and the neighbours of the host alone, and so do the metrics, which
  also leave the table alone.
\<close>

definition apart ::
  "'w LeaseController \<Rightarrow> 'w metricSender \<Rightarrow> ('w \<Rightarrow> subnet_row list) \<Rightarrow> ('w \<Rightarrow> int) \<Rightarrow> ('w \<Rightarrow> Route set) \<Rightarrow> ('w \<Rightarrow> Neigh set) \<Rightarrow> bool" where
  "apart lc ms tbl clock routes neighs \<longleftrightarrow>
     (\<forall>l w e w'. RenewSubnetLease lc l w = (e, w') \<longrightarrow> routes w' = routes w \<and> neighs w' = neighs w) \<and>
     (\<forall>w r w'. RoutableLeases lc w = (r, w') \<longrightarrow> routes w' = routes w \<and> neighs w' = neighs w) \<and>
     (\<forall>name w. let w' = IncrementCounter ms name w in tbl w' = tbl w \<and> clock w \<le> clock w' \<and> routes w' = routes w \<and> neighs w' = neighs w) \<and>
     (\<forall>name x u w. let w' = SendValue ms name x u w in tbl w' = tbl w \<and> clock w \<le> clock w' \<and> routes w' = routes w \<and> neighs w' = neighs w)"

definition daemon_converger :: "'w daemon_env \<Rightarrow> IPNet \<Rightarrow> IPNet \<Rightarrow> Interface \<Rightarrow> 'w Converger" where
  "daemon_converger env overlayNetwork localSubnet vxlanIface =
     \<lparr>cv_OverlayNetwork = overlayNetwork, cv_LocalSubnet = localSubnet, cv_LocalVTEP = vxlanIface,
      cv_NetlinkAdapter = as_netlinkAdapter (de_kernel env)\<rparr>"

lemma DoCycle_ok:
  assumes "DoCycle v (fed, w) = (None, fed', w')"
  obtains w1 w2 ls w3 where "cc_RenewSubnetLease (vp_ControllerClient v) (vp_Lease v) w = (None, w1)"
    "cc_GetActiveLeases (vp_ControllerClient v) (IncrementCounter (vp_MetricSender v) ''renewSuccess'' w1) = (Inr ls, w2)"
    "vp_Converge v ls (SendValue (vp_MetricSender v) ''numberLeases'' (int (length ls)) [] w2) = (Inr (), w3)"
    "w' = IncrementCounter (vp_MetricSender v) ''convergeSuccess'' w3"
  using assms by (auto simp: DoCycle_def Let_def split: prod.splits option.splits sum.splits if_splits)

lemma wanted_neighs_mono: "set ls \<subseteq> set ls' \<Longrightarrow> set (wanted_neighs c ls) \<subseteq> set (wanted_neighs c ls')"
  by (auto simp: wanted_neighs_def peers_def List.map_filter_def)

lemma agrees_mono: "agrees N c ls' \<Longrightarrow> set ls \<subseteq> set ls' \<Longrightarrow> agrees N c ls"
  using wanted_neighs_mono [of ls ls' c] by (auto simp: agrees_def)

text \<open>The table a renewal leaves when it succeeds.\<close>

definition renewed_table :: "Lease \<Rightarrow> int \<Rightarrow> subnet_row list \<Rightarrow> subnet_row list" where
  "renewed_table l now rows =
     (if l \<in> row_lease ` set rows then renew_rows (UnderlayIP l) now rows else insert_row l now rows)"

lemma renewal_ok:
  assumes "subnets_db db ts tbl clock up (=)" "pool_for subnetRange m pool" "runtime_for tbl clock up rt"
    and "RenewSubnetLease (silk_LeaseController mg db rt pool d) l w = (None, w')" "rows_ok (tbl w)"
  shows "\<exists>now. clock w \<le> now \<and> now \<le> clock w' \<and> tbl w' = renewed_table l now (tbl w) \<and> rows_ok (tbl w')"
  using exclusive_controller.renew_exclusive [OF silk_controller_exclusive [OF assms(1-3)] assms(4)]
proof cases
  case (1 x now)
  then have "l \<in> row_lease ` set (tbl w)" by blast
  with 1 assms(5) show ?thesis by (intro exI [of _ now]) (simp add: renewed_table_def)
next
  case (2 now)
  then have "l \<notin> row_lease ` set (tbl w)" by auto
  with 2 assms(5) show ?thesis by (intro exI [of _ now]) (auto simp: renewed_table_def)
qed simp_all

lemma renewed_leases: "row_lease ` set (renewed_table l now rows) = insert l (row_lease ` set rows)"
  by (auto simp: renewed_table_def renew_rows_def image_image)


section \<open>Taking a host down\<close>

text \<open>
  C20.  Taking a host down gives its lease back.  When the configuration and the TLS material load and the database is healthy, the
  teardown process removes the host's lease from the controller's table and no other, whatever becomes of the device; it then
  asks for the device to be deleted, and its exit status is 0 exactly when the device was deleted.
\<close>

theorem teardown_gives_back_lease:
  assumes "subnets_db db ts tbl clock up (=)" "pool_for subnetRange m pool" "runtime_for tbl clock up rt"
    and "lc = silk_LeaseController mg db rt pool d" "daemon_client env cfg = connected base lc"
    and "LoadConfig (de_io env) path w = (Inr cfg, w1)"
    and "de_NewClientTLSConfig env (cl_ClientCertFile cfg) (cl_ClientKeyFile cfg) (cl_ServerCACertFile cfg) w1 = (Inr (), w2)" "up w2"
    and "\<forall>v r v'. DeleteVTEP (vtepFactory env) (cl_VTEPName cfg) v = (r, v') \<longrightarrow> tbl v' = tbl v"
    and "teardown_main env path w = (status, w')"
  shows "tbl w' = filter (\<lambda>x. UnderlayIP (row_lease x) \<noteq> cl_UnderlayIP cfg) (tbl w2) \<and>
    (\<exists>w3 r. DeleteVTEP (vtepFactory env) (cl_VTEPName cfg) w3 = (r, w') \<and> (status = 0 \<longleftrightarrow> (\<exists>u. r = Inr u)))"
proof -
  obtain e w3 where 3: "ReleaseSubnetLease lc (cl_UnderlayIP cfg) w2 = (e, w3)" by (cases "ReleaseSubnetLease lc (cl_UnderlayIP cfg) w2")
  from exclusive_controller.release_exclusive [OF silk_controller_exclusive [OF assms(1-3)] 3 [unfolded assms(4)]] assms(8)
  have t: "e = None" "tbl w3 = delete_rows (cl_UnderlayIP cfg) (tbl w2)" by simp_all
  obtain r w4 where 4: "DeleteVTEP (vtepFactory env) (cl_VTEPName cfg) w3 = (r, w4)" by (cases "DeleteVTEP (vtepFactory env) (cl_VTEPName cfg) w3")
  have "Client_ReleaseSubnetLease (daemon_client env cfg) (cl_UnderlayIP cfg) w2 = (None, w3)"
    using 3 t(1) by (simp add: assms(5) client_release)
  with assms(6,7,10) 4 have "w' = w4" "status = 0 \<longleftrightarrow> (\<exists>u. r = Inr u)"
    by (auto simp: teardown_main_def teardown_mainWithError_def split: sum.split_asm)
  with 4 t(2) assms(9) show ?thesis by (auto simp: delete_rows_def)
qed

end
