(* ===== verification/Silk_Reference.thy ===== *)
theory Silk_Reference
  imports Silk_System
begin

text \<open>
  A controller and a host as one world, a pair of the database of \<open>Reference_Db\<close> and the network stack of
  \<open>Reference_Kernel\<close>: the hypotheses of the properties of \<open>Silk_System\<close> hold there.
\<close>

section \<open>Services on one part of the world\<close>

definition on_fst :: "('a \<Rightarrow> 'r \<times> 'a) \<Rightarrow> 'a \<times> 'b \<Rightarrow> 'r \<times> 'a \<times> 'b" where
  "on_fst f w = (case f (fst w) of (r, a) \<Rightarrow> (r, a, snd w))"

definition on_snd :: "('b \<Rightarrow> 'r \<times> 'b) \<Rightarrow> 'a \<times> 'b \<Rightarrow> 'r \<times> 'a \<times> 'b" where
  "on_snd f w = (case f (snd w) of (r, b) \<Rightarrow> (r, fst w, b))"

lemma on_fst_iff: "on_fst f w = (r, w') \<longleftrightarrow> f (fst w) = (r, fst w') \<and> snd w' = snd w"
  by (cases w') (auto simp: on_fst_def split: prod.splits)

lemma on_snd_iff: "on_snd f w = (r, w') \<longleftrightarrow> f (snd w) = (r, snd w') \<and> fst w' = fst w"
  by (cases w') (auto simp: on_snd_def split: prod.splits)

definition db_side :: "'a Db \<Rightarrow> ('a \<times> 'b) Db" where
  "db_side db = \<lparr>Db_Exec = \<lambda>q vs. on_fst (Db_Exec db q vs), Db_Rebind = Db_Rebind db, Db_Query = \<lambda>q vs. on_fst (Db_Query db q vs),
     Db_QueryRow = \<lambda>q vs. on_fst (Db_QueryRow db q vs), DriverName = DriverName db\<rparr>"

lemma during_fst:
  "during (\<lambda>w. tbl (fst w)) (\<lambda>w. clock (fst w)) (\<lambda>w. up (fst w)) env w t now w' \<longleftrightarrow> during tbl clock up env (fst w) t now (fst w')"
  by (simp add: during_def)

lemma db_side_subnets_db:
  assumes "subnets_db db ts tbl clock up env"
  shows "subnets_db (db_side db) ts (\<lambda>w. tbl (fst w)) (\<lambda>w. clock (fst w)) (\<lambda>w. up (fst w)) env"
  using assms by (auto simp: subnets_db_def db_side_def on_fst_iff during_fst)

definition kernel_side :: "'b kernel \<Rightarrow> ('a \<times> 'b) kernel" where
  "kernel_side k =
     \<lparr>k_LinkByName = \<lambda>n. on_snd (k_LinkByName k n), k_LinkByIndex = \<lambda>i. on_snd (k_LinkByIndex k i),
      k_LinkList = on_snd (k_LinkList k), k_LinkAdd = \<lambda>l. on_snd (k_LinkAdd k l),
      k_LinkDel = \<lambda>l. on_snd (k_LinkDel k l), k_LinkSetUp = \<lambda>l. on_snd (k_LinkSetUp k l),
      k_LinkSetName = \<lambda>l n. on_snd (k_LinkSetName k l n), k_LinkSetHardwareAddr = \<lambda>l h. on_snd (k_LinkSetHardwareAddr k l h),
      k_LinkSetARPOff = \<lambda>l. on_snd (k_LinkSetARPOff k l), k_LinkSetNsFd = \<lambda>l fd. on_snd (k_LinkSetNsFd k l fd),
      k_AddrAdd = \<lambda>l a. on_snd (k_AddrAdd k l a), k_AddrList = \<lambda>l f. on_snd (k_AddrList k l f),
      k_RouteAdd = \<lambda>r. on_snd (k_RouteAdd k r), k_RouteReplace = \<lambda>r. on_snd (k_RouteReplace k r),
      k_RouteList = \<lambda>l f. on_snd (k_RouteList k l f), k_RouteDel = \<lambda>r. on_snd (k_RouteDel k r),
      k_NeighAdd = \<lambda>n. on_snd (k_NeighAdd k n), k_NeighSet = \<lambda>n. on_snd (k_NeighSet k n),
      k_NeighDel = \<lambda>n. on_snd (k_NeighDel k n), k_NeighList = \<lambda>i f. on_snd (k_NeighList k i f),
      k_Interfaces = on_snd (k_Interfaces k), k_InterfaceAddrs = \<lambda>i. on_snd (k_InterfaceAddrs k i),
      k_InterfaceByName = \<lambda>n. on_snd (k_InterfaceByName k n), k_Sysctl = \<lambda>n ps. on_snd (k_Sysctl k n ps),
      k_EnableIP4Forward = on_snd (k_EnableIP4Forward k)\<rparr>"

lemma kernel_side_tables:
  assumes "kernel_tables (as_netlinkAdapter k) routes neighs"
  shows "kernel_tables (as_netlinkAdapter (kernel_side k)) (\<lambda>w. routes (snd w)) (\<lambda>w. neighs (snd w))"
  using assms by (auto simp: kernel_tables_def kernel_side_def as_netlinkAdapter_def adapter_defs on_snd_iff split: sum.splits)

section \<open>The controller does not touch the host\<close>

lemma db_side_keeps:
  "dh_LeaseForUnderlayIP (as_databaseHandler (NewDatabaseHandler mg (db_side db))) u w = (r1, w') \<Longrightarrow> snd w' = snd w"
  "dh_RenewLeaseForUnderlayIP (as_databaseHandler (NewDatabaseHandler mg (db_side db))) u w = (r2, w') \<Longrightarrow> snd w' = snd w"
  "dh_LastRenewedAtForUnderlayIP (as_databaseHandler (NewDatabaseHandler mg (db_side db))) u w = (r3, w') \<Longrightarrow> snd w' = snd w"
  "dh_AddEntry (as_databaseHandler (NewDatabaseHandler mg (db_side db))) l w = (r2, w') \<Longrightarrow> snd w' = snd w"
  "dh_AllActive (as_databaseHandler (NewDatabaseHandler mg (db_side db))) d w = (r4, w') \<Longrightarrow> snd w' = snd w"
  by (auto simp: as_databaseHandler_def NewDatabaseHandler_def LeaseForUnderlayIP_def RenewLeaseForUnderlayIP_def LastRenewedAtForUnderlayIP_def
      AddEntry_def AllActive_def select_leases_def db_side_def on_fst_iff split: prod.splits sum.splits if_splits)

lemma renew_keeps: "RenewSubnetLease (silk_LeaseController mg (db_side db) rt pool d) l w = (e, w') \<Longrightarrow> snd w' = snd w"
  by (auto simp: RenewSubnetLease_def renew_entry_def split: option.splits prod.splits sum.splits if_splits dest!: db_side_keeps)

lemma routable_keeps: "RoutableLeases (silk_LeaseController mg (db_side db) rt pool d) w = (r, w') \<Longrightarrow> snd w' = snd w"
  by (auto simp: RoutableLeases_def split: prod.splits sum.splits dest!: db_side_keeps)

definition no_metrics :: "'w metricSender" where
  "no_metrics = \<lparr>SendValue = (\<lambda>_ _ _ w. w), IncrementCounter = (\<lambda>_ w. w)\<rparr>"

lemma site_apart:
  "apart (silk_LeaseController mg (db_side db) rt pool d) no_metrics tbl clock (\<lambda>w. routes (snd w)) (\<lambda>w. neighs (snd w))"
  by (auto simp: apart_def no_metrics_def dest: renew_keeps routable_keeps)

section \<open>A cycle\<close>

text \<open>
  The controller with the three leases of \<open>rows3\<close>, of which the second has expired, and the host of the first, which still has the
  route to the second.
\<close>

type_synonym site = "ref_world \<times> net_world"

definition site_lc :: "site LeaseController" where
  "site_lc = silk_LeaseController no_migrations (db_side ref_db) (seeded_runtime 7) test_pool 60"

definition site_env :: "site daemon_env" where
  "site_env =
     \<lparr>de_io = \<lparr>ReadFile = (\<lambda>_. ret []), WriteFile = (\<lambda>_ _. ret ())\<rparr>, de_NewClientTLSConfig = (\<lambda>_ _ _. ret ()), de_dropsonde = (\<lambda>_ _. ret ()),
      de_httpClient = direct ''https://c'' (lease_routes site_lc), de_newRequest = (\<lambda>_ _. None), de_kernel = kernel_side ref_kernel,
      de_NewLocker = (\<lambda>_. fail (ErrorString ''no store'')), de_metrics = no_metrics, de_now = (\<lambda>_. 0)\<rparr>"

definition site_lease :: Lease where
  "site_lease = \<lparr>UnderlayIP = ''10.0.0.1'', OverlaySubnet = ''10.255.0.4/30'', OverlayHardwareAddr = ''ee:ee:0a:ff:00:04''\<rparr>"

definition site_iface :: Interface where
  "site_iface = \<lparr>if_Index = 9, if_MTU = 1450, if_Name = ''silk-vtep'', if_HardwareAddr = [0xee, 0xee, 10, 255, 0, 4]\<rparr>"

definition site_converger :: "site Converger" where
  "site_converger = \<lparr>cv_OverlayNetwork = v4_net 10 255 0 0 28, cv_LocalSubnet = v4_net 10 255 0 4 30, cv_LocalVTEP = site_iface,
     cv_NetlinkAdapter = as_netlinkAdapter (kernel_side ref_kernel)\<rparr>"

definition old_route :: Route where
  "old_route = route_to site_converger (v4_net 10 255 0 8 30) [10, 255, 0, 8]"

definition site_net :: net_world where
  "site_net = \<lparr>nw_cur = 0,
     nw_stacks = \<lambda>_. empty_stack
       \<lparr>ks_links := [\<lparr>lk_Index = 9, lk_Name = ''silk-vtep'', lk_HardwareAddr = [0xee, 0xee, 10, 255, 0, 4], lk_MTU = 1450, lk_Up = True,
          lk_kind = Device\<rparr>], ks_routes := [old_route]\<rparr>,
     nw_next = 10, nw_pairs = [], nw_broken = []\<rparr>"

definition site_cycles :: bool where
  "site_cycles =
     (case RenewSubnetLease site_lc site_lease (world_at rows3, site_net) of
        (None, w1) \<Rightarrow>
          (case RoutableLeases site_lc w1 of
             (Inr ls, w2) \<Rightarrow> (case Converge site_converger ls w2 of (Inr _, _) \<Rightarrow> True | _ \<Rightarrow> False)
           | _ \<Rightarrow> False)
      | _ \<Rightarrow> False)"

lemma site_cycles: site_cycles
  by code_simp

abbreviation site_planner :: "site VXLANPlanner" where
  "site_planner \<equiv> vxlan_planner site_env host_config site_lease (v4_net 10 255 0 0 28) (v4_net 10 255 0 4 30) site_iface"

lemma site_client: "daemon_client site_env host_config = connected ''https://c'' site_lc"
  by (simp add: daemon_client_def connected_def site_env_def host_config_def)

lemma site_env_fields: "de_kernel site_env = kernel_side ref_kernel" "de_metrics site_env = no_metrics" "de_now site_env w = 0"
  by (simp_all add: site_env_def)

lemma site_cycle: "\<exists>w'. DoCycle site_planner (NewGracefulDetector 60 0, world_at rows3, site_net) = (None, GotSuccess 0 (NewGracefulDetector 60 0), w')"
proof -
  obtain r1 w1 where 1: "RenewSubnetLease site_lc site_lease (world_at rows3, site_net) = (r1, w1)"
    by (cases "RenewSubnetLease site_lc site_lease (world_at rows3, site_net)")
  obtain r2 w2 where 2: "RoutableLeases site_lc w1 = (r2, w2)" by (cases "RoutableLeases site_lc w1")
  from site_cycles 1 2 obtain ls where s: "r1 = None" "r2 = Inr ls" "case Converge site_converger ls w2 of (Inr _, _) \<Rightarrow> True | _ \<Rightarrow> False"
    by (auto simp: site_cycles_def split: option.split_asm sum.split_asm)
  obtain r3 w3 where 3: "Converge site_converger ls w2 = (r3, w3)" by (cases "Converge site_converger ls w2")
  with s(3) have "r3 = Inr ()" by (auto split: sum.split_asm)
  with 1 2 3 s(1,2) show ?thesis
    by (simp add: DoCycle_def vxlan_planner_def site_client client_renew client_list site_converger_def site_env_fields no_metrics_def Let_def)
qed


section \<open>A teardown\<close>

text \<open>A file with the settings of a daemon.\<close>

definition client_json :: "client_Config \<Rightarrow> json" where
  "client_json c = JObj
     [(''underlay_ip'', JStr (cl_UnderlayIP c)), (''vxlan_interface_name'', JStr (cl_VxlanInterfaceName c)), (''overlay_network'', JStr (cl_OverlayNetwork c)),
      (''vtep_name'', JStr (cl_VTEPName c)), (''connectivity_server_url'', JStr (cl_ConnectivityServerURL c)), (''ca_cert_file'', JStr (cl_ServerCACertFile c)),
      (''client_cert_file'', JStr (cl_ClientCertFile c)), (''client_key_file'', JStr (cl_ClientKeyFile c)), (''datastore'', JStr (cl_Datastore c)),
      (''log_prefix'', JStr (cl_LogPrefix c)), (''log_level'', JStr (cl_LogLevel c)), (''subnet_prefix_length'', enc_int (cl_SubnetPrefixLength c)),
      (''vni'', enc_int (cl_VNI c)), (''vtep_port'', enc_int (cl_VTEPPort c)), (''poll_interval'', enc_int (cl_PollInterval c)),
      (''debug_server_port'', enc_int (cl_DebugServerPort c)), (''partition_tolerance_seconds'', enc_int (cl_PartitionToleranceSeconds c)), (''client_timeout_seconds'', enc_int (cl_ClientTimeoutSeconds c)),
      (''metron_port'', enc_int (cl_MetronPort c)), (''health_check_port'', enc_int (cl_HealthCheckPort c)), (''single_ip_only'', JBool (cl_SingleIPOnly c))]"

lemma client_keys: "distinct_keys (members (client_json c))"
proof -
  have "distinct (map (map lower) [''underlay_ip'', ''vxlan_interface_name'', ''overlay_network'', ''vtep_name'', ''connectivity_server_url'', ''ca_cert_file'',
      ''client_cert_file'', ''client_key_file'', ''datastore'', ''log_prefix'', ''log_level'', ''subnet_prefix_length'',
      ''vni'', ''vtep_port'', ''poll_interval'', ''debug_server_port'', ''partition_tolerance_seconds'', ''client_timeout_seconds'',
      ''metron_port'', ''health_check_port'', ''single_ip_only''])" by code_simp
  then show ?thesis by (simp only: distinct_keys_def client_json_def members.simps list.map comp_apply fst_conv)
qed

lemma dec_client_json:
  assumes "uint16 (cl_HealthCheckPort c)" "list_all int64 [cl_SubnetPrefixLength c, cl_VNI c, cl_VTEPPort c, cl_PollInterval c, cl_DebugServerPort c,
    cl_PartitionToleranceSeconds c, cl_ClientTimeoutSeconds c, cl_MetronPort c]"
  shows "dec_client_Config (client_json c) = Some c"
proof -
  let ?ms = "members (client_json c)"
  have eq: "client_json c = JObj ?ms" by (simp add: client_json_def)
  note f = decode_members [OF client_keys [of c]]
  note mem = client_json_def members.simps list.set_intros
  have fs: "decode_field dec_string ''underlay_ip'' zero ?ms = (cl_UnderlayIP c, False)"
    "decode_field dec_string ''vxlan_interface_name'' zero ?ms = (cl_VxlanInterfaceName c, False)"
    "decode_field dec_string ''overlay_network'' zero ?ms = (cl_OverlayNetwork c, False)"
    "decode_field dec_string ''vtep_name'' zero ?ms = (cl_VTEPName c, False)"
    "decode_field dec_string ''connectivity_server_url'' zero ?ms = (cl_ConnectivityServerURL c, False)"
    "decode_field dec_string ''ca_cert_file'' zero ?ms = (cl_ServerCACertFile c, False)"
    "decode_field dec_string ''client_cert_file'' zero ?ms = (cl_ClientCertFile c, False)"
    "decode_field dec_string ''client_key_file'' zero ?ms = (cl_ClientKeyFile c, False)"
    "decode_field dec_string ''datastore'' zero ?ms = (cl_Datastore c, False)"
    "decode_field dec_string ''log_prefix'' zero ?ms = (cl_LogPrefix c, False)"
    "decode_field dec_string ''log_level'' zero ?ms = (cl_LogLevel c, False)" for zero
    by (rule f(1), simp only: mem)+
  have fi: "decode_field dec_int64 ''subnet_prefix_length'' zero ?ms = (cl_SubnetPrefixLength c, False)"
    "decode_field dec_int64 ''vni'' zero ?ms = (cl_VNI c, False)"
    "decode_field dec_int64 ''vtep_port'' zero ?ms = (cl_VTEPPort c, False)"
    "decode_field dec_int64 ''poll_interval'' zero ?ms = (cl_PollInterval c, False)"
    "decode_field dec_int64 ''debug_server_port'' zero ?ms = (cl_DebugServerPort c, False)"
    "decode_field dec_int64 ''partition_tolerance_seconds'' zero ?ms = (cl_PartitionToleranceSeconds c, False)"
    "decode_field dec_int64 ''client_timeout_seconds'' zero ?ms = (cl_ClientTimeoutSeconds c, False)"
    "decode_field dec_int64 ''metron_port'' zero ?ms = (cl_MetronPort c, False)" for zero
    by (rule f(3), simp only: mem, use assms(2) in simp)+
  have fu: "decode_field dec_uint16 ''health_check_port'' zero ?ms = (cl_HealthCheckPort c, False)" for zero
    by (rule f(4), simp only: mem, rule assms(1))
  have fb: "decode_field dec_bool ''single_ip_only'' zero ?ms = (cl_SingleIPOnly c, False)" for zero
    by (rule f(2), simp only: mem)
  show ?thesis
    by (subst eq) (simp add: dec_client_Config_def mistyped_def fs fi fu fb field_s_def field_i_def field_u_def field_b_def)
qed

definition teardown_env :: "site daemon_env" where
  "teardown_env = site_env\<lparr>de_io := \<lparr>ReadFile = (\<lambda>_. ret (json_text (client_json host_config))), WriteFile = (\<lambda>_ _. ret ())\<rparr>\<rparr>"

lemma teardown_config: "LoadConfig (de_io teardown_env) path w = (Inr host_config, w)"
proof -
  have "json_ok (client_json host_config)" by (simp add: client_json_def)
  moreover have "dec_client_Config (client_json host_config) = Some host_config"
    by (rule dec_client_json) (simp_all add: host_config_def uint16_def int64_def)
  moreover have "check_client_Config host_config = []" by code_simp
  ultimately show ?thesis
    by (simp add: LoadConfig_def teardown_env_def json_Unmarshal_text validator_Validate_def try_do_def ret_def del: json_text.simps)
qed

theorem teardown_gives_back_lease_witness:
  "\<exists>status w'. teardown_main teardown_env ''/config'' (world_at rows3, site_net) = (status, w') \<and>
     rw_rows (fst w') = tl rows3"
proof -
  let ?w = "(world_at rows3, site_net)"
  obtain status w' where r: "teardown_main teardown_env ''/config'' ?w = (status, w')" by (cases "teardown_main teardown_env ''/config'' ?w")
  have c: "daemon_client teardown_env host_config = connected ''https://c'' site_lc"
    by (simp add: daemon_client_def connected_def teardown_env_def site_env_def host_config_def)
  have s: "de_NewClientTLSConfig teardown_env a b d w = (Inr (), w)" for a b d w by (simp add: teardown_env_def site_env_def ret_def)
  have k: "\<forall>v r v'. DeleteVTEP (vtepFactory teardown_env) (cl_VTEPName host_config) v = (r, v') \<longrightarrow> rw_rows (fst v') = rw_rows (fst v)"
    by (auto simp: DeleteVTEP_def vtepFactory_def teardown_env_def site_env_fields as_netlinkAdapter_def adapter_defs kernel_side_def
        try_do_cases on_snd_iff)
  have up: "healthy (fst ?w)" by (simp add: world_at_def healthy_def)
  have f: "filter (\<lambda>x. UnderlayIP (row_lease x) \<noteq> cl_UnderlayIP host_config) rows3 = tl rows3" by code_simp
  from teardown_gives_back_lease [where tbl = "\<lambda>w. rw_rows (fst w)" and clock = "\<lambda>w. rw_now (fst w)" and up = "\<lambda>w. healthy (fst w)",
      OF db_side_subnets_db [OF ref_db_subnets_db] test_pool_for seeded_runtime_for site_lc_def c teardown_config s up k r] r f
  show ?thesis by (simp add: world_at_def)
qed

end
