(* ===== verification/Spec2Isabelle.thy ===== *)
theory Spec2Isabelle
  imports Cni_Errors Silk_Reference
begin

text \<open>
  Verification of silk, the container network of Cloud Foundry.  All paths are relative to \<^verbatim>\<open>src/\<close>.

  \<^bold>\<open>The program.\<close>  Every host of a network owns a subnet of one overlay network.  The \<^emph>\<open>controller\<close>
  (\<^verbatim>\<open>cmd/silk-controller\<close>) leases the subnets from a table in an SQL database and answers over an HTTP API with JSON
  messages.  The \<^emph>\<open>daemon\<close> of a host (\<^verbatim>\<open>cmd/silk-daemon\<close>) acquires a lease, creates a VXLAN device for it, and then, once
  per poll interval, renews the lease, asks for the active leases and makes the routes, ARP and forwarding entries of the device
  those of the other hosts.  The \<^emph>\<open>CNI plugin\<close> (\<^verbatim>\<open>cmd/silk-cni\<close>) connects a container to its host: it learns the subnet from the
  daemon or from a flannel file, has the \<^verbatim>\<open>host-local\<close> allocator choose an address, and sets up a pair of virtual devices; it records the
  containers in a locked file, which the daemon reads before it gives a subnet up.  The \<^emph>\<open>teardown\<close> job (\<^verbatim>\<open>cmd/silk-teardown\<close>)
  releases the lease of a host and deletes the device.

  \<^bold>\<open>How the code is represented.\<close>  A Go struct is a record, a method a function with the receiver as its first
  argument, an interface a record of its methods.  \<^verbatim>\<open>(T, error)\<close> is \<open>'a result\<close>, with \<open>Inl\<close> the error; an
  \<^verbatim>\<open>error\<close> alone is a \<open>go_error option\<close> or a \<open>unit result\<close>.  Code with effects maps a world \<open>'w\<close> to a result and a
  world (\<open>('w, 'a) op\<close>).  The world is a type variable: the packages the program calls, but does not contain, are
  fields of records over it (\<open>Db\<close>, \<open>migrateAdapter\<close>, \<open>kernel\<close>, \<open>namespaces\<close>, \<open>ioutil\<close>, \<open>json_Client\<close>,
  \<open>go_runtime\<close>, \<open>controller_env\<close>, \<open>daemon_env\<close>, \<open>cni_env\<close>).  What is relied on of them is a locale, and every locale is
  interpreted: on the program's own definitions where one component serves another, and on a reference implementation where
  the service is outside the program (\<open>ref_db\<close> and \<open>shared_db\<close> for SQL, \<open>ref_kernel\<close> for the network stack, \<open>host_kernel\<close>
  for the network stack with namespaces, \<open>mem_locker\<close> and \<open>mem_files\<close> for files).

  \<^bold>\<open>Theories.\<close>
  \<^item> \<open>Silk_Prelude\<close>, \<open>Go_Effects\<close>: errors, results, decimal and hexadecimal texts, sequencing.
  \<^item> \<open>Go_Net\<close>, \<open>Go_Json\<close>: what the program uses of Go's packages \<^verbatim>\<open>net\<close> and \<^verbatim>\<open>encoding/json\<close>, with the messages of
    \<^verbatim>\<open>controller/client.go\<close> and their round trip.
  \<^item> \<open>Hwaddr\<close>: \<^verbatim>\<open>lib/hwaddr\<close>, the hardware address generators of \<^verbatim>\<open>controller/leaser\<close> and \<^verbatim>\<open>cni/config\<close>, and the device name generator.
  \<^item> \<open>CIDR_Pool\<close>: \<^verbatim>\<open>controller/leaser/cidrpool.go\<close>.  The members of the pool lie in the network and have no address
    in common; its sizes; a choice is a free member when there is one.
  \<^item> \<open>Lease\<close>: the data of a lease and \<^verbatim>\<open>controller/leaser/validator.go\<close>.
  \<^item> \<open>Lease_Store\<close>: the table of leases and the contract \<open>lease_store\<close> of the interface \<^verbatim>\<open>databaseHandler\<close>.
  \<^item> \<open>Database_Handler\<close>: \<^verbatim>\<open>controller/database\<close> with its statement texts and migrations.  Over an SQL service with
    \<open>subnets_db\<close> it has \<open>lease_store\<close> (a sublocale).  \<open>Reference_Db\<close> executes the statements.
  \<^item> \<open>Lease_Controller\<close>: \<^verbatim>\<open>controller/leaser/lease_controller.go\<close>, with the lemmas that hold while other controllers
    work on the same table; \<open>Lease_Controller_Exclusive\<close>: what each request does to the table of a single controller.
  \<^item> \<open>Controller_System\<close>: the controller as the process assembles it, and its properties.
  \<^item> \<open>Controller_Api\<close>: \<^verbatim>\<open>controller/handlers\<close> and the routers; \<open>Controller_Client\<close>: \<^verbatim>\<open>controller/client.go\<close>.  A call through
    the client, the API and JSON is a call of the controller.
  \<^item> \<open>Config_Files\<close>: \<^verbatim>\<open>controller/config\<close> and \<^verbatim>\<open>client/config\<close>; \<open>Controller_Main\<close>: the metric sources and the start of the controller.
  \<^item> \<open>Datastore\<close>: \<^verbatim>\<open>lib/datastore\<close> and \<^verbatim>\<open>lib/serial\<close>.  The store refines a map, for every locked file with \<open>locked_files\<close>.
  \<^item> \<open>Netlink\<close>: \<^verbatim>\<open>lib/adapter\<close> and \<^verbatim>\<open>cni/adapter\<close> over the record \<open>kernel\<close>.
  \<^item> \<open>Vtep\<close>: \<^verbatim>\<open>daemon/vtep\<close>; \<open>Converger_Tables\<close>: the contract \<open>kernel_tables\<close> and what a run of the converger does to the
    tables; \<open>Reference_Kernel\<close>: a network stack in memory; \<open>Vtep_System\<close>: the properties of the converger.
  \<^item> \<open>Daemon\<close>: \<^verbatim>\<open>daemon/planner\<close>, \<^verbatim>\<open>daemon/poller\<close>, \<^verbatim>\<open>cmd/silk-daemon\<close> and \<^verbatim>\<open>cmd/silk-teardown\<close>; \<open>Daemon_System\<close>: when the
    daemon stops, that it keeps a subnet with containers, and that it finds its lease again.
  \<^item> \<open>Cni_Config\<close>, \<open>Cni_Setup\<close>, \<open>Cni_Main\<close>: \<^verbatim>\<open>cni/config\<close> with \<^verbatim>\<open>cni/netinfo\<close>, \<^verbatim>\<open>cni/lib\<close>, \<^verbatim>\<open>cmd/silk-cni\<close>.
  \<^item> \<open>Cni_Contract\<close> (the contract \<open>namespace_kernel\<close> over a view of the devices, routes and settings of every namespace),
    \<open>Cni_System\<close> (\<^verbatim>\<open>ADD\<close> and \<^verbatim>\<open>DEL\<close>), \<open>Cni_Netinfo\<close>, \<open>Cni_Errors\<close>, and on a host in memory \<open>Cni_Reference\<close> and \<open>Cni_Scenario\<close>.
  \<^item> \<open>Silk_System\<close>: controller, API and daemon together; \<open>Silk_Reference\<close>: one world with a database and a network stack.
  \<^item> \<open>Test_Support\<close>: the fake controller, the fake daemon and the configuration of the integration tests.

  \<^bold>\<open>What is shown.\<close>
  \<^item> Leases.  An acquired subnet belongs to the host alone; no lease that is still valid is taken from another host; a request succeeds
    unless the pool is exhausted; a granted lease validates and renews; renewing, releasing and listing are described on every
    branch; the constraints of the table survive every request, also with several controllers.
  \<^item> Connectivity.  After a cycle of the daemon that succeeds, the device has entries for exactly the active leases of the other
    subnets, and at no point of a run does a wanted route disappear.
  \<^item> Service life.  The daemon stops only after it has been refused or cut off for longer than the grace period, and then it does stop; a
    restart keeps the subnet of running containers; the teardown job gives the lease back.
  \<^item> Containers.  A successful \<^verbatim>\<open>ADD\<close> connects the container and records it, a successful \<^verbatim>\<open>DEL\<close> undoes both, and a failure before the
    devices are made leaves the host as it was.
  \<^item> Behaviour of the code that is probably not meant: a prefix length above 32 makes the controller hang; a takeover can hand out a subnet
    outside the network; \<^verbatim>\<open>DEL\<close> without a namespace keeps the store entry; a device that vanishes makes the plugin panic; a failed
    write empties the store; a single-address lease is not recovered by a restart; two metrics are off.

  \<^bold>\<open>Loops and bounds.\<close>  The loop that fills the block pool is a partial function, because it does not end for a block size of 0; for an
  IPv4 network no smaller than a block it is proved to return.  The JSON reader \<open>read_value\<close> has a bound on its recursion, more
  than twice the length of the text (\<open>parse_json\<close>): each call consumes a character or passes to the next kind of call, and
  \<open>read_value_text\<close> shows that the bound is enough for every text the program prints.  The attempts of an acquisition (10), of the
  migrator (5) and of the setup of a device (\<^verbatim>\<open>MAX_ATTEMPTS\<close>) are the source's own bounds.  The poller runs on a list of
  events; a list that ends is a poller that waits.  Go's \<^verbatim>\<open>int\<close> has 64 bits where arithmetic can leave it (the pool, durations),
  addresses are 32-bit words, bytes are 8-bit words.

  \<^bold>\<open>Not modelled.\<close>  Logging; TLS, dropsonde, the debug server and the running of process groups, which only occur as steps that may
  fail; the wording of JSON syntax errors and of most messages of Go's own packages; \<^verbatim>\<open>getRandomSeed\<close> (the choice it seeds is
  arbitrary); the adapter methods \<^verbatim>\<open>QdiscAdd\<close>, \<^verbatim>\<open>FilterAdd\<close> and \<^verbatim>\<open>TickInUsec\<close>, which nothing calls; the fakes that counterfeiter
  generates for the unit tests; the parts of the test helpers that start processes and make assertions; vendored packages,
  apart from the address arithmetic, the JSON client and the error responses.
\<close>

end
